theory Spec2Isabelle
  imports Main "HOL-Library.Sublist" "HOL-Library.AList"
begin

section \<open>The tokenizer\<close>

text \<open>
  Strings of the program are modelled as \<^typ>\<open>string\<close>: one \<^typ>\<open>char\<close> stands for one
  code unit of a JavaScript string.

  \<open>raw.indexOf(token)\<close>: the first position at which \<open>token\<close> occurs in \<open>raw\<close>,
  \<open>None\<close> for the source's \<open>-1\<close>. The empty token occurs at position 0 of every string.
\<close>

fun indexOf :: "string \<Rightarrow> string \<Rightarrow> nat option" where
  "indexOf [] token = (if token = [] then Some 0 else None)"
| "indexOf (c # cs) token =
     (if prefix token (c # cs) then Some 0 else map_option Suc (indexOf cs token))"

text \<open>One round of the inner \<open>for(let token of tokens)\<close> loop of \<open>makeTokenizer\<close>,
  on the pair \<open>(minIx, minToken)\<close>.\<close>

definition nearest :: "string \<Rightarrow> nat \<times> string \<Rightarrow> string \<Rightarrow> nat \<times> string" where
  "nearest raw best token =
     (case indexOf raw token of
        None \<Rightarrow> best
      | Some ix \<Rightarrow> if ix < fst best then (ix, token) else best)"

text \<open>The body of the \<open>while(raw.length)\<close> loop: the pieces pushed onto \<open>results\<close> and
  the new value of \<open>raw\<close>.\<close>

definition tokenizer_step :: "string list \<Rightarrow> string \<Rightarrow> string list \<times> string" where
  "tokenizer_step tokens raw =
     (let (minIx, minToken) = foldl (nearest raw) (length raw, raw) tokens
      in ((if 0 < minIx \<and> minIx < length raw then [take minIx raw] else []) @ [minToken],
          drop (minIx + length minToken) raw))"

text \<open>The \<open>while\<close> loop itself. Nothing in the source bounds it, so it is a partial
  function: \<open>None\<close> is "does not return".\<close>

partial_function (option) tokenizer_loop ::
  "string list \<Rightarrow> string \<Rightarrow> string list \<Rightarrow> string list option" where
  "tokenizer_loop tokens raw results =
     (if raw = [] then Some results
      else case tokenizer_step tokens raw of
             (pieces, rest) \<Rightarrow> tokenizer_loop tokens rest (results @ pieces))"

declare tokenizer_loop.simps [code]

definition makeTokenizer :: "string list \<Rightarrow> string \<Rightarrow> string list option" where
  "makeTokenizer tokens raw = tokenizer_loop tokens raw []"

section \<open>Values and tokens\<close>

text \<open>
  The scalar that \<open>coerceInput\<close> makes of the text of a quoted literal. An integer
  literal of at most \<open>2^53\<close> in absolute value denotes that integer, which \<open>parseInt\<close>
  returns exactly. \<open>VOther s\<close> is the value of \<open>coerceInput(s)\<close> in the cases that are
  left: a float literal, an integer literal beyond \<open>2^53\<close>, which \<open>parseInt\<close> rounds, and
  a text with a line terminator in it, where the patterns, which carry the flag \<open>m\<close>,
  match line by line. The number or string that it is is not determined here.
\<close>

datatype jsval = VInt int | VOther string | VBool bool | VStr string

definition is_digit :: "char \<Rightarrow> bool" where
  "is_digit c = (c \<in> set ''0123456789'')"

definition digit_value :: "char \<Rightarrow> nat" where
  "digit_value c = (case map_of (zip ''0123456789'' [0 ..< 10]) c of None \<Rightarrow> 0 | Some d \<Rightarrow> d)"

definition digits_value :: "string \<Rightarrow> nat" where
  "digits_value s = foldl (\<lambda>n c. 10 * n + digit_value c) 0 s"

definition strip_minus :: "string \<Rightarrow> string" where
  "strip_minus s = (case s of c # cs \<Rightarrow> if c = CHR ''-'' then cs else s | [] \<Rightarrow> s)"

text \<open>\<open>/^-?[\d]+$/\<close> and \<open>/^-?[\d]+\.[\d]+$/\<close> on an input of one line.\<close>

definition is_int_literal :: "string \<Rightarrow> bool" where
  "is_int_literal s = (strip_minus s \<noteq> [] \<and> list_all is_digit (strip_minus s))"

definition is_float_literal :: "string \<Rightarrow> bool" where
  "is_float_literal s =
     (let t = strip_minus s; whole = takeWhile is_digit t; rest = dropWhile is_digit t
      in whole \<noteq> [] \<and> rest \<noteq> [] \<and> hd rest = CHR ''.'' \<and> tl rest \<noteq> [] \<and>
         list_all is_digit (tl rest))"

definition coerceInput :: "string \<Rightarrow> jsval" where
  "coerceInput input =
     (if CHR 0x0A \<in> set input \<or> CHR 0x0D \<in> set input then VOther input
      else if is_int_literal input then
        (if digits_value (strip_minus input) \<le> 2 ^ 53 then
           VInt (if hd input = CHR ''-'' then - int (digits_value (strip_minus input))
                 else int (digits_value input))
         else VOther input)
      else if is_float_literal input then VOther input
      else if input = ''true'' then VBool True
      else if input = ''false'' then VBool False
      else VStr input)"

text \<open>Decimal notation of a number, for template strings.\<close>

function show_nat :: "nat \<Rightarrow> string" where
  "show_nat n = (if n < 10 then [''0123456789'' ! n]
                 else show_nat (n div 10) @ [''0123456789'' ! (n mod 10)])"
  by pat_completeness auto
termination
  by (relation "measure id") auto

definition show_int :: "int \<Rightarrow> string" where
  "show_int i = (if i < 0 then ''-'' @ show_nat (nat (- i)) else show_nat (nat i))"

text \<open>\<open>String(v)\<close>, and the truthiness of a value. Neither is determined for
  \<open>VOther\<close>: the functions that need one of them test \<open>determined\<close> first.\<close>

fun determined :: "jsval \<Rightarrow> bool" where
  "determined (VOther s) = False"
| "determined _ = True"

fun jsval_string :: "jsval \<Rightarrow> string" where
  "jsval_string (VInt i) = show_int i"
| "jsval_string (VOther s) = s"
| "jsval_string (VBool b) = (if b then ''true'' else ''false'')"
| "jsval_string (VStr s) = s"

fun jsval_truthy :: "jsval \<Rightarrow> bool" where
  "jsval_truthy (VInt i) = (i \<noteq> 0)"
| "jsval_truthy (VOther s) = True"
| "jsval_truthy (VBool b) = b"
| "jsval_truthy (VStr s) = (s \<noteq> [])"

text \<open>
  The \<open>type\<close> tag of a token of the Query language. \<open>KUntyped\<close> is the empty tag that
  \<open>parseLine\<close> gives a line before it is classified.
\<close>

datatype kind = KUntyped | KComment | KSource | KOrdinal | KCalculation | KAction | KQuery

text \<open>
  The tokens of the Query language. Optional properties are options, \<open>None\<close> for
  \<open>undefined\<close>; the flag \<open>grouped\<close>, which is only ever \<open>true\<close> or absent and only
  tested for truth, is a \<open>bool\<close>. A token with \<open>chunks\<close> is a \<open>Line\<close>, whatever its tag;
  \<open>directions\<close> is an array that may have holes.
\<close>

datatype token =
    Text "nat option" "nat option" "nat option" (t_text: string)
  | Keyword "nat option" (t_text: string)
  | Field "nat option" (grouped: bool) (t_alias: "string option") (fvalue: "jsval option")
  | Line (kind: kind) "nat option" "nat option" (chunks: "token list")
      (negated: "bool option") (t_alias: "string option") (directions: "string option list")
      (ltext: "string option") (partIx: "nat option")

text \<open>The arguments without a name are \<open>tokenIx\<close> for a keyword and a field, \<open>tokenIx\<close>,
  \<open>lineIx\<close> and \<open>indent\<close> for a text, \<open>lineIx\<close> and \<open>indent\<close> for a line.\<close>

fun tokenIsText :: "token \<Rightarrow> bool" where
  "tokenIsText (Text _ _ _ _) = True"
| "tokenIsText _ = False"

fun tokenIsKeyword :: "token \<Rightarrow> bool" where
  "tokenIsKeyword (Keyword _ _) = True"
| "tokenIsKeyword _ = False"

fun tokenIsField :: "token \<Rightarrow> bool" where
  "tokenIsField (Field _ _ _ _) = True"
| "tokenIsField _ = False"

fun tokenIsKind :: "kind \<Rightarrow> token \<Rightarrow> bool" where
  "tokenIsKind k (Line k' _ _ _ _ _ _ _ _) = (k' = k)"
| "tokenIsKind k _ = False"

abbreviation tokenIsSource :: "token \<Rightarrow> bool" where
  "tokenIsSource \<equiv> tokenIsKind KSource"

abbreviation tokenIsOrdinal :: "token \<Rightarrow> bool" where
  "tokenIsOrdinal \<equiv> tokenIsKind KOrdinal"

abbreviation tokenIsCalculation :: "token \<Rightarrow> bool" where
  "tokenIsCalculation \<equiv> tokenIsKind KCalculation"

abbreviation tokenIsAction :: "token \<Rightarrow> bool" where
  "tokenIsAction \<equiv> tokenIsKind KAction"

text \<open>\<open>token.lineIx\<close> and \<open>token.indent\<close> of any token; keywords and fields have neither.\<close>

fun lineIx_of :: "token \<Rightarrow> nat option" where
  "lineIx_of (Text _ li _ _) = li"
| "lineIx_of (Line _ li _ _ _ _ _ _ _) = li"
| "lineIx_of _ = None"

definition padding_of :: "nat option \<Rightarrow> string" where
  "padding_of ind = (case ind of None \<Rightarrow> [] | Some n \<Rightarrow> replicate n CHR '' '')"

text \<open>
  \<open>tokenToString\<close> on the tokens of the Query language. The second function is the loop
  over the chunks of a line; its first argument is \<open>prev\<close>, as the \<open>lineIx\<close> of the chunk
  before (\<open>None\<close> before the first chunk). Every token of this datatype has one of the
  tags the source's function knows, so its final \<open>throw\<close> is not reached.
\<close>

fun tokenToString :: "token \<Rightarrow> string"
  and chunksToString :: "nat option option \<Rightarrow> token list \<Rightarrow> string" where
  "tokenToString (Text ti li ind t) = padding_of ind @ t"
| "tokenToString (Keyword ti t) = t"
| "tokenToString (Field ti g a v) =
     (case v of
        Some x \<Rightarrow> ''`'' @ (if jsval_truthy x then jsval_string x else []) @ ''`''
      | None \<Rightarrow> ''?'' @ (if g then ''?'' else []) @ (case a of None \<Rightarrow> [] | Some s \<Rightarrow> s))"
| "tokenToString (Line k li ind cs neg a ds lt pix) =
     (if k = KCalculation \<and> lt \<noteq> None \<and> lt \<noteq> Some [] then the lt
      else padding_of ind @ chunksToString None cs)"
| "chunksToString prev [] = []"
| "chunksToString prev (c # cs) =
     (if prev \<noteq> None \<and> prev \<noteq> Some (lineIx_of c) then [CHR 0x0A] else []) @
     tokenToString c @ chunksToString (Some (lineIx_of c)) cs"

text \<open>The tokens in which every literal has a value that is determined.\<close>

fun token_determined :: "token \<Rightarrow> bool" where
  "token_determined (Field ti g a v) = (case v of None \<Rightarrow> True | Some x \<Rightarrow> determined x)"
| "token_determined (Line k li ind cs neg a ds lt pix) = (\<forall>c \<in> set cs. token_determined c)"
| "token_determined _ = True"

text \<open>
  How a call ends when it does not return: with a TypeError (a property of \<open>undefined\<close>
  is read), with an error value that is thrown, or not at all. \<open>Unmodelled\<close> is not an
  outcome of the program: a function of this development ends with it where what the
  program does depends on something that is not represented here, namely the value of
  a literal that is not \<open>determined\<close>, and the built-in properties of objects (see
  \<open>Object_prototype\<close> below). Nothing is stated about such a call.
\<close>

datatype error = ParseError (message: string)

datatype failure = TypeError | Thrown error | NoReturn | Unmodelled

text \<open>
  The objects that the parsers use as dictionaries are plain objects. Read with one of
  the keys below, an object that has no property of that name of its own gives a
  property of \<open>Object.prototype\<close>, and an assignment to the key \<open>__proto__\<close> sets no
  property. What follows from there depends on built-in objects that the whole program
  shares. The functions below end with \<open>Unmodelled\<close> when one of these keys is about to
  be used on a dictionary.
\<close>

definition Object_prototype :: "string list" where
  "Object_prototype =
     [''__proto__'', ''constructor'', ''hasOwnProperty'', ''isPrototypeOf'',
      ''propertyIsEnumerable'', ''toLocaleString'', ''toString'', ''valueOf'',
      ''__defineGetter__'', ''__defineSetter__'', ''__lookupGetter__'', ''__lookupSetter__'']"

text \<open>\<open>fingerprintSource\<close>; \<open>ast.chunks[0]\<close> of a line without chunks is \<open>undefined\<close>,
  which \<open>tokenIsText\<close> cannot read.\<close>

definition fingerprintSource :: "token \<Rightarrow> failure + string" where
  "fingerprintSource ast =
     (case chunks ast of
        [] \<Rightarrow> Inl TypeError
      | head # rest \<Rightarrow>
          if tokenIsText head \<and> take 2 (t_text head) = ''! ''
          then Inr (drop 2 (t_text head) @
                    concat (map (\<lambda>token. if tokenIsField token then ''?'' else tokenToString token) rest))
          else Inr (concat (map (\<lambda>token. if tokenIsField token then ''?'' else tokenToString token)
                      (head # rest))))"

section \<open>Parsing a line\<close>

definition PUNCTUATION :: "string list" where
  "PUNCTUATION = [''.'', '','', '';'', '':'']"

definition Q_ACTION_TOKENS :: "string list" where
  "Q_ACTION_TOKENS = [''+'']"

definition Q_KEYWORD_TOKENS :: "string list" where
  "Q_KEYWORD_TOKENS = [''!'', ''('', '')'', ''$='', ''#'', '';'', ''?'', ''`''] @ Q_ACTION_TOKENS"

definition Q_TOKENS :: "string list" where
  "Q_TOKENS = ['' '', [CHR 0x09]] @ Q_KEYWORD_TOKENS @ PUNCTUATION"

text \<open>\<open>consume\<close>, \<open>consumeWhile\<close> and \<open>consumeUntil\<close> without their \<open>err\<close> argument:
  the value returned and the tokens left. With \<open>err\<close>, the two loops throw when they
  run out of tokens, which is when they leave none.\<close>

definition consume :: "string list \<Rightarrow> string list \<Rightarrow> string option \<times> string list" where
  "consume needles tokens =
     (case tokens of
        [] \<Rightarrow> (None, [])
      | head # rest \<Rightarrow> if head \<in> set needles then (Some head, rest) else (None, tokens))"

fun consumeWhile :: "string list \<Rightarrow> string list \<Rightarrow> string \<times> string list" where
  "consumeWhile needles [] = ([], [])"
| "consumeWhile needles (head # tokens) =
     (if head \<notin> set needles then ([], head # tokens)
      else case consumeWhile needles tokens of (res, rest) \<Rightarrow> (head @ res, rest))"

fun consumeUntil :: "string list \<Rightarrow> string list \<Rightarrow> string \<times> string list" where
  "consumeUntil needles [] = ([], [])"
| "consumeUntil needles (head # tokens) =
     (if head \<in> set needles then ([], head # tokens)
      else case consumeUntil needles tokens of (res, rest) \<Rightarrow> (head @ res, rest))"

text \<open>What a sub-parser returns: \<open>undefined\<close>, a token, or an error value.\<close>

datatype 'a parsed = NoMatch | Parsed 'a | Failed error

text \<open>
  An error value is modelled by its message: the position that \<open>ParseError\<close> appends
  (line, column, underline) is computed by total string functions and is left out.
  The methods \<open>parseError\<close> of \<open>Query\<close> and \<open>Ui\<close> start with \<open>this.raw.split("\n")\<close>.
  \<open>parse\<close> sets \<open>raw\<close> before anything else, so the errors of the parsing functions
  below are always made; \<open>reify\<close> makes its errors with \<open>parseError\<close> on the \<open>raw\<close> of
  the object as it finds it.
\<close>

definition parseError :: "string option \<Rightarrow> string \<Rightarrow> failure + error" where
  "parseError rw msg = (case rw of None \<Rightarrow> Inl TypeError | Some r \<Rightarrow> Inr (ParseError msg))"

definition parseField :: "string list \<Rightarrow> nat \<Rightarrow> token parsed \<times> string list" where
  "parseField tokens tokenIx =
     (case consume [''?''] tokens of
        (Some _, tokens1) \<Rightarrow>
          (case consume [''?''] tokens1 of (g, tokens2) \<Rightarrow>
             (case tokens2 of
                head # rest \<Rightarrow>
                  if head \<noteq> [] \<and> head \<noteq> '' '' \<and> head \<notin> set PUNCTUATION
                  then (Parsed (Field (Some tokenIx) (g \<noteq> None) (Some head) None), rest)
                  else (Parsed (Field (Some tokenIx) (g \<noteq> None) None None), tokens2)
              | [] \<Rightarrow> (Parsed (Field (Some tokenIx) (g \<noteq> None) None None), [])))
      | (None, _) \<Rightarrow>
          (case consume [''`''] tokens of
             (Some _, tokens1) \<Rightarrow>
               (case consumeUntil [''`''] tokens1 of (v, rest) \<Rightarrow>
                  if rest = [] then (Failed (ParseError ''Unterminated quoted literal.''), [])
                  else (Parsed (Field (Some tokenIx) False None (Some (coerceInput v))), tl rest))
           | (None, _) \<Rightarrow> (NoMatch, tokens)))"

definition parseKeyword :: "string list \<Rightarrow> nat \<Rightarrow> token parsed \<times> string list" where
  "parseKeyword tokens tokenIx =
     (case tokens of
        head # rest \<Rightarrow>
          if head \<in> set Q_KEYWORD_TOKENS then (Parsed (Keyword (Some tokenIx) head), rest)
          else (NoMatch, tokens)
      | [] \<Rightarrow> (NoMatch, []))"

definition parseStructure :: "string list \<Rightarrow> nat \<Rightarrow> token parsed \<times> string list" where
  "parseStructure tokens tokenIx =
     (case consumeUntil Q_KEYWORD_TOKENS tokens of (t, rest) \<Rightarrow>
        if t \<noteq> [] then (Parsed (Text (Some tokenIx) None None t), rest) else (NoMatch, rest))"

text \<open>\<open>parseField(..) || parseKeyword(..) || parseStructure(..)\<close>: the next parser runs
  only when the one before returned \<open>undefined\<close>.\<close>

definition parseToken :: "string list \<Rightarrow> nat \<Rightarrow> token parsed \<times> string list" where
  "parseToken tokens tokenIx =
     (case parseField tokens tokenIx of
        (NoMatch, tokens1) \<Rightarrow>
          (case parseKeyword tokens1 tokenIx of
             (NoMatch, tokens2) \<Rightarrow> parseStructure tokens2 tokenIx
           | r \<Rightarrow> r)
      | r \<Rightarrow> r)"

lemma consumeUntil_length: "length (snd (consumeUntil needles tokens)) \<le> length tokens"
  by (induction tokens) (auto split: prod.splits)

lemma parseToken_shorter:
  assumes "parseToken tokens tokenIx = (Parsed tok, rest)"
  shows "length rest < length tokens"
proof -
  have u: "\<And>ns ts. length (snd (consumeUntil ns ts)) \<le> length ts"
    by (rule consumeUntil_length)
  have s: "\<And>ts t r. consumeUntil Q_KEYWORD_TOKENS ts = (t, r) \<Longrightarrow> t \<noteq> [] \<Longrightarrow>
             length r < length ts"
  proof -
    fix ts :: "string list" and t r
    show "consumeUntil Q_KEYWORD_TOKENS ts = (t, r) \<Longrightarrow> t \<noteq> [] \<Longrightarrow> length r < length ts"
    proof (induction ts arbitrary: t r)
      case Nil
      then show ?case by simp
    next
      case (Cons a ts)
      then show ?case using u[of Q_KEYWORD_TOKENS ts]
        by (auto split: if_splits prod.splits)
    qed
  qed
  show ?thesis
  proof (cases "parseField tokens tokenIx")
    case (Pair r1 ts1)
    show ?thesis
    proof (cases r1)
      case NoMatch
      then have ts1: "ts1 = tokens" using Pair
        by (auto simp: parseField_def consume_def split: list.splits if_splits prod.splits)
      show ?thesis
      proof (cases "parseKeyword tokens tokenIx")
        case kw: (Pair r2 ts2)
        show ?thesis
        proof (cases r2)
          case NoMatch
          then have ts2: "ts2 = tokens" using kw
            by (auto simp: parseKeyword_def split: list.splits if_splits)
          have "parseStructure tokens tokenIx = (Parsed tok, rest)"
            using assms Pair \<open>r1 = NoMatch\<close> ts1 kw NoMatch ts2 by (simp add: parseToken_def)
          then show ?thesis using s[of tokens]
            by (auto simp: parseStructure_def split: prod.splits if_splits)
        next
          case (Parsed x)
          then show ?thesis using assms Pair \<open>r1 = NoMatch\<close> ts1 kw
            by (auto simp: parseToken_def parseKeyword_def split: list.splits if_splits)
        next
          case (Failed e)
          then show ?thesis using assms Pair \<open>r1 = NoMatch\<close> ts1 kw
            by (auto simp: parseToken_def)
        qed
      qed
    next
      case (Parsed x)
      then have "length ts1 < length tokens" using Pair u[of "[''`'']" "tl tokens"]
        by (auto simp: parseField_def consume_def split: list.splits if_splits prod.splits option.splits)
      then show ?thesis using assms Pair Parsed by (simp add: parseToken_def)
    next
      case (Failed e)
      then show ?thesis using assms Pair by (simp add: parseToken_def)
    qed
  qed
qed

text \<open>The \<open>while(tokens.length)\<close> loop of \<open>parseLine\<close>.\<close>

function parseChunks :: "nat \<Rightarrow> string list \<Rightarrow> token list \<Rightarrow> error + token list" where
  "parseChunks tokensLength tokens acc =
     (if tokens = [] then Inr acc
      else case parseToken tokens (tokensLength - length tokens + 1) of
             (NoMatch, rest) \<Rightarrow> Inl (ParseError ''Unrecognized token sequence.'')
           | (Failed e, rest) \<Rightarrow> Inl e
           | (Parsed tok, rest) \<Rightarrow> parseChunks tokensLength rest (acc @ [tok]))"
  by pat_completeness auto
termination
  by (relation "measure (\<lambda>(n, tokens, acc). length tokens)")
    (auto dest: parseToken_shorter[OF sym])

text \<open>What \<open>parseLine\<close> returns: \<open>undefined\<close> for a line without chunks, an error value,
  or the line.\<close>

datatype lineResult = NoLine | LineError error | LineOk token

definition parseLine :: "string list \<Rightarrow> nat \<Rightarrow> lineResult" where
  "parseLine tokens lineIx =
     (case consumeWhile ['' '', [CHR 0x09]] tokens of (padding, rest) \<Rightarrow>
        (case parseChunks (length tokens) rest [] of
           Inl e \<Rightarrow> LineError e
         | Inr cs \<Rightarrow>
             if cs \<noteq> [] then
               LineOk (Line KUntyped (Some lineIx) (Some (length padding)) cs None None [] None None)
             else NoLine))"

section \<open>Structural classification of a Query line\<close>

text \<open>What JavaScript takes for true among the strings and \<open>undefined\<close>; and the property
  key that a possibly undefined string is read as.\<close>

definition truthy :: "string option \<Rightarrow> bool" where
  "truthy s = (s \<noteq> None \<and> s \<noteq> Some [])"

definition js_key :: "string option \<Rightarrow> string" where
  "js_key s = (case s of None \<Rightarrow> ''undefined'' | Some k \<Rightarrow> k)"

definition quote :: string where
  "quote = [CHR 0x27]"

fun set_kind :: "kind \<Rightarrow> token \<Rightarrow> token" where
  "set_kind k (Line _ li ind cs neg a ds lt pix) = Line k li ind cs neg a ds lt pix"
| "set_kind k t = t"

text \<open>\<open>token["text"]\<close> of any token.\<close>

fun text_prop :: "token \<Rightarrow> string option" where
  "text_prop (Text _ _ _ t) = Some t"
| "text_prop (Keyword _ t) = Some t"
| "text_prop (Field _ _ _ _) = None"
| "text_prop (Line _ _ _ _ _ _ _ lt _) = lt"

definition processAction :: "token \<Rightarrow> token parsed" where
  "processAction line =
     (case chunks line of
        [] \<Rightarrow> NoMatch
      | kw # _ \<Rightarrow>
          if \<not> tokenIsKeyword kw \<or> t_text kw \<notin> set Q_ACTION_TOKENS then NoMatch
          else if list_ex (\<lambda>token. tokenIsField token \<and> \<not> truthy (t_alias token)) (chunks line)
          then Failed (ParseError ''All action fields must be aliased to a query field.'')
          else Parsed (set_kind KAction line))"

text \<open>
  The loop of \<open>processCalculation\<close> over \<open>line.chunks.slice(4)\<close>. The stack of open
  parts is its top \<open>cur\<close> and the parts below; a part is its chunks and its \<open>partIx\<close>.
  The source returns as soon as a pop empties the stack, so the stack has a top at the
  start of every round.
\<close>

definition calculationPart :: "nat option \<Rightarrow> token list \<times> nat \<Rightarrow> token" where
  "calculationPart li p = Line KSource li None (fst p) None None [] None (Some (snd p))"

fun calculationLoop ::
  "string option \<Rightarrow> nat option \<Rightarrow> token list \<Rightarrow> token list \<times> nat \<Rightarrow> (token list \<times> nat) list \<Rightarrow>
   nat \<Rightarrow> token list \<Rightarrow> error + ((token list \<times> nat) \<times> (token list \<times> nat) list \<times> token list)" where
  "calculationLoop resultAlias li [] cur below next lines = Inr (cur, below, lines)"
| "calculationLoop resultAlias li (token # rest) cur below next lines =
     (if tokenIsKeyword token \<and> t_text token = ''('' then
        calculationLoop resultAlias li rest ([], next) (cur # below) (Suc next) lines
      else if tokenIsKeyword token \<and> t_text token = '')'' then
        (case below of
           [] \<Rightarrow> Inl (ParseError ''Too many close parens'')
         | prev # below' \<Rightarrow>
             (let fld = Field None False
                          (Some (''_'' @ js_key resultAlias @ ''-'' @ show_nat (snd cur))) None
              in calculationLoop resultAlias li rest (fst prev @ [fld], snd prev) below' next
                   (lines @ [calculationPart li
                               (fst cur @ [Text None None None '' = '', fld], snd cur)])))
      else calculationLoop resultAlias li rest (fst cur @ [token], snd cur) below next lines)"

text \<open>\<open>processCalculation\<close>. The first statement of the source makes the text of the
  line from its chunks with \<open>tokenToString\<close>.\<close>

definition processCalculation :: "token \<Rightarrow> failure + token parsed" where
  "processCalculation line =
     (if length (chunks line) < 3 \<or> \<not> tokenIsKeyword (chunks line ! 2) \<or>
         t_text (chunks line ! 2) \<noteq> ''$='' then Inr NoMatch
      else if \<not> token_determined line then Inl Unmodelled
      else if \<not> tokenIsField (chunks line ! 0) then
        Inr (Failed (ParseError (''Calculations must be formatted as '' @ quote @
                            ''?field $= <calculation>'')))
      else
        (case calculationLoop (t_alias (chunks line ! 0)) (lineIx_of line) (drop 4 (chunks line))
                ([], 0) [] 1 [] of
           Inl e \<Rightarrow> Inr (Failed e)
         | Inr (cur, below, lines) \<Rightarrow>
             if below \<noteq> [] then Inr (Failed (ParseError ''Too few close parens''))
             else Inr (Parsed (Line KCalculation None None
                    (lines @ [calculationPart (lineIx_of line)
                                (fst cur @ [Text None None None '' = '', chunks line ! 0], snd cur)])
                    None None [] (Some (concat (map tokenToString (chunks line)))) None))))"

text \<open>\<open>trim\<close> and \<open>toLowerCase\<close>, the latter on the letters of ASCII (the only ones that
  can make a text start with \<open>ascending\<close> or \<open>descending\<close>).\<close>

definition is_space :: "char \<Rightarrow> bool" where
  "is_space c = (c \<in> set [CHR 0x09, CHR 0x0A, CHR 0x0B, CHR 0x0C, CHR 0x0D, CHR 0x20, CHR 0xA0])"

definition trim :: "string \<Rightarrow> string" where
  "trim s = rev (dropWhile is_space (rev (dropWhile is_space s)))"

definition toLowerCase :: "string \<Rightarrow> string" where
  "toLowerCase s =
     map (\<lambda>c. case map_of (zip ''ABCDEFGHIJKLMNOPQRSTUVWXYZ'' ''abcdefghijklmnopqrstuvwxyz'') c of
                 None \<Rightarrow> c | Some l \<Rightarrow> l) s"

text \<open>\<open>xs[i] = v\<close> on an array: beyond its end, JavaScript extends the array with holes.\<close>

definition array_set :: "'a option list \<Rightarrow> nat \<Rightarrow> 'a \<Rightarrow> 'a option list" where
  "array_set xs i v =
     (if i < length xs then xs[i := Some v]
      else xs @ replicate (i - length xs) None @ [Some v])"

text \<open>The loop of \<open>processOrdinal\<close> from chunk 3 on: \<open>sortFieldCount\<close> and
  \<open>line.directions\<close>, or the error it returns.\<close>

fun ordinalLoop :: "token list \<Rightarrow> nat \<Rightarrow> string option list \<Rightarrow> error + (nat \<times> string option list)" where
  "ordinalLoop [] sortFieldCount ds = Inr (sortFieldCount, ds)"
| "ordinalLoop (token # rest) sortFieldCount ds =
     (if tokenIsField token then
        (if \<not> truthy (t_alias token)
         then Inl (ParseError ''Ordinal sorting fields must be aliased to a query field.'')
         else ordinalLoop rest (Suc sortFieldCount) ds)
      else if tokenIsText token \<and> 0 < sortFieldCount then
        (if prefix ''ascending'' (toLowerCase (trim (t_text token)))
         then ordinalLoop rest sortFieldCount (array_set ds (sortFieldCount - 1) ''ascending'')
         else if prefix ''descending'' (toLowerCase (trim (t_text token)))
         then ordinalLoop rest sortFieldCount (array_set ds (sortFieldCount - 1) ''descending'')
         else ordinalLoop rest sortFieldCount ds)
      else ordinalLoop rest sortFieldCount ds)"

text \<open>
  \<open>processOrdinal\<close>; its first argument is \<open>this.ast.chunks\<close>, the lines accepted so far.
  Two of its paths read a property of \<open>undefined\<close>: \<open>parseError\<close> is handed
  \<open>chunks[2]\<close> of a line with fewer than three chunks and reads its \<open>lineIx\<close>, and
  \<open>chunks[3]["text"].indexOf\<close> is called on a chunk without \<open>text\<close>.
\<close>

definition processOrdinal :: "token list \<Rightarrow> token \<Rightarrow> failure + token parsed" where
  "processOrdinal astChunks parsedLine =
     (case parsedLine of
        Line k li ind cs neg a ds lt pix \<Rightarrow>
          (case cs of
             [] \<Rightarrow> Inr NoMatch
           | kw # _ \<Rightarrow>
               if \<not> tokenIsKeyword kw \<or> t_text kw \<noteq> ''#'' then Inr NoMatch
               else if astChunks = [] \<or> \<not> tokenIsSource (last astChunks) then
                 Inr (Failed (ParseError ''Ordinal must immediately follow a source.''))
               else if length cs < 3 then Inl TypeError
               else if \<not> tokenIsField (cs ! 2) then
                 Inr (Failed (ParseError (''Ordinal requires a field to bind to ('' @ quote @ ''?'' @
                        quote @ '' or '' @ quote @ ''?foo'' @ quote @ '').'')))
               else if 3 < length cs \<and> text_prop (cs ! 3) = None then Inl TypeError
               else if 3 < length cs \<and> indexOf (the (text_prop (cs ! 3))) ''by'' \<noteq> Some 1 then
                 Inr (Failed (ParseError (''Ordinals are formatted as '' @ quote @
                        ''# ? by ?... <dir>'' @ quote)))
               else
                 (case ordinalLoop (drop 3 cs) 0 [] of
                    Inl e \<Rightarrow> Inr (Failed e)
                  | Inr (sortFieldCount, ds') \<Rightarrow>
                      if sortFieldCount = 0 then
                        Inr (Failed (ParseError ''Ordinal requires at least one sorting field.''))
                      else Inr (Parsed (Line KOrdinal li ind cs neg (t_alias (cs ! 2)) ds' lt pix))))
      | _ \<Rightarrow> Inr NoMatch)"

text \<open>\<open>processSource\<close>; \<open>tokenIsText\<close> cannot read the first chunk of a line without
  chunks.\<close>

definition processSource :: "token \<Rightarrow> failure + token" where
  "processSource line =
     (case line of
        Line k li ind cs neg a ds lt pix \<Rightarrow>
          (case cs of
             [] \<Rightarrow> Inl TypeError
           | kw # _ \<Rightarrow>
               Inr (Line KSource li ind cs
                      (if tokenIsText kw \<and> t_text kw = ''!'' then Some True else neg) a ds lt pix))
      | _ \<Rightarrow> Inl TypeError)"

text \<open>\<open>processAction(parsed) || processCalculation(parsed) || processOrdinal(parsed) ||
  processSource(parsed)\<close>: an error value is true and ends the chain.\<close>

definition classifyLine :: "token list \<Rightarrow> token \<Rightarrow> failure + (error + token)" where
  "classifyLine astChunks parsed =
     (case processAction parsed of
        Failed err \<Rightarrow> Inr (Inl err)
      | Parsed l \<Rightarrow> Inr (Inr l)
      | NoMatch \<Rightarrow>
          (case processCalculation parsed of
             Inl f \<Rightarrow> Inl f
           | Inr (Failed err) \<Rightarrow> Inr (Inl err)
           | Inr (Parsed l) \<Rightarrow> Inr (Inr l)
           | Inr NoMatch \<Rightarrow>
               (case processOrdinal astChunks parsed of
                  Inl f \<Rightarrow> Inl f
                | Inr (Failed err) \<Rightarrow> Inr (Inl err)
                | Inr (Parsed l) \<Rightarrow> Inr (Inr l)
                | Inr NoMatch \<Rightarrow>
                    (case processSource parsed of Inl f \<Rightarrow> Inl f | Inr l \<Rightarrow> Inr (Inr l)))))"

section \<open>The Query IR and the state of a Query\<close>

record fieldIR =
  field :: string
  f_grouped :: bool
  f_alias :: "string option"
  f_value :: "jsval option"

record sortIR =
  ix :: nat
  sort_field :: string
  direction :: string

datatype ordinalRef = OrdinalAlias string | OrdinalTrue

record sourceIR =
  source :: string
  sourceView :: string
  s_fields :: "fieldIR list"
  s_negated :: "bool option"
  chunked :: bool
  s_sort :: "sortIR list option"
  ordinal :: "ordinalRef option"
  s_lineIx :: "nat option"

record variableIR =
  selected :: "string option"
  v_alias :: "string option"
  v_value :: "jsval option"
  ordinals :: "string list option"
  bindings :: "(string \<times> string) list"

text \<open>
  The objects \<open>aliases\<close> and \<open>variables\<close> are association lists in insertion order
  (\<open>map_of\<close> reads, \<open>AList.update\<close> writes in place or appends), which hold the
  properties that the objects have of their own.
\<close>

record queryIR =
  ir_id :: string
  sources :: "sourceIR list"
  aliases :: "(string \<times> string) list"
  variables :: "(string \<times> variableIR) list"
  actions :: "unit list"

text \<open>
  A Query object. \<open>failed\<close> is only ever assigned an IR. The field \<open>lineIx\<close>, read by the
  position of an error only, is left out, as are \<open>name\<close> and \<open>tags\<close>. \<open>errors\<close> is
  \<open>undefined\<close> until \<open>parse\<close> or one of the loading methods has run, which all set it
  before they call \<open>reify\<close>; the empty list stands for \<open>undefined\<close> as well, and the
  properties below are stated for calls of \<open>parse\<close>.
\<close>

record query =
  raw :: "string option"
  ast :: "token option"
  reified :: "queryIR option"
  failed :: "queryIR option"
  errors :: "error list"
  q_id :: "string option"
  prev :: "queryIR option"

definition new_Query :: "queryIR option \<Rightarrow> query" where
  "new_Query initializer =
     \<lparr>raw = None, ast = None, reified = None, failed = None, errors = [], q_id = None,
      prev = initializer\<rparr>"

text \<open>
  What the parser reads of the fact store, and the generator of fresh identifiers; both
  belong to the module \<open>Api\<close>, which is not part of the sources at hand, and are
  parameters. \<open>view_fingerprint\<close> is the view of the row that \<open>findOne("view
  fingerprint", ..)\<close> finds for a fingerprint, \<open>fingerprint_fields\<close> the field ids of
  the rows of \<open>"fingerprint field"\<close> for it in the order of their \<open>ix\<close>, and \<open>uuid n\<close>
  the result of the \<open>n\<close>-th call of \<open>Api.uuid()\<close>; the number of calls made so far is
  threaded through the functions that call it.
\<close>

record env =
  view_fingerprint :: "string \<Rightarrow> string option"
  fingerprint_fields :: "string \<Rightarrow> string list"
  uuid :: "nat \<Rightarrow> string"

section \<open>Reification of a Query\<close>

text \<open>
  \<open>getVariable\<close>. The source returns the variable object, which its callers then
  mutate; the model returns the id under which the variable stands in \<open>ast.variables\<close>,
  the changed IR and the number of identifiers drawn. The alias is a key of
  \<open>ast.aliases\<close> and the id of the variable a key of \<open>ast.variables\<close>.
\<close>

definition getVariable ::
  "env \<Rightarrow> string option \<Rightarrow> queryIR \<Rightarrow> string option \<Rightarrow> string option \<Rightarrow> nat \<Rightarrow>
   failure + (string \<times> queryIR \<times> nat)" where
  "getVariable e al ir varId0 fieldId n =
     (if js_key al \<in> set Object_prototype then Inl Unmodelled
      else
        (let (varId, n1) =
               (if truthy varId0 then (the varId0, n)
                else if truthy (map_of (aliases ir) (js_key al))
                then (the (map_of (aliases ir) (js_key al)), n)
                else (uuid e n, Suc n))
         in if varId \<in> set Object_prototype then Inl Unmodelled
            else
              (let v = (case map_of (variables ir) varId of
                          Some v \<Rightarrow> v
                        | None \<Rightarrow> \<lparr>selected = fieldId, v_alias = al, v_value = None,
                                    ordinals = None, bindings = []\<rparr>);
                   (v', n2) =
                     (if \<not> truthy (selected v) \<and> truthy al \<and> hd (the al) \<noteq> CHR ''_''
                      then (v\<lparr>selected := Some (uuid e n1)\<rparr>, Suc n1) else (v, n1))
               in Inr (varId,
                       ir\<lparr>variables := AList.update varId v' (variables ir),
                          aliases := (if truthy al then AList.update (the al) varId (aliases ir)
                                      else aliases ir)\<rparr>,
                       n2))))"

text \<open>
  \<open>varId = prev && prev.aliases[alias]\<close> together with the last argument that
  \<open>reify\<close> passes to \<open>getVariable\<close>, \<open>varId && prev.variables[varId].selected\<close>, which
  reads a property of \<open>undefined\<close> when \<open>prev\<close> has the alias but not its variable.
\<close>

definition prevVariable ::
  "queryIR option \<Rightarrow> string option \<Rightarrow> failure + (string option \<times> string option)" where
  "prevVariable prevIR al =
     (case prevIR of
        None \<Rightarrow> Inr (None, None)
      | Some p \<Rightarrow>
          if js_key al \<in> set Object_prototype then Inl Unmodelled
          else
            (let varId = map_of (aliases p) (js_key al)
             in if \<not> truthy varId then Inr (varId, varId)
                else if the varId \<in> set Object_prototype then Inl Unmodelled
                else case map_of (variables p) (the varId) of
                       None \<Rightarrow> Inl TypeError
                     | Some v \<Rightarrow> Inr (varId, selected v)))"

text \<open>
  The loop over the chunks of a source line. It returns the error of a field without a
  mapping, if there is one (the source then leaves \<open>LINE_LOOP\<close>), the source and the IR.
  The argument \<open>rw\<close> of this function and of those that follow is \<open>this.raw\<close>.
\<close>

fun reifyFields ::
  "env \<Rightarrow> string option \<Rightarrow> queryIR option \<Rightarrow> string \<Rightarrow> token list \<Rightarrow> string list \<Rightarrow> sourceIR \<Rightarrow>
   queryIR \<Rightarrow> nat \<Rightarrow> failure + (error option \<times> sourceIR \<times> queryIR \<times> nat)" where
  "reifyFields e rw prevIR fp [] fieldIxes src ir n = Inr (None, src, ir, n)"
| "reifyFields e rw prevIR fp (token # rest) fieldIxes src ir n =
     (if \<not> tokenIsField token then reifyFields e rw prevIR fp rest fieldIxes src ir n
      else if fieldIxes = [] \<or> hd fieldIxes = [] then
        (case parseError rw (''Fingerprint '' @ quote @ fp @ quote @ '' is missing for field.'') of
           Inl f \<Rightarrow> Inl f
         | Inr err \<Rightarrow> Inr (Some err, src, ir, n))
      else
        (case prevVariable prevIR (t_alias token) of
           Inl f \<Rightarrow> Inl f
         | Inr (varId, fieldId) \<Rightarrow>
             (case getVariable e (t_alias token) ir varId fieldId n of
                Inl f \<Rightarrow> Inl f
              | Inr (vid, ir1, n1) \<Rightarrow>
                  reifyFields e rw prevIR fp rest (tl fieldIxes)
                    (src\<lparr>s_fields := s_fields src @
                           [\<lparr>field = hd fieldIxes, f_grouped = grouped token,
                             f_alias = t_alias token, f_value = fvalue token\<rparr>],
                         chunked := (grouped token \<or> chunked src)\<rparr>)
                    (ir1\<lparr>variables :=
                           AList.map_entry vid
                             (\<lambda>v. v\<lparr>v_value := (if fvalue token \<noteq> None then fvalue token
                                                 else v_value v),
                                     bindings := bindings v @ [(source src, hd fieldIxes)]\<rparr>)
                             (variables ir1)\<rparr>)
                    n1)))"

definition nth_opt :: "'a list \<Rightarrow> nat \<Rightarrow> 'a option" where
  "nth_opt xs i = (if i < length xs then Some (xs ! i) else None)"

definition reifySource ::
  "env \<Rightarrow> string option \<Rightarrow> queryIR option \<Rightarrow> token \<Rightarrow> queryIR \<Rightarrow> error list \<Rightarrow> nat \<Rightarrow>
   failure + (bool \<times> queryIR \<times> error list \<times> nat)" where
  "reifySource e rw prevIR line ir errs n =
     (case fingerprintSource line of
        Inl f \<Rightarrow> Inl f
      | Inr fp \<Rightarrow>
          if \<not> truthy (view_fingerprint e fp) then
            (case parseError rw (''Fingerprint '' @ quote @ fp @ quote @
                                 '' matches no known views.'') of
               Inl f \<Rightarrow> Inl f
             | Inr err \<Rightarrow> Inr (False, ir, errs @ [err], n))
          else
            (let view = the (view_fingerprint e fp);
                 prevSource = (case prevIR of None \<Rightarrow> None
                               | Some p \<Rightarrow> nth_opt (sources p) (length (sources ir)));
                 sourceId = (case prevSource of
                               Some ps \<Rightarrow> if sourceView ps = view then source ps else uuid e n
                             | None \<Rightarrow> uuid e n)
             in case reifyFields e rw prevIR fp (chunks line) (fingerprint_fields e fp)
                       \<lparr>source = sourceId, sourceView = view, s_fields = [],
                        s_negated = negated line, chunked = False, s_sort = None,
                        ordinal = None, s_lineIx = lineIx_of line\<rparr> ir (Suc n) of
                  Inl f \<Rightarrow> Inl f
                | Inr (Some err, src, ir1, n1) \<Rightarrow> Inr (True, ir1, errs @ [err], n1)
                | Inr (None, src, ir1, n1) \<Rightarrow>
                    Inr (False, ir1\<lparr>sources := sources ir1 @ [src]\<rparr>, errs, n1)))"

text \<open>\<open>line.directions[i] || "ascending"\<close>, and \<open>unsorted.splice(unsorted.indexOf(x), 1)\<close>,
  which removes the last element when \<open>x\<close> is not in the array (\<open>indexOf\<close> is \<open>-1\<close>).\<close>

definition direction_at :: "string option list \<Rightarrow> nat \<Rightarrow> string" where
  "direction_at ds i =
     (case nth_opt ds i of
        Some (Some d) \<Rightarrow> if d \<noteq> [] then d else ''ascending''
      | _ \<Rightarrow> ''ascending'')"

definition splice_indexOf :: "string \<Rightarrow> string list \<Rightarrow> string list" where
  "splice_indexOf x xs = (if x \<in> set xs then remove1 x xs else butlast xs)"

text \<open>The loop of the ordinal branch over the chunks from 3 on: \<open>source.sort\<close>,
  \<open>sortFieldIx\<close>, \<open>unsorted\<close> and the errors.\<close>

fun ordinalSort ::
  "string option \<Rightarrow> fieldIR list \<Rightarrow> string option list \<Rightarrow> token list \<Rightarrow> sortIR list \<Rightarrow> nat \<Rightarrow>
   string list \<Rightarrow> error list \<Rightarrow> failure + (sortIR list \<times> nat \<times> string list \<times> error list)" where
  "ordinalSort rw flds ds [] srt sortFieldIx unsorted errs =
     Inr (srt, sortFieldIx, unsorted, errs)"
| "ordinalSort rw flds ds (chunk # rest) srt sortFieldIx unsorted errs =
     (if \<not> tokenIsField chunk then ordinalSort rw flds ds rest srt sortFieldIx unsorted errs
      else case find (\<lambda>f. f_alias f = t_alias chunk) flds of
             Some f \<Rightarrow>
               ordinalSort rw flds ds rest
                 (srt @ [\<lparr>ix = sortFieldIx, sort_field = field f,
                          direction = direction_at ds sortFieldIx\<rparr>])
                 (Suc sortFieldIx) (splice_indexOf (field f) unsorted) errs
           | None \<Rightarrow>
               (case parseError rw (''Ordinal alias '' @ quote @ js_key (t_alias chunk) @ quote @
                       '' does not match any aliased fields of the ordinated source.'') of
                  Inl f \<Rightarrow> Inl f
                | Inr err \<Rightarrow>
                    ordinalSort rw flds ds rest srt sortFieldIx unsorted (errs @ [err])))"

definition reifyOrdinal ::
  "env \<Rightarrow> string option \<Rightarrow> queryIR option \<Rightarrow> token \<Rightarrow> queryIR \<Rightarrow> error list \<Rightarrow> nat \<Rightarrow>
   failure + (bool \<times> queryIR \<times> error list \<times> nat)" where
  "reifyOrdinal e rw prevIR line ir errs n =
     (if sources ir = [] then
        (case parseError rw ''Ordinals must follow a valid source.'' of
           Inl f \<Rightarrow> Inl f
         | Inr err \<Rightarrow> Inr (False, ir, errs @ [err], n))
      else
        (case prevVariable prevIR (t_alias line) of
           Inl f \<Rightarrow> Inl f
         | Inr (varId, fieldId) \<Rightarrow>
             (case getVariable e (t_alias line) ir varId fieldId n of
                Inl f \<Rightarrow> Inl f
              | Inr (vid, ir1, n1) \<Rightarrow>
                  (let src = last (sources ir);
                       ir2 = ir1\<lparr>variables :=
                               AList.map_entry vid
                                 (\<lambda>v. v\<lparr>ordinals :=
                                           (case ordinals v of
                                              None \<Rightarrow> Some [source src]
                                            | Some os \<Rightarrow> Some (os @ [source src]))\<rparr>)
                                 (variables ir1)\<rparr>
                   in case ordinalSort rw (s_fields src) (directions line) (drop 3 (chunks line))
                             [] 0 (map field (s_fields src)) errs of
                        Inl f \<Rightarrow> Inl f
                      | Inr (srt, sortFieldIx, unsorted, errs1) \<Rightarrow>
                          Inr (False,
                               ir2\<lparr>sources := butlast (sources ir2) @
                                      [src\<lparr>ordinal :=
                                             Some (if truthy (t_alias line)
                                                   then OrdinalAlias (the (t_alias line))
                                                   else OrdinalTrue),
                                           s_sort :=
                                             Some (srt @
                                               map (\<lambda>(i, fieldId).
                                                      \<lparr>ix = i, sort_field = fieldId,
                                                       direction = ''ascending''\<rparr>)
                                                 (zip [sortFieldIx ..< sortFieldIx + length unsorted]
                                                    unsorted))\<rparr>]\<rparr>,
                               errs1, n1)))))"

definition reifyLine ::
  "env \<Rightarrow> string option \<Rightarrow> queryIR option \<Rightarrow> token \<Rightarrow> queryIR \<Rightarrow> error list \<Rightarrow> nat \<Rightarrow>
   failure + (bool \<times> queryIR \<times> error list \<times> nat)" where
  "reifyLine e rw prevIR line ir errs n =
     (if tokenIsSource line then reifySource e rw prevIR line ir errs n
      else if tokenIsOrdinal line then reifyOrdinal e rw prevIR line ir errs n
      else if tokenIsAction line then
        (case parseError rw ''@TODO: Add support for reifying actions'' of
           Inl f \<Rightarrow> Inl f
         | Inr err \<Rightarrow> Inr (False, ir, errs @ [err], n))
      else Inr (False, ir, errs, n))"

text \<open>\<open>LINE_LOOP\<close>; the flag that a line returns is that of \<open>break LINE_LOOP\<close>.\<close>

fun reifyLines ::
  "env \<Rightarrow> string option \<Rightarrow> queryIR option \<Rightarrow> token list \<Rightarrow> queryIR \<Rightarrow> error list \<Rightarrow> nat \<Rightarrow>
   failure + (queryIR \<times> error list \<times> nat)" where
  "reifyLines e rw prevIR [] ir errs n = Inr (ir, errs, n)"
| "reifyLines e rw prevIR (line # rest) ir errs n =
     (case reifyLine e rw prevIR line ir errs n of
        Inl f \<Rightarrow> Inl f
      | Inr (stop, ir1, errs1, n1) \<Rightarrow>
          if stop then Inr (ir1, errs1, n1) else reifyLines e rw prevIR rest ir1 errs1 n1)"

text \<open>
  The first statements of \<open>Query.reify\<close> and its loop, for the AST \<open>a\<close>: the previous IR
  that the pass works from, and the pass itself, which gives the IR that \<open>this.reified\<close>
  holds when the loop ends, \<open>this.errors\<close> and the number of identifiers drawn.
\<close>

definition Query_prev :: "query \<Rightarrow> queryIR option" where
  "Query_prev q = (if reified q \<noteq> None then reified q else prev q)"

definition Query_pass ::
  "env \<Rightarrow> query \<Rightarrow> token \<Rightarrow> nat \<Rightarrow> failure + (queryIR \<times> error list \<times> nat)" where
  "Query_pass e q a n =
     (let (rid, n1) = (case Query_prev q of
                         Some p \<Rightarrow> if ir_id p \<noteq> [] then (ir_id p, n) else (uuid e n, Suc n)
                       | None \<Rightarrow> (uuid e n, Suc n))
      in reifyLines e (raw q) (Query_prev q)
           (concat (map (\<lambda>line. if tokenIsCalculation line then chunks line else [line])
                      (chunks a)))
           \<lparr>ir_id = rid, sources = [], aliases = [], variables = [], actions = []\<rparr>
           (errors q) n1)"

text \<open>\<open>Query.reify\<close>, on the Query and the number of identifiers drawn so far. Its last
  statement keeps the IR of the pass in \<open>reified\<close>, or moves it to \<open>failed\<close>.\<close>

definition Query_reify :: "env \<Rightarrow> query \<Rightarrow> nat \<Rightarrow> failure + (query \<times> nat)" where
  "Query_reify e q n =
     (case ast q of
        None \<Rightarrow> Inr (q, n)
      | Some a \<Rightarrow>
          (case Query_pass e q a n of
             Inl f \<Rightarrow> Inl f
           | Inr (ir, errs, n2) \<Rightarrow>
               if errs \<noteq> [] then
                 Inr (q\<lparr>prev := Query_prev q, reified := None, failed := Some ir,
                        errors := errs\<rparr>, n2)
               else
                 Inr (q\<lparr>prev := Query_prev q, reified := Some ir, errors := errs,
                        q_id := Some (ir_id ir)\<rparr>, n2)))"

section \<open>Parsing a Query\<close>

text \<open>\<open>raw.split("\n")\<close>.\<close>

fun split_lines :: "string \<Rightarrow> string list" where
  "split_lines [] = [[]]"
| "split_lines (c # cs) =
     (if c = CHR 0x0A then [] # split_lines cs
      else case split_lines cs of l # ls \<Rightarrow> (c # l) # ls | [] \<Rightarrow> [[c]])"

text \<open>
  The body of the loop of \<open>Query.parse\<close> over the lines, on \<open>this.ast.chunks\<close> and
  \<open>this.errors\<close>. A line for which \<open>parseLine\<close> returns \<open>undefined\<close> is not an error
  value, and the source goes on to read \<open>parsed.chunks[0]\<close> of it.
\<close>

definition parseQueryLine ::
  "token list \<Rightarrow> error list \<Rightarrow> nat \<Rightarrow> string \<Rightarrow> failure + (token list \<times> error list)" where
  "parseQueryLine astChunks errs lineIx line =
     (case makeTokenizer Q_TOKENS line of
        None \<Rightarrow> Inl NoReturn
      | Some tokens \<Rightarrow>
          if tokens = [] then Inr (astChunks @ [Text None (Some lineIx) None []], errs)
          else
            (case parseLine tokens lineIx of
               LineError err \<Rightarrow> Inr (astChunks, errs @ [err])
             | NoLine \<Rightarrow> Inl TypeError
             | LineOk parsed \<Rightarrow>
                 (case parsed of
                    Line k li ind cs neg a ds lt pix \<Rightarrow>
                      (case cs of
                         [] \<Rightarrow> Inl TypeError
                       | kw # _ \<Rightarrow>
                           if tokenIsKeyword kw \<and> t_text kw = '';'' then
                             (if \<not> token_determined parsed then Inl Unmodelled
                              else Inr (astChunks @
                                     [Line KComment li ind cs neg a ds (Some (tokenToString parsed))
                                        pix],
                                   errs))
                           else
                             (case classifyLine astChunks parsed of
                                Inl f \<Rightarrow> Inl f
                              | Inr (Inl err) \<Rightarrow> Inr (astChunks, errs @ [err])
                              | Inr (Inr l) \<Rightarrow> Inr (astChunks @ [l], errs)))
                  | _ \<Rightarrow> Inl TypeError)))"

fun parseQueryLines ::
  "token list \<Rightarrow> error list \<Rightarrow> nat \<Rightarrow> string list \<Rightarrow> failure + (token list \<times> error list)" where
  "parseQueryLines astChunks errs lineIx [] = Inr (astChunks, errs)"
| "parseQueryLines astChunks errs lineIx (line # rest) =
     (case parseQueryLine astChunks errs lineIx line of
        Inl f \<Rightarrow> Inl f
      | Inr (astChunks1, errs1) \<Rightarrow> parseQueryLines astChunks1 errs1 (Suc lineIx) rest)"

text \<open>\<open>Query.parse\<close>. It returns \<open>this\<close> on every path that returns; the result is the
  Query after the call.\<close>

definition Query_parse :: "env \<Rightarrow> query \<Rightarrow> string \<Rightarrow> nat \<Rightarrow> failure + (query \<times> nat)" where
  "Query_parse e q text n =
     (if raw q = Some text then Inr (q, n)
      else case parseQueryLines [] [] 0 (split_lines text) of
             Inl f \<Rightarrow> Inl f
           | Inr (astChunks, errs) \<Rightarrow>
               (let q1 = q\<lparr>errors := errs, raw := Some text,
                           ast := Some (Line KQuery None None astChunks None None [] None None),
                           prev := (if reified q \<noteq> None then reified q else prev q),
                           reified := None\<rparr>
                in if errs = [] then Query_reify e q1 n else Inr (q1, n)))"

section \<open>The Ui language\<close>

definition U_TOKENS :: "string list" where
  "U_TOKENS = ['';'', '':'', ''@'', ''~'', ''-'', '' '', [CHR 0x09], ''`'', ''?'']"

text \<open>
  The lines of a Ui AST, each with its \<open>lineIx\<close> and its \<open>indent\<close> first: the empty text
  of a blank line, a comment with its text, an attribute with \<open>property\<close> and \<open>value\<close> (a
  field token), a binding with its text, an event with \<open>event\<close> and \<open>key\<close>, and an element
  with \<open>tag\<close>, \<open>classes\<close> and \<open>name\<close>. The flag \<open>static\<close> of an attribute is not
  kept: \<open>parse\<close> sets it to \<open>value.value !== undefined\<close>, and that is what the model
  tests in its place.
\<close>

datatype uiLine =
    UiText nat nat
  | UiComment nat nat string
  | UiAttribute nat nat string token
  | UiBinding nat nat string
  | UiEvent nat nat string "token option"
  | UiElement nat nat string string "string option"

fun ui_indent :: "uiLine \<Rightarrow> nat" where
  "ui_indent (UiText li ind) = ind"
| "ui_indent (UiComment li ind t) = ind"
| "ui_indent (UiAttribute li ind p v) = ind"
| "ui_indent (UiBinding li ind t) = ind"
| "ui_indent (UiEvent li ind ev k) = ind"
| "ui_indent (UiElement li ind tg cl nm) = ind"

definition whitespace :: "string list" where
  "whitespace = ['' '', [CHR 0x09]]"

text \<open>The attribute branch of \<open>Ui.parse\<close>, on the tokens after the \<open>-\<close>: the line, or the
  error that is pushed before \<open>continue\<close>.\<close>

definition parseUiAttribute :: "nat \<Rightarrow> nat \<Rightarrow> nat \<Rightarrow> string list \<Rightarrow> error + uiLine" where
  "parseUiAttribute lineIx ind tokensLength tokens =
     (case consumeUntil ['':''] (snd (consumeWhile whitespace tokens)) of
        (property, tokens1) \<Rightarrow>
          if tokens1 = [] then
            Inl (ParseError (''Attributes are formatted as '' @ quote @
                   ''- <property>: <value or field>'' @ quote @ ''.''))
          else
            (case snd (consumeWhile whitespace (tl tokens1)) of tokens2 \<Rightarrow>
               (case parseField tokens2 (tokensLength - length tokens2) of
                  (NoMatch, rest) \<Rightarrow>
                    Inl (ParseError (''Value of attribute must be a field (either '' @ quote @
                           '' ?foo '' @ quote @ '' or '' @ quote @ '' `100` '' @ quote @ '')''))
                | (Failed err, rest) \<Rightarrow> Inl err
                | (Parsed fld, rest) \<Rightarrow>
                    if rest \<noteq> [] then Inl (ParseError ''Extraneous tokens after value.'')
                    else Inr (UiAttribute lineIx ind property fld))))"

text \<open>The event branch.\<close>

definition parseUiEvent :: "nat \<Rightarrow> nat \<Rightarrow> nat \<Rightarrow> string list \<Rightarrow> error + uiLine" where
  "parseUiEvent lineIx ind tokensLength tokens =
     (case consumeUntil ['':''] (snd (consumeWhile whitespace tokens)) of
        (ev, tokens1) \<Rightarrow>
          (case snd (consumeWhile whitespace (tl tokens1)) of tokens2 \<Rightarrow>
             if tokens2 = [] then Inr (UiEvent lineIx ind ev None)
             else
               (case parseField tokens2 (tokensLength - length tokens2) of
                  (NoMatch, rest) \<Rightarrow>
                    Inl (ParseError (''Value of attribute must be a field (either '' @ quote @
                           '' ?foo '' @ quote @ '' or '' @ quote @ '' `100` '' @ quote @ '')''))
                | (Failed err, rest) \<Rightarrow> Inl err
                | (Parsed fld, rest) \<Rightarrow>
                    if \<not> truthy (t_alias fld) then
                      Inl (ParseError ''Event keys must be aliased to a bound field.'')
                    else if rest \<noteq> [] then Inl (ParseError ''Extraneous tokens after value.'')
                    else Inr (UiEvent lineIx ind ev (Some fld)))))"

text \<open>The element branch, on the head token and the tokens after it.\<close>

definition parseUiElement :: "nat \<Rightarrow> nat \<Rightarrow> string \<Rightarrow> string list \<Rightarrow> uiLine" where
  "parseUiElement lineIx ind head tokens =
     (case consumeUntil ['';''] tokens of
        (classes, tokens1) \<Rightarrow>
          (case (if tokens1 \<noteq> [] \<and> hd tokens1 = '';'' then tl tokens1 else tokens1) of
             tokens2 \<Rightarrow>
               UiElement lineIx ind head classes
                 (if tokens2 \<noteq> [] then Some (trim (concat tokens2)) else None)))"

fun uiIsElement :: "uiLine \<Rightarrow> bool" where
  "uiIsElement (UiElement li ind tg cl nm) = True"
| "uiIsElement _ = False"

text \<open>
  The body of the loop of \<open>Ui.parse\<close> over the lines, on \<open>this.ast.chunks\<close> and
  \<open>this.errors\<close>. A binding line after a binding line is added to the text of that
  line.
\<close>

definition parseUiLine ::
  "uiLine list \<Rightarrow> error list \<Rightarrow> nat \<Rightarrow> string \<Rightarrow> failure + (uiLine list \<times> error list)" where
  "parseUiLine astChunks errs lineIx rawLine =
     (case makeTokenizer U_TOKENS rawLine of
        None \<Rightarrow> Inl NoReturn
      | Some tokens0 \<Rightarrow>
          (case snd (consumeWhile whitespace tokens0) of
             [] \<Rightarrow> Inr (astChunks @ [UiText lineIx (length tokens0)], errs)
           | head # tokens \<Rightarrow>
               (let ind = length tokens0 - Suc (length tokens) in
                if head = '';'' then Inr (astChunks @ [UiComment lineIx ind (concat tokens)], errs)
                else if head = ''-'' then
                  (case parseUiAttribute lineIx ind (length tokens0) tokens of
                     Inl err \<Rightarrow> Inr (astChunks, errs @ [err])
                   | Inr line \<Rightarrow> Inr (astChunks @ [line], errs))
                else if head = ''~'' then
                  (if astChunks = [] \<or> uiIsElement (last astChunks) then
                     Inr (astChunks @
                            [UiBinding lineIx ind (concat (snd (consumeWhile whitespace tokens)))],
                          errs)
                   else
                     (case last astChunks of
                        UiBinding pli pind ptext \<Rightarrow>
                          Inr (butlast astChunks @
                                 [UiBinding pli pind
                                    (ptext @ [CHR 0x0A] @
                                     concat (snd (consumeWhile whitespace tokens)))],
                               errs)
                      | _ \<Rightarrow>
                          Inr (astChunks,
                               errs @ [ParseError
                                 ''Binding must immediately follow an element or a binding.''])))
                else if head = ''@'' then
                  (case parseUiEvent lineIx ind (length tokens0) tokens of
                     Inl err \<Rightarrow> Inr (astChunks, errs @ [err])
                   | Inr line \<Rightarrow> Inr (astChunks @ [line], errs))
                else Inr (astChunks @ [parseUiElement lineIx ind head tokens], errs))))"

fun parseUiLines ::
  "uiLine list \<Rightarrow> error list \<Rightarrow> nat \<Rightarrow> string list \<Rightarrow> failure + (uiLine list \<times> error list)" where
  "parseUiLines astChunks errs lineIx [] = Inr (astChunks, errs)"
| "parseUiLines astChunks errs lineIx (line # rest) =
     (case parseUiLine astChunks errs lineIx line of
        Inl f \<Rightarrow> Inl f
      | Inr (astChunks1, errs1) \<Rightarrow> parseUiLines astChunks1 errs1 (Suc lineIx) rest)"

section \<open>The Ui IR and its reification\<close>

text \<open>
  An element of the IR. A number or a boolean that a literal makes the \<open>element\<close> or the
  \<open>parent\<close> of an element is kept as the string by which JavaScript uses it as a
  property key; \<open>e_ix\<close> is \<open>None\<close> for \<open>NaN\<close>; a bound attribute or event whose alias did
  not resolve holds \<open>undefined\<close>.
\<close>

record elementIR =
  element :: string
  tag :: string
  e_ix :: "nat option"
  e_name :: "string option"
  parent :: "string option"
  attributes :: "(string \<times> jsval) list"
  boundAttributes :: "(string \<times> string option) list"
  events :: "string list"
  boundEvents :: "(string \<times> string option) list"
  boundView :: "string option"
  e_bindings :: "(string \<times> string) list option"

record uiIR =
  elements :: "elementIR list"
  root :: elementIR
  boundQueries :: "(string \<times> query) list"

text \<open>A Ui object; what is said of \<open>errors\<close> of a Query holds for it as well.\<close>

record ui =
  u_raw :: "string option"
  u_ast :: "uiLine list option"
  u_reified :: "uiIR option"
  u_failed :: "uiIR option"
  u_errors :: "error list"
  u_id :: "string option"
  u_prev :: "uiIR option"

definition new_Ui :: "uiIR option \<Rightarrow> ui" where
  "new_Ui initializer =
     \<lparr>u_raw = None, u_ast = None, u_reified = None, u_failed = None, u_errors = [],
      u_id = None, u_prev = initializer\<rparr>"

text \<open>
  The objects that \<open>ancestors\<close> holds are the root and elements of \<open>this.reified\<close>
  themselves, and \<open>reify\<close> changes them through \<open>parentElem\<close>. The model keeps the
  elements in one place and lets \<open>ancestors\<close> refer to them: \<open>Elem i\<close> is the \<open>i\<close>-th
  element made, which \<open>reify\<close> puts on the stack in the round that makes it.
\<close>

datatype ref = Root | Elem nat

text \<open>
  The state of one pass of \<open>Ui.reify\<close>: \<open>this.reified\<close>, the local objects \<open>indent\<close> and
  \<open>childCount\<close> (the properties that they have of their own, by element id; a count is
  \<open>None\<close> when it is \<open>undefined\<close> or \<open>NaN\<close>), \<open>ancestors\<close> with its top first,
  \<open>this.errors\<close>, \<open>this.raw\<close>, which \<open>parseError\<close> reads, and the number of identifiers
  drawn.
\<close>

record uiPass =
  p_elements :: "elementIR list"
  p_root :: elementIR
  p_boundQueries :: "(string \<times> query) list"
  p_indent :: "string \<Rightarrow> int option"
  p_childCount :: "string \<Rightarrow> nat option"
  p_ancestors :: "ref list"
  p_errors :: "error list"
  p_raw :: "string option"
  p_next :: nat

definition deref :: "uiPass \<Rightarrow> ref \<Rightarrow> elementIR" where
  "deref s r = (case r of Root \<Rightarrow> p_root s | Elem i \<Rightarrow> p_elements s ! i)"

definition update_ref :: "ref \<Rightarrow> (elementIR \<Rightarrow> elementIR) \<Rightarrow> uiPass \<Rightarrow> uiPass" where
  "update_ref r f s =
     (case r of
        Root \<Rightarrow> s\<lparr>p_root := f (p_root s)\<rparr>
      | Elem i \<Rightarrow> s\<lparr>p_elements := (p_elements s)[i := f (p_elements s ! i)]\<rparr>)"

text \<open>
  The loop that pops \<open>ancestors\<close> for a line: the stack left and \<open>parentElem\<close>, which is
  the last element the loop looked at, also when it popped it, and \<open>undefined\<close> only when
  the stack was empty. An \<open>undefined\<close> indent is not less than any number.
\<close>

fun popAncestors ::
  "(ref \<Rightarrow> int option) \<Rightarrow> int \<Rightarrow> ref list \<Rightarrow> ref option \<Rightarrow> ref list \<times> ref option" where
  "popAncestors ind lineIndent [] parentElem = ([], parentElem)"
| "popAncestors ind lineIndent (r # rs) parentElem =
     (if (case ind r of Some d \<Rightarrow> d < lineIndent | None \<Rightarrow> False) then (r # rs, Some r)
      else popAncestors ind lineIndent rs (Some r))"

text \<open>\<open>getScopedBinding\<close>, on the ancestors from the innermost outwards.\<close>

fun getScopedBinding ::
  "uiPass \<Rightarrow> string option \<Rightarrow> ref list \<Rightarrow> failure + string option" where
  "getScopedBinding s al [] = Inr None"
| "getScopedBinding s al (r # rs) =
     (if \<not> truthy (boundView (deref s r)) then getScopedBinding s al rs
      else if the (boundView (deref s r)) \<in> set Object_prototype then Inl Unmodelled
      else
        (case map_of (p_boundQueries s) (the (boundView (deref s r))) of
           None \<Rightarrow> Inl TypeError
         | Some scope \<Rightarrow>
             (case reified scope of
                None \<Rightarrow> Inl TypeError
              | Some sir \<Rightarrow>
                  if js_key al \<in> set Object_prototype then Inl Unmodelled
                  else if \<not> truthy (map_of (aliases sir) (js_key al))
                  then getScopedBinding s al rs
                  else if the (map_of (aliases sir) (js_key al)) \<in> set Object_prototype
                  then Inl Unmodelled
                  else
                    (case map_of (variables sir) (the (map_of (aliases sir) (js_key al))) of
                       None \<Rightarrow> Inl TypeError
                     | Some v \<Rightarrow>
                         if \<not> truthy (selected v) then
                           Inl (Thrown (ParseError
                                  ''UI Properties can only be bound to selected aliases.''))
                         else Inr (selected v)))))"

text \<open>The element branch of \<open>Ui.reify\<close>. The identifiers of the element and of its
  parent are keys of \<open>indent\<close> and \<open>childCount\<close>.\<close>

definition reifyElement ::
  "env \<Rightarrow> uiIR option \<Rightarrow> ref option \<Rightarrow> nat \<Rightarrow> string \<Rightarrow> string \<Rightarrow> string option \<Rightarrow> uiPass \<Rightarrow>
   failure + uiPass" where
  "reifyElement e prevIR parentElem ind tg classes nm s =
     (case parentElem of
        None \<Rightarrow> Inl TypeError
      | Some pr \<Rightarrow>
          (let prevElem = (case prevIR of None \<Rightarrow> None
                           | Some p \<Rightarrow> nth_opt (elements p) (length (p_elements s)));
               elemId = (case prevElem of Some pe \<Rightarrow> element pe | None \<Rightarrow> uuid e (p_next s));
               pid = element (deref s pr)
           in if elemId \<in> set Object_prototype \<or> pid \<in> set Object_prototype
              then Inl Unmodelled
              else
              Inr (s\<lparr>p_elements := p_elements s @
                        [\<lparr>element = elemId, tag = tg, e_ix = p_childCount s pid,
                          e_name = (if truthy nm then nm else None), parent = Some pid,
                          attributes = (if classes \<noteq> [] then [(''c'', VStr classes)] else []),
                          boundAttributes = [], events = [], boundEvents = [],
                          boundView = None, e_bindings = None\<rparr>],
                      p_indent := (p_indent s)(elemId := Some (int ind)),
                      p_childCount :=
                        ((p_childCount s)(pid := map_option Suc (p_childCount s pid)))
                          (elemId := Some 0),
                      p_ancestors := Elem (length (p_elements s)) # p_ancestors s,
                      p_next := (if prevElem = None then Suc (p_next s) else p_next s)\<rparr>)))"

text \<open>
  The loop of the binding branch over the aliases of the nested query, in the order of
  their insertion: \<open>joinedFields\<close>, \<open>scopeJoined\<close> and the errors.
\<close>

fun joinScopes ::
  "uiPass \<Rightarrow> queryIR \<Rightarrow> ref list \<Rightarrow> string list \<Rightarrow> (string \<times> string) list \<Rightarrow> bool \<Rightarrow> error list \<Rightarrow>
   failure + ((string \<times> string) list \<times> bool \<times> error list)" where
  "joinScopes s qir outer [] joinedFields scopeJoined errs = Inr (joinedFields, scopeJoined, errs)"
| "joinScopes s qir outer (al # rest) joinedFields scopeJoined errs =
     (case getScopedBinding s (Some al) outer of
        Inl f \<Rightarrow> Inl f
      | Inr scopedField \<Rightarrow>
          (case map_of (variables qir) (js_key (map_of (aliases qir) al)) of
             None \<Rightarrow> Inl TypeError
           | Some v \<Rightarrow>
               if \<not> truthy scopedField then
                 joinScopes s qir outer rest joinedFields scopeJoined errs
               else if \<not> truthy (selected v) then
                 (case parseError (p_raw s)
                         (''Cannot join nested views on unselected alias '' @ quote @ al @
                          quote) of
                    Inl f \<Rightarrow> Inl f
                  | Inr err \<Rightarrow>
                      joinScopes s qir outer rest joinedFields scopeJoined (errs @ [err]))
               else if the (selected v) \<in> set Object_prototype then Inl Unmodelled
               else
                 joinScopes s qir outer rest
                   (AList.update (the (selected v)) (the scopedField) joinedFields) True errs))"

text \<open>
  The binding branch: the nested Query is parsed by a new Query, whose \<open>parse\<close>
  returns it. \<open>for(let alias in ..)\<close> visits the keys that are array indices before the
  others, whatever the order of their insertion: a nested query with such an alias is
  left aside.
\<close>

definition reifyBinding :: "env \<Rightarrow> ref option \<Rightarrow> string \<Rightarrow> uiPass \<Rightarrow> failure + uiPass" where
  "reifyBinding e parentElem t s =
     (case parentElem of
        None \<Rightarrow>
          (case parseError (p_raw s) ''Bindings must follow an element.'' of
             Inl f \<Rightarrow> Inl f
           | Inr err \<Rightarrow> Inr (s\<lparr>p_errors := p_errors s @ [err]\<rparr>))
      | Some pr \<Rightarrow>
          (case Query_parse e (new_Query None) t (p_next s) of
             Inl f \<Rightarrow> Inl f
           | Inr (qry, n1) \<Rightarrow>
               if js_key (q_id qry) \<in> set Object_prototype then Inl Unmodelled
               else
               (let s1 = update_ref pr (\<lambda>el. el\<lparr>boundView := q_id qry\<rparr>)
                           (s\<lparr>p_boundQueries := AList.update (js_key (q_id qry)) qry
                                                   (p_boundQueries s),
                              p_next := n1\<rparr>)
                in case reified qry of
                     None \<Rightarrow> Inl TypeError
                   | Some qir \<Rightarrow>
                       if list_ex (\<lambda>al. al \<noteq> [] \<and> list_all is_digit al) (map fst (aliases qir))
                       then Inl Unmodelled
                       else
                       (case joinScopes s1 qir (tl (p_ancestors s1)) (map fst (aliases qir)) []
                               False (p_errors s1) of
                          Inl f \<Rightarrow> Inl f
                        | Inr (joinedFields, scopeJoined, errs) \<Rightarrow>
                            Inr ((if scopeJoined
                                  then update_ref pr (\<lambda>el. el\<lparr>e_bindings := Some joinedFields\<rparr>) s1
                                  else s1)\<lparr>p_errors := errs\<rparr>)))))"

text \<open>The attribute branch. The property is a key of \<open>attributes\<close> or of
  \<open>boundAttributes\<close>, and a new identifier a key of \<open>indent\<close> and \<open>childCount\<close>.\<close>

definition reifyAttribute :: "ref option \<Rightarrow> string \<Rightarrow> token \<Rightarrow> uiPass \<Rightarrow> failure + uiPass" where
  "reifyAttribute parentElem property fld s =
     (case parentElem of
        None \<Rightarrow>
          (case parseError (p_raw s) ''Attributes must follow an element.'' of
             Inl f \<Rightarrow> Inl f
           | Inr err \<Rightarrow> Inr (s\<lparr>p_errors := p_errors s @ [err]\<rparr>))
      | Some pr \<Rightarrow>
          (case fvalue fld of
             Some v \<Rightarrow>
               if property = ''parent'' then
                 (if \<not> determined v then Inl Unmodelled
                  else Inr (update_ref pr (\<lambda>el. el\<lparr>parent := Some (jsval_string v)\<rparr>) s))
               else if property = ''id'' then
                 (let old = element (deref s pr) in
                  if old \<in> set Object_prototype then Inl Unmodelled
                  else if (case p_childCount s old of Some c \<Rightarrow> 0 < c | None \<Rightarrow> False) then
                    Inl (Thrown (ParseError ''ID must be set prior to including child elements.''))
                  else if \<not> determined v \<or> jsval_string v \<in> set Object_prototype
                  then Inl Unmodelled
                  else
                    Inr (update_ref pr (\<lambda>el. el\<lparr>element := jsval_string v\<rparr>)
                           (s\<lparr>p_indent := (p_indent s)(jsval_string v := p_indent s old),
                              p_childCount :=
                                (p_childCount s)(jsval_string v := p_childCount s old)\<rparr>)))
               else if property \<in> set Object_prototype then Inl Unmodelled
               else
                 Inr (update_ref pr
                        (\<lambda>el. el\<lparr>attributes := AList.update property v (attributes el)\<rparr>) s)
           | None \<Rightarrow>
               if property \<in> set Object_prototype then Inl Unmodelled
               else
               (case getScopedBinding s (t_alias fld) (p_ancestors s) of
                  Inl f \<Rightarrow> Inl f
                | Inr scopedField \<Rightarrow>
                    (let s1 = update_ref pr
                                (\<lambda>el. el\<lparr>boundAttributes :=
                                          AList.update property scopedField (boundAttributes el)\<rparr>)
                                s
                     in if truthy scopedField then Inr s1
                        else
                          (case parseError (p_raw s)
                                  (''Could not resolve alias '' @ quote @ js_key (t_alias fld) @
                                   quote @ '' for bound attribute '' @ quote @ property @ quote) of
                             Inl f \<Rightarrow> Inl f
                           | Inr err \<Rightarrow> Inr (s1\<lparr>p_errors := p_errors s @ [err]\<rparr>))))))"

text \<open>The event branch, which reads \<open>parentElem\<close> without testing it. The event is a key
  of \<open>boundEvents\<close>.\<close>

definition reifyEvent :: "ref option \<Rightarrow> string \<Rightarrow> token option \<Rightarrow> uiPass \<Rightarrow> failure + uiPass" where
  "reifyEvent parentElem ev k s =
     (case parentElem of
        None \<Rightarrow> Inl TypeError
      | Some pr \<Rightarrow>
          (case k of
             None \<Rightarrow> Inr (update_ref pr (\<lambda>el. el\<lparr>events := events el @ [ev]\<rparr>) s)
           | Some fld \<Rightarrow>
               if ev \<in> set Object_prototype then Inl Unmodelled
               else
               (case getScopedBinding s (t_alias fld) (p_ancestors s) of
                  Inl f \<Rightarrow> Inl f
                | Inr scopedField \<Rightarrow>
                    (let s1 = update_ref pr
                                (\<lambda>el. el\<lparr>boundEvents :=
                                          AList.update ev scopedField (boundEvents el)\<rparr>) s
                     in if truthy scopedField then Inr s1
                        else
                          (case parseError (p_raw s)
                                  (''Could not resolve alias '' @ quote @ js_key (t_alias fld) @
                                   quote @ '' for bound event '' @ quote @ ev @ quote) of
                             Inl f \<Rightarrow> Inl f
                           | Inr err \<Rightarrow> Inr (s1\<lparr>p_errors := p_errors s @ [err]\<rparr>))))))"

text \<open>One round of the loop of \<open>Ui.reify\<close> over the lines of the AST.\<close>

definition reifyUiLine :: "env \<Rightarrow> uiIR option \<Rightarrow> uiLine \<Rightarrow> uiPass \<Rightarrow> failure + uiPass" where
  "reifyUiLine e prevIR line s =
     (case line of
        UiText li ind \<Rightarrow> Inr s
      | UiComment li ind t \<Rightarrow> Inr s
      | _ \<Rightarrow>
          (case popAncestors (\<lambda>r. p_indent s (element (deref s r))) (int (ui_indent line))
                  (p_ancestors s) None of
             (ancestors1, parentElem) \<Rightarrow>
               (case line of
                  UiElement li ind tg classes nm \<Rightarrow>
                    reifyElement e prevIR parentElem ind tg classes nm (s\<lparr>p_ancestors := ancestors1\<rparr>)
                | UiBinding li ind t \<Rightarrow> reifyBinding e parentElem t (s\<lparr>p_ancestors := ancestors1\<rparr>)
                | UiAttribute li ind property fld \<Rightarrow>
                    reifyAttribute parentElem property fld (s\<lparr>p_ancestors := ancestors1\<rparr>)
                | UiEvent li ind ev k \<Rightarrow> reifyEvent parentElem ev k (s\<lparr>p_ancestors := ancestors1\<rparr>)
                | _ \<Rightarrow> Inr s)))"

fun reifyUiLines :: "env \<Rightarrow> uiIR option \<Rightarrow> uiLine list \<Rightarrow> uiPass \<Rightarrow> failure + uiPass" where
  "reifyUiLines e prevIR [] s = Inr s"
| "reifyUiLines e prevIR (line # rest) s =
     (case reifyUiLine e prevIR line s of
        Inl f \<Rightarrow> Inl f
      | Inr s1 \<Rightarrow> reifyUiLines e prevIR rest s1)"

text \<open>
  The first statements of \<open>Ui.reify\<close> and its loop, for the lines \<open>ls\<close> of the AST: the
  previous IR, the identifier of the root, which is the first key of \<open>indent\<close> and
  \<open>childCount\<close>, and the state in which the loop ends.
\<close>

definition Ui_prev :: "ui \<Rightarrow> uiIR option" where
  "Ui_prev u = (if u_reified u \<noteq> None then u_reified u else u_prev u)"

definition Ui_rootId :: "env \<Rightarrow> ui \<Rightarrow> nat \<Rightarrow> string" where
  "Ui_rootId e u n = (case Ui_prev u of Some p \<Rightarrow> element (root p) | None \<Rightarrow> uuid e n)"

definition Ui_pass :: "env \<Rightarrow> ui \<Rightarrow> uiLine list \<Rightarrow> nat \<Rightarrow> failure + uiPass" where
  "Ui_pass e u ls n =
     (if Ui_rootId e u n \<in> set Object_prototype then Inl Unmodelled
      else
        reifyUiLines e (Ui_prev u) ls
          \<lparr>p_elements = [],
           p_root = \<lparr>element = Ui_rootId e u n, tag = ''div'', e_ix = Some 0, e_name = None,
                     parent = None, attributes = [], boundAttributes = [],
                     events = [], boundEvents = [], boundView = None,
                     e_bindings = None\<rparr>,
           p_boundQueries = [],
           p_indent = (\<lambda>k. None)(Ui_rootId e u n := Some (- 1)),
           p_childCount = (\<lambda>k. None)(Ui_rootId e u n := Some 0),
           p_ancestors = [Root],
           p_errors = u_errors u,
           p_raw = u_raw u,
           p_next = (if Ui_prev u = None then Suc n else n)\<rparr>)"

text \<open>\<open>Ui.reify\<close>, on the Ui and the number of identifiers drawn so far. Its last
  statement keeps the IR of the pass in \<open>reified\<close>, or moves it to \<open>failed\<close>.\<close>

definition Ui_reify :: "env \<Rightarrow> ui \<Rightarrow> nat \<Rightarrow> failure + (ui \<times> nat)" where
  "Ui_reify e u n =
     (case u_ast u of
        None \<Rightarrow> Inr (u, n)
      | Some ls \<Rightarrow>
          (case Ui_pass e u ls n of
             Inl f \<Rightarrow> Inl f
           | Inr s \<Rightarrow>
               if p_errors s \<noteq> [] then
                 Inr (u\<lparr>u_prev := Ui_prev u, u_reified := None,
                        u_failed := Some \<lparr>elements = p_elements s, root = p_root s,
                                          boundQueries = p_boundQueries s\<rparr>,
                        u_errors := p_errors s\<rparr>, p_next s)
               else
                 Inr (u\<lparr>u_prev := Ui_prev u,
                        u_reified := Some \<lparr>elements = p_elements s, root = p_root s,
                                           boundQueries = p_boundQueries s\<rparr>,
                        u_errors := p_errors s, u_id := Some (Ui_rootId e u n)\<rparr>, p_next s)))"

section \<open>Parsing a Ui\<close>

text \<open>What a call of \<open>parse\<close> returns to its caller.\<close>

datatype returned = This | Undefined

text \<open>\<open>Ui.parse\<close>: the Ui after the call, the value returned and the number of
  identifiers drawn. Only the first statement of the source returns a value.\<close>

definition Ui_parse :: "env \<Rightarrow> ui \<Rightarrow> string \<Rightarrow> nat \<Rightarrow> failure + (ui \<times> returned \<times> nat)" where
  "Ui_parse e u text n =
     (if u_raw u = Some text then Inr (u, This, n)
      else case parseUiLines [] [] 0 (split_lines text) of
             Inl f \<Rightarrow> Inl f
           | Inr (astChunks, errs) \<Rightarrow>
               (let u1 = u\<lparr>u_errors := errs, u_raw := Some text, u_ast := Some astChunks,
                           u_prev := (if u_reified u \<noteq> None then u_reified u else u_prev u),
                           u_reified := None\<rparr>
                in if errs = [] then
                     (case Ui_reify e u1 n of
                        Inl f \<Rightarrow> Inl f
                      | Inr (u2, n2) \<Rightarrow> Inr (u2, Undefined, n2))
                   else Inr (u1, Undefined, n)))"

section \<open>The tree of elements, in the words of the specification\<close>

text \<open>The lines that \<open>Ui.reify\<close> does not skip.\<close>

fun uiSignificant :: "uiLine \<Rightarrow> bool" where
  "uiSignificant (UiText li ind) = False"
| "uiSignificant (UiComment li ind t) = False"
| "uiSignificant _ = True"

text \<open>
  The nearest preceding element that is still open, for an element of indent \<open>m\<close> and the
  lines before it from the nearest to the farthest: the first element whose indent is
  lower than that of every line between (comments and blank lines apart) and lower than
  \<open>m\<close>. It is given by its position among the elements; \<open>None\<close> stands for the root.
\<close>

fun nearest_open :: "nat \<Rightarrow> uiLine list \<Rightarrow> nat option" where
  "nearest_open m [] = None"
| "nearest_open m (l # before) =
     (if \<not> uiSignificant l then nearest_open m before
      else if uiIsElement l \<and> ui_indent l < m then Some (length (filter uiIsElement before))
      else nearest_open (min m (ui_indent l)) before)"





text \<open>
  The nearest preceding element of lower indent, in the words of the specification: the
  lines that are not elements are passed over.
\<close>

fun nearest_lower :: "nat \<Rightarrow> uiLine list \<Rightarrow> nat option" where
  "nearest_lower m [] = None"
| "nearest_lower m (l # before) =
     (if uiIsElement l \<and> ui_indent l < m then Some (length (filter uiIsElement before))
      else nearest_lower m before)"

section \<open>The invariant of the pass over the lines of a Ui\<close>

text \<open>What the tree is read from: the identifiers and parents of the elements and of the
  root, and the indents.\<close>

definition skeleton ::
  "uiPass \<Rightarrow> string list \<times> string option list \<times> string \<times> string option \<times> (string \<Rightarrow> int option)" where
  "skeleton s =
     (map element (p_elements s), map parent (p_elements s), element (p_root s),
      parent (p_root s), p_indent s)"


section \<open>A fact store for the examples\<close>

text \<open>One view \<open>V\<close> with the single field \<open>F\<close> and the fingerprint \<open>foo ?\<close>, a second
  view \<open>N\<close> on the same field with the fingerprint \<open>! foo ?\<close>, and identifiers
  \<open>u0\<close>, \<open>u1\<close>, ...\<close>

definition example_env :: env where
  "example_env =
     \<lparr>view_fingerprint =
        (\<lambda>fp. if fp = ''foo ?'' then Some ''V''
              else if fp = ''! foo ?'' then Some ''N'' else None),
      fingerprint_fields =
        (\<lambda>fp. if fp = ''foo ?'' \<or> fp = ''! foo ?'' then [''F''] else []),
      uuid = (\<lambda>n. ''u'' @ show_nat n)\<rparr>"

text \<open>The Query after parsing \<open>foo ?x\<close> against that store.\<close>

definition example_query :: query where
  "example_query =
     (case Query_parse example_env (new_Query None) ''foo ?x'' 0 of
        Inr (q, n) \<Rightarrow> q
      | Inl f \<Rightarrow> new_Query None)"

text \<open>A Ui text: an element bound to the view \<open>V\<close>, with a bound attribute, and a child
  with a bound event.\<close>

definition example_ui_text :: string where
  "example_ui_text =
     ''div'' @ [CHR 0x0A] @ ''  ~ foo ?x'' @ [CHR 0x0A] @ ''  - text: ?x'' @ [CHR 0x0A] @
     ''  span'' @ [CHR 0x0A] @ ''    @ click: ?x''"

text \<open>A document where an attribute of \<open>div\<close> follows its child \<open>span\<close>, and one
  where an element names itself as its parent.\<close>

definition closing_ui_text :: string where
  "closing_ui_text =
     ''div'' @ [CHR 0x0A] @ ''  span'' @ [CHR 0x0A] @ ''  - title: `t`'' @ [CHR 0x0A] @ ''    p''"


text \<open>The Query after parsing the source line \<open>foo ?x\<close> followed by the line \<open>bar\<close>, for
  which that store has no view.\<close>

definition partial_query :: query where
  "partial_query =
     \<lparr>raw = Some (''foo ?x'' @ [CHR 0x0A] @ ''bar''),
      ast = Some (Line KQuery None None
              [Line KSource (Some 0) (Some 0)
                [Text (Some 1) None None ''foo '', Field (Some 3) False (Some ''x'') None]
                None None [] None None,
               Line KSource (Some 1) (Some 0)
                [Text (Some 1) None None ''bar''] None None [] None None]
              None None [] None None),
      reified = None,
      failed = Some
            \<lparr>ir_id = ''u0'',
               sources =
                 [\<lparr>source = ''u1'', sourceView = ''V'',
                     s_fields =
                       [\<lparr>field = ''F'', f_grouped = False,
                           f_alias = Some ''x'', f_value = None\<rparr>],
                     s_negated = None, chunked = False, s_sort = None,
                     ordinal = None, s_lineIx = Some 0\<rparr>],
               aliases = [(''x'', ''u2'')],
               variables =
                 [(''u2'',
                   \<lparr>selected = Some ''u3'', v_alias = Some ''x'',
                      v_value = None, ordinals = None,
                      bindings = [(''u1'', ''F'')]\<rparr>)],
               actions = []\<rparr>,
      errors = [ParseError (''Fingerprint '' @ quote @ ''bar'' @ quote @
                  '' matches no known views.'')],
      q_id = None, prev = None\<rparr>"

section \<open>Properties of the tokenizer\<close>

lemma indexOf_Some:
  "indexOf str token = Some k \<Longrightarrow> k \<le> length str \<and> prefix token (drop k str)"
proof (induction str arbitrary: k)
  case Nil
  then show ?case by (simp split: if_splits)
next
  case (Cons c cs)
  then show ?case by (auto split: if_splits)
qed

lemma nearest_inv:
  assumes "fst best = length str \<and> snd best = str \<or>
           fst best < length str \<and> snd best \<in> T \<and> prefix (snd best) (drop (fst best) str)"
    and "token \<in> T"
  shows "fst (nearest str best token) = length str \<and> snd (nearest str best token) = str \<or>
         fst (nearest str best token) < length str \<and> snd (nearest str best token) \<in> T \<and>
         prefix (snd (nearest str best token)) (drop (fst (nearest str best token)) str)"
proof (cases "indexOf str token")
  case None
  then show ?thesis using assms(1) by (simp add: nearest_def)
next
  case (Some k)
  show ?thesis
  proof (cases "k < fst best")
    case True
    have "k < length str" using True assms(1) by auto
    then show ?thesis
      using Some True indexOf_Some[OF Some] assms(2) by (simp add: nearest_def)
  next
    case False
    then show ?thesis using Some assms(1) by (simp add: nearest_def)
  qed
qed

lemma foldl_nearest_inv:
  assumes "fst best = length str \<and> snd best = str \<or>
           fst best < length str \<and> snd best \<in> T \<and> prefix (snd best) (drop (fst best) str)"
    and "set tokens \<subseteq> T"
  shows "fst (foldl (nearest str) best tokens) = length str \<and>
           snd (foldl (nearest str) best tokens) = str \<or>
         fst (foldl (nearest str) best tokens) < length str \<and>
           snd (foldl (nearest str) best tokens) \<in> T \<and>
           prefix (snd (foldl (nearest str) best tokens))
             (drop (fst (foldl (nearest str) best tokens)) str)"
  using assms
proof (induction tokens arbitrary: best)
  case Nil
  then show ?case by simp
next
  case (Cons t ts)
  have "t \<in> T" using Cons.prems(2) by simp
  from nearest_inv[OF Cons.prems(1) this] Cons.prems(2) show ?case
    by (simp only: foldl_Cons) (rule Cons.IH, simp_all)
qed

lemma tokenizer_step_sound:
  assumes "tokenizer_step tokens str = (pieces, rest)" and "str \<noteq> []"
    and "\<forall>t \<in> set tokens. t \<noteq> []"
  shows "concat pieces @ rest = str \<and> length rest < length str \<and> [] \<notin> set pieces"
proof -
  obtain minIx minToken where
    f: "foldl (nearest str) (length str, str) tokens = (minIx, minToken)"
    by (cases "foldl (nearest str) (length str, str) tokens")
  have inv: "minIx = length str \<and> minToken = str \<or>
             minIx < length str \<and> minToken \<in> set tokens \<and> prefix minToken (drop minIx str)"
    using foldl_nearest_inv[of "(length str, str)" str "set tokens" tokens] f by simp
  have p: "pieces = (if 0 < minIx \<and> minIx < length str then [take minIx str] else []) @ [minToken]"
    and r: "rest = drop (minIx + length minToken) str"
    using assms(1) f by (simp_all add: tokenizer_step_def)
  from inv show ?thesis
  proof
    assume "minIx = length str \<and> minToken = str"
    then show ?thesis using p r assms(2) by simp
  next
    assume a: "minIx < length str \<and> minToken \<in> set tokens \<and> prefix minToken (drop minIx str)"
    then obtain zs where zs: "drop minIx str = minToken @ zs" by (auto simp: prefix_def)
    have ne: "minToken \<noteq> []" using a assms(3) by blast
    have "drop (minIx + length minToken) str = drop (length minToken) (drop minIx str)"
      by (simp add: add.commute)
    then have rest: "rest = zs" using r zs by simp
    have str: "str = take minIx str @ minToken @ zs" using zs by (metis append_take_drop_id)
    have len: "length str = minIx + length minToken + length zs"
      using arg_cong[OF str, of length] a by simp
    have c: "concat pieces = take minIx str @ minToken" using p a by simp
    have "[] \<notin> set pieces" using p a ne by auto
    then show ?thesis using c rest str len ne by simp
  qed
qed

lemma tokenizer_loop_total:
  assumes "\<forall>t \<in> set tokens. t \<noteq> []"
  shows "\<exists>pieces. tokenizer_loop tokens str results = Some (results @ pieces) \<and>
           concat pieces = str \<and> [] \<notin> set pieces"
proof (induction "length str" arbitrary: str results rule: less_induct)
  case less
  show ?case
  proof (cases "str = []")
    case True
    then show ?thesis by (simp add: tokenizer_loop.simps)
  next
    case False
    obtain ps rest where st: "tokenizer_step tokens str = (ps, rest)"
      by (cases "tokenizer_step tokens str")
    from tokenizer_step_sound[OF st False assms]
    have c: "concat ps @ rest = str" and l: "length rest < length str" and n: "[] \<notin> set ps"
      by simp_all
    from less[OF l, of "results @ ps"] obtain qs where
      q: "tokenizer_loop tokens rest (results @ ps) = Some ((results @ ps) @ qs)"
      and cq: "concat qs = rest" and nq: "[] \<notin> set qs" by blast
    have "tokenizer_loop tokens str results = Some (results @ (ps @ qs))"
      using False st q by (subst tokenizer_loop.simps) simp
    moreover have "concat (ps @ qs) = str" using c cq by simp
    moreover have "[] \<notin> set (ps @ qs)" using n nq by simp
    ultimately show ?thesis by blast
  qed
qed

lemma tokenizer_loop_Nil: "tokenizer_loop tokens [] results = Some results"
  by (simp add: tokenizer_loop.simps)

lemma tokenizer_loop_Cons:
  "tokenizer_loop tokens (c # cs) results =
     (case tokenizer_step tokens (c # cs) of
        (pieces, rest) \<Rightarrow> tokenizer_loop tokens rest (results @ pieces))"
  by (subst tokenizer_loop.simps) simp

lemmas tokenizer_eval =
  makeTokenizer_def tokenizer_loop_Nil tokenizer_loop_Cons tokenizer_step_def nearest_def

lemma empty_token_step: "tokenizer_step [''''] ''a'' = ([''''], ''a'')"
  by (simp add: tokenizer_step_def nearest_def)

lemma empty_token_never_returns:
  assumes "tokenizer_loop tokens str results = Some y"
  shows "\<not> (tokens = [''''] \<and> str = ''a'')"
proof (rule tokenizer_loop.raw_induct
    [where P = "\<lambda>t r res y. \<not> (t = [''''] \<and> r = ''a'')", OF _ assms])
  fix loop :: "string list \<Rightarrow> string \<Rightarrow> string list \<Rightarrow> string list option"
    and t r res z
  assume IH: "\<And>t r res y. loop t r res = Some y \<Longrightarrow> \<not> (t = [''''] \<and> r = ''a'')"
    and step: "(if r = [] then Some res
                else case tokenizer_step t r of
                       (pieces, rest) \<Rightarrow> loop t rest (res @ pieces)) = Some z"
  show "\<not> (t = [''''] \<and> r = ''a'')"
  proof
    assume a: "t = [''''] \<and> r = ''a''"
    with step have "loop [''''] ''a'' (res @ ['''']) = Some z"
      by (simp add: empty_token_step)
    from IH[OF this] show False by simp
  qed
qed

text \<open>
  Claim C4, as stated: for every input string and every non-empty token alphabet the
  tokenizer terminates and the concatenation of its pieces is the input. The alphabet
  \<open>[""]\<close> is non-empty, and on the input \<open>"a"\<close> the loop finds the empty token at index 0,
  pushes it and leaves \<open>raw\<close> unchanged: the tokenizer never returns.
\<close>

theorem makeTokenizer_empty_token_diverges:
  "[''''] \<noteq> [] \<and> makeTokenizer [''''] ''a'' = None"
proof (cases "makeTokenizer [''''] ''a''")
  case None
  then show ?thesis by simp
next
  case (Some y)
  then show ?thesis
    using empty_token_never_returns[of "['''']" "''a''" "[]" y] by (simp add: makeTokenizer_def)
qed

text \<open>
  Claim C4, amended: for every input string and every token alphabet none of whose tokens
  is the empty string (the alphabet itself may even be empty), the tokenizer terminates,
  the concatenation of the produced pieces in order is the input string, and the empty
  input produces the empty sequence.
\<close>

theorem makeTokenizer_total_rejoin:
  assumes "\<forall>t \<in> set tokens. t \<noteq> []"
  shows "\<exists>pieces. makeTokenizer tokens str = Some pieces \<and> concat pieces = str \<and>
           (str = [] \<longrightarrow> pieces = [])"
proof -
  from tokenizer_loop_total[OF assms, of str "[]"] obtain pieces where
    p: "tokenizer_loop tokens str [] = Some pieces" and c: "concat pieces = str"
    and n: "[] \<notin> set pieces" by auto
  have "str = [] \<longrightarrow> pieces = []" using c n by (cases pieces) auto
  then show ?thesis using p c by (simp add: makeTokenizer_def)
qed

theorem makeTokenizer_total_rejoin_witness:
  "[] \<notin> set [''?'', '' '', ''$=''] \<and>
   makeTokenizer [''?'', '' '', ''$=''] ''a ?b $= $'' =
     Some [''a'', '' '', ''?'', ''b'', '' '', ''$='', '' '', ''$''] \<and>
   concat [''a'', '' '', ''?'', ''b'', '' '', ''$='', '' '', ''$''] = ''a ?b $= $'' \<and>
   makeTokenizer [''?'', '' '', ''$=''] [] = Some []"
proof -
  have h: "\<forall>t \<in> set [''?'', '' '', ''$='']. t \<noteq> []" by simp
  from makeTokenizer_total_rejoin[OF h, of "''a ?b $= $''"]
    makeTokenizer_total_rejoin[OF h, of "[]"]
  show ?thesis by (simp add: tokenizer_eval)
qed

section \<open>Fingerprints\<close>

text \<open>
  Claim C8: on a chunk list whose leading text chunk begins with the two characters
  \<open>"! "\<close>, \<open>fingerprintSource\<close> strips that prefix, keeps the rest of the text of the
  chunk, and goes on with the chunks that follow, a field giving \<open>"?"\<close> and any other token
  its text; so \<open>[TextToken("! age"), FieldToken()]\<close> gives \<open>"age?"\<close>, as do the chunks
  \<open>[TextToken("age"), FieldToken(alias="x")]\<close>. The positions of the tokens and the other
  properties of the line and of its fields do not matter; the leading text is taken as
  it is, without the padding of its indent.
\<close>

theorem fingerprintSource_negation_prefix:
  "fingerprintSource
     (Line k li ind (Text ti tli tind (''! '' @ t) # rest) neg a ds lt pix) =
     Inr (t @ concat (map (\<lambda>token. if tokenIsField token then ''?'' else tokenToString token)
                        rest)) \<and>
   fingerprintSource
     (Line k li ind [Text ti tli tind ''! age'', Field fi g fa v] neg a ds lt pix) =
     Inr ''age?'' \<and>
   fingerprintSource
     (Line k li ind [Text ti tli None ''age'', Field fi g (Some ''x'') v] neg a ds lt pix) =
     Inr ''age?''"
  by (simp add: fingerprintSource_def padding_of_def)

section \<open>Lines without chunks\<close>

lemma whitespace_line_lines:
  "parseQueryLines [] [] 0 (split_lines '' '') = Inl TypeError"
  by code_simp

text \<open>
  Claim C7 says that a line whose parsed chunk list is empty, such as a line of
  whitespace only, produces no line node and no error, and that parse goes on to the
  next line and returns. For the text of one space \<open>parseLine\<close> returns \<open>undefined\<close>, and
  \<open>Query.parse\<close> then reads \<open>parsed.chunks[0]\<close>: the call ends in a TypeError, whatever
  the fact store, for a new Query.
\<close>

theorem Query_parse_whitespace_line_throws:
  "Query_parse e (new_Query initializer) '' '' n = Inl TypeError"
proof -
  have "raw (new_Query initializer) \<noteq> Some '' ''" by (simp add: new_Query_def)
  then show ?thesis
    unfolding Query_parse_def by (simp only: whitespace_line_lines if_False sum.case)
qed

section \<open>Negation\<close>

text \<open>
  Claim C5 says that a source line whose first token is \<open>!\<close> is marked as negated and
  that the flag is carried onto the reified source. \<open>!\<close> is a keyword of the Query
  language, so the first chunk of the line \<open>! foo ?x\<close> is a keyword and not a text, and
  \<open>processSource\<close>, which tests \<open>tokenIsText\<close>, leaves \<open>negated\<close> unset; the reified
  source has it unset as well.
\<close>

theorem Query_parse_bang_not_negated:
  "case Query_parse example_env (new_Query None) ''! foo ?x'' 0 of
     Inl f \<Rightarrow> False
   | Inr (q, n) \<Rightarrow>
       map_option (map kind \<circ> chunks) (ast q) = Some [KSource] \<and>
       map_option (map (hd \<circ> chunks) \<circ> chunks) (ast q) = Some [Keyword (Some 1) ''!''] \<and>
       map_option (map negated \<circ> chunks) (ast q) = Some [None] \<and>
       errors q = [] \<and>
       map_option (map sourceView \<circ> sources) (reified q) = Some [''N''] \<and>
       map_option (map s_negated \<circ> sources) (reified q) = Some [None]"
  by code_simp

section \<open>What the reifier keeps\<close>

lemma parseError_Some [simp]: "parseError (Some r) msg = Inr (ParseError msg)"
  by (simp add: parseError_def)

lemma parseError_None [simp]: "parseError None msg = Inl TypeError"
  by (simp add: parseError_def)

lemma parseError_Inr: "parseError rw msg = Inr err \<Longrightarrow> rw \<noteq> None \<and> err = ParseError msg"
  by (cases rw) auto

lemma parseError_Inl: "parseError rw msg = Inl f \<Longrightarrow> rw = None \<and> f = TypeError"
  by (cases rw) auto

lemma getVariable_keeps:
  "getVariable e al ir v f n = Inr (vid, ir', n') \<Longrightarrow> sources ir' = sources ir \<and> ir_id ir' = ir_id ir"
  by (auto simp: getVariable_def Let_def split: if_splits prod.splits option.splits)

lemma reifyFields_keeps:
  "reifyFields e rw p fp cs fs src ir n = Inr (err, src', ir', n') \<Longrightarrow>
     sources ir' = sources ir \<and> ir_id ir' = ir_id ir \<and> source src' = source src \<and>
     sourceView src' = sourceView src \<and> s_negated src' = s_negated src"
proof (induction cs arbitrary: fs src ir n)
  case Nil
  then show ?case by simp
next
  case (Cons c cs)
  show ?case
  proof (cases "tokenIsField c")
    case False
    then show ?thesis using Cons.prems Cons.IH by simp
  next
    case True
    show ?thesis
    proof (cases "fs = [] \<or> hd fs = []")
      case True
      then show ?thesis using Cons.prems \<open>tokenIsField c\<close> by (cases rw) auto
    next
      case False
      obtain varId fieldId where pv: "prevVariable p (t_alias c) = Inr (varId, fieldId)"
        using Cons.prems \<open>tokenIsField c\<close> False
        by (cases "prevVariable p (t_alias c)") auto
      obtain vid ir1 n1 where gv: "getVariable e (t_alias c) ir varId fieldId n = Inr (vid, ir1, n1)"
        using Cons.prems \<open>tokenIsField c\<close> False pv
        by (cases "getVariable e (t_alias c) ir varId fieldId n") auto
      from Cons.prems \<open>tokenIsField c\<close> False pv gv
      have rec: "reifyFields e rw p fp cs (tl fs)
                   (src\<lparr>s_fields := s_fields src @
                           [\<lparr>field = hd fs, f_grouped = grouped c,
                             f_alias = t_alias c, f_value = fvalue c\<rparr>],
                         chunked := (grouped c \<or> chunked src)\<rparr>)
                   (ir1\<lparr>variables :=
                           AList.map_entry vid
                             (\<lambda>v. v\<lparr>v_value := (if fvalue c \<noteq> None then fvalue c
                                                 else v_value v),
                                     bindings := bindings v @ [(source src, hd fs)]\<rparr>)
                             (variables ir1)\<rparr>)
                   n1 = Inr (err, src', ir', n')"
        by simp
      from Cons.IH[OF rec] getVariable_keeps[OF gv] show ?thesis by simp
    qed
  qed
qed

lemma ordinalSort_errors:
  "ordinalSort rw flds ds cs srt i unsorted errs = Inr (srt', i', unsorted', errs') \<Longrightarrow>
     \<exists>more. errs' = errs @ more"
proof (induction cs arbitrary: srt i unsorted errs)
  case Nil
  then show ?case by simp
next
  case (Cons c cs)
  show ?case
  proof (cases "tokenIsField c")
    case False
    then show ?thesis using Cons.prems Cons.IH by simp
  next
    case True
    show ?thesis
    proof (cases "find (\<lambda>f. f_alias f = t_alias c) flds")
      case None
      then obtain er where
        "ordinalSort rw flds ds cs srt i unsorted (errs @ [er]) = Inr (srt', i', unsorted', errs')"
        using Cons.prems True by (cases rw) auto
      from Cons.IH[OF this] obtain more where "errs' = (errs @ [er]) @ more" by blast
      then have "errs' = errs @ (er # more)" by simp
      then show ?thesis by blast
    next
      case (Some f)
      then show ?thesis using Cons.prems Cons.IH True by simp
    qed
  qed
qed

text \<open>A line of the reifier only ever appends to the errors and to the sources, and
  leaves the identifier and the view of every source it has already made.\<close>

lemma reifySource_steps:
  assumes "reifySource e rw p line ir errs n = Inr (stop, ir', errs', n')"
  shows "(\<exists>more. errs' = errs @ more) \<and> ir_id ir' = ir_id ir \<and>
         (\<exists>more. map source (sources ir') = map source (sources ir) @ more)"
proof -
  obtain fp where fp: "fingerprintSource line = Inr fp"
    using assms by (cases "fingerprintSource line") (auto simp: reifySource_def)
  show ?thesis
  proof (cases "truthy (view_fingerprint e fp)")
    case False
    then show ?thesis using assms fp by (cases rw) (auto simp: reifySource_def)
  next
    case True
    define src0 where "src0 = \<lparr>source = (case (case p of None \<Rightarrow> None
                               | Some p \<Rightarrow> nth_opt (sources p) (length (sources ir))) of
                               Some ps \<Rightarrow> if sourceView ps = the (view_fingerprint e fp) then source ps else uuid e n
                             | None \<Rightarrow> uuid e n), sourceView = the (view_fingerprint e fp), s_fields = [],
                        s_negated = negated line, chunked = False, s_sort = None,
                        ordinal = None, s_lineIx = lineIx_of line\<rparr>"
    have unf: "reifySource e rw p line ir errs n =
      (case reifyFields e rw p fp (chunks line) (fingerprint_fields e fp) src0 ir (Suc n) of
                  Inl f \<Rightarrow> Inl f
                | Inr (Some err, src, ir1, n1) \<Rightarrow> Inr (True, ir1, errs @ [err], n1)
                | Inr (None, src, ir1, n1) \<Rightarrow>
                    Inr (False, ir1\<lparr>sources := sources ir1 @ [src]\<rparr>, errs, n1))"
      using True fp by (simp add: reifySource_def Let_def src0_def)
    obtain err src ir1 n1 where rf:
      "reifyFields e rw p fp (chunks line) (fingerprint_fields e fp) src0 ir (Suc n) = Inr (err, src, ir1, n1)"
      using assms unfolding unf
      by (cases "reifyFields e rw p fp (chunks line) (fingerprint_fields e fp) src0 ir (Suc n)") auto
    note k = reifyFields_keeps[OF rf]
    show ?thesis
    proof (cases err)
      case None
      then show ?thesis using assms k unfolding unf rf by auto
    next
      case (Some er)
      then show ?thesis using assms k unfolding unf rf by auto
    qed
  qed
qed

lemma map_source_butlast_last:
  assumes "xs \<noteq> []" and "source s = source (last xs)"
  shows "map source (butlast xs @ [s]) = map source xs"
proof -
  have "map source xs = map source (butlast xs @ [last xs])" using assms(1) by simp
  then show ?thesis using assms(2) by simp
qed

lemma reifyOrdinal_steps:
  assumes "reifyOrdinal e rw p line ir errs n = Inr (stop, ir', errs', n')"
  shows "(\<exists>more. errs' = errs @ more) \<and> ir_id ir' = ir_id ir \<and>
         map source (sources ir') = map source (sources ir) \<and> \<not> stop"
proof (cases "sources ir = []")
  case True
  then show ?thesis using assms by (cases rw) (auto simp: reifyOrdinal_def)
next
  case False
  obtain varId fieldId where pv: "prevVariable p (t_alias line) = Inr (varId, fieldId)"
    using assms False by (cases "prevVariable p (t_alias line)") (auto simp: reifyOrdinal_def)
  obtain vid ir1 n1 where gv: "getVariable e (t_alias line) ir varId fieldId n = Inr (vid, ir1, n1)"
    using assms False pv
    by (cases "getVariable e (t_alias line) ir varId fieldId n") (auto simp: reifyOrdinal_def)
  obtain srt i unsorted errs1 where
    os: "ordinalSort rw (s_fields (last (sources ir))) (directions line) (drop 3 (chunks line)) [] 0
           (map field (s_fields (last (sources ir)))) errs = Inr (srt, i, unsorted, errs1)"
    using assms False pv gv
    by (cases "ordinalSort rw (s_fields (last (sources ir))) (directions line)
                 (drop 3 (chunks line)) [] 0 (map field (s_fields (last (sources ir)))) errs")
      (auto simp: reifyOrdinal_def Let_def)
  have s1: "sources ir1 = sources ir" and i1: "ir_id ir1 = ir_id ir"
    using getVariable_keeps[OF gv] by simp_all
  from assms False pv gv os s1 i1 have
    e': "errs' = errs1" and st: "\<not> stop" and id': "ir_id ir' = ir_id ir" and
    so: "\<exists>s. sources ir' = butlast (sources ir) @ [s] \<and> source s = source (last (sources ir))"
    by (auto simp: reifyOrdinal_def Let_def)
  from so obtain s where s: "sources ir' = butlast (sources ir) @ [s]"
    "source s = source (last (sources ir))" by blast
  have "map source (sources ir') = map source (sources ir)"
    using map_source_butlast_last[OF False s(2)] s(1) by simp
  then show ?thesis using ordinalSort_errors[OF os] e' st id' by simp
qed

lemma reifyLine_steps:
  assumes "reifyLine e rw p line ir errs n = Inr (stop, ir', errs', n')"
  shows "(\<exists>more. errs' = errs @ more) \<and> ir_id ir' = ir_id ir \<and>
         (\<exists>more. map source (sources ir') = map source (sources ir) @ more)"
  using assms reifySource_steps[of e rw p line ir errs n stop ir' errs' n']
    reifyOrdinal_steps[of e rw p line ir errs n stop ir' errs' n']
  by (cases rw) (auto simp: reifyLine_def split: if_splits)

lemma reifyLines_steps:
  "reifyLines e rw p ls ir errs n = Inr (ir', errs', n') \<Longrightarrow>
     (\<exists>more. errs' = errs @ more) \<and> ir_id ir' = ir_id ir \<and>
     (\<exists>more. map source (sources ir') = map source (sources ir) @ more)"
proof (induction ls arbitrary: ir errs n)
  case Nil
  then show ?case by simp
next
  case (Cons l ls)
  obtain stop ir1 errs1 n1 where l: "reifyLine e rw p l ir errs n = Inr (stop, ir1, errs1, n1)"
    using Cons.prems by (cases "reifyLine e rw p l ir errs n") auto
  note s = reifyLine_steps[OF l]
  show ?case
  proof (cases stop)
    case True
    then show ?thesis using Cons.prems l s by simp
  next
    case False
    then have "reifyLines e rw p ls ir1 errs1 n1 = Inr (ir', errs', n')" using Cons.prems l by simp
    from Cons.IH[OF this] s show ?thesis by (metis append.assoc)
  qed
qed


section \<open>Identifier stability of the first source\<close>

lemma reifySource_first:
  assumes r: "reifySource e rw (Some p) l0 ir [] n = Inr (stop, ir', [], n')"
    and e: "sources ir = []"
    and fp: "fingerprintSource l0 = Inr fp"
    and v: "view_fingerprint e fp = Some V"
    and p: "sources p = S # others" "sourceView S = V"
  shows "map source (sources ir') = [source S]"
proof -
  have t: "truthy (view_fingerprint e fp)"
  proof (rule ccontr)
    assume "\<not> truthy (view_fingerprint e fp)"
    then show False using r fp by (cases rw) (simp_all add: reifySource_def)
  qed
  define src0 where
    "src0 = \<lparr>source = source S, sourceView = V, s_fields = [], s_negated = negated l0,
             chunked = False, s_sort = None, ordinal = None, s_lineIx = lineIx_of l0\<rparr>"
  have unf: "reifySource e rw (Some p) l0 ir [] n =
      (case reifyFields e rw (Some p) fp (chunks l0) (fingerprint_fields e fp) src0 ir (Suc n) of
         Inl f \<Rightarrow> Inl f
       | Inr (Some err, src, ir1, n1) \<Rightarrow> Inr (True, ir1, [] @ [err], n1)
       | Inr (None, src, ir1, n1) \<Rightarrow> Inr (False, ir1\<lparr>sources := sources ir1 @ [src]\<rparr>, [], n1))"
    using t fp v p e by (simp add: reifySource_def Let_def src0_def nth_opt_def)
  obtain err src ir1 n1 where rf:
    "reifyFields e rw (Some p) fp (chunks l0) (fingerprint_fields e fp) src0 ir (Suc n) =
       Inr (err, src, ir1, n1)"
    using r unfolding unf
    by (cases "reifyFields e rw (Some p) fp (chunks l0) (fingerprint_fields e fp) src0 ir (Suc n)")
      auto
  note k = reifyFields_keeps[OF rf]
  have "err = None" using r unfolding unf rf by (cases err) auto
  then have "sources ir' = sources ir1 @ [src]" using r unfolding unf rf by auto
  then show ?thesis using k e by (simp add: src0_def)
qed

lemma reifyLines_first:
  assumes r: "reifyLines e rw (Some p) (l0 # ls) ir [] n = Inr (ir', [], n')"
    and e: "sources ir = []"
    and s: "tokenIsSource l0"
    and fp: "fingerprintSource l0 = Inr fp"
    and v: "view_fingerprint e fp = Some V"
    and p: "sources p = S # others" "sourceView S = V"
  shows "\<exists>more. map source (sources ir') = source S # more"
proof -
  obtain stop ir1 errs1 n1 where
    l: "reifySource e rw (Some p) l0 ir [] n = Inr (stop, ir1, errs1, n1)"
    using r s by (cases "reifySource e rw (Some p) l0 ir [] n") (auto simp: reifyLine_def)
  have rest: "(if stop then Inr (ir1, errs1, n1) else reifyLines e rw (Some p) ls ir1 errs1 n1) =
                Inr (ir', [], n')"
    using r s l by (simp add: reifyLine_def)
  have "errs1 = []"
  proof (cases stop)
    case True
    then show ?thesis using rest by simp
  next
    case False
    then have "reifyLines e rw (Some p) ls ir1 errs1 n1 = Inr (ir', [], n')" using rest by simp
    from reifyLines_steps[OF this] show ?thesis by simp
  qed
  then have one: "map source (sources ir1) = [source S]"
    using reifySource_first[OF _ e fp v p] l by simp
  show ?thesis
  proof (cases stop)
    case True
    then show ?thesis using rest one by simp
  next
    case False
    then have "reifyLines e rw (Some p) ls ir1 errs1 n1 = Inr (ir', [], n')" using rest by simp
    from reifyLines_steps[OF this] one show ?thesis by auto
  qed
qed

lemma parseQueryLine_appends:
  assumes "parseQueryLine cs errs i line = Inr (cs', errs')"
  shows "(\<exists>more. cs' = cs @ more) \<and> (\<exists>more. errs' = errs @ more)"
proof -
  obtain tokens where t: "makeTokenizer Q_TOKENS line = Some tokens"
    using assms by (cases "makeTokenizer Q_TOKENS line") (auto simp: parseQueryLine_def)
  show ?thesis
  proof (cases "tokens = []")
    case True
    then show ?thesis using assms t by (auto simp: parseQueryLine_def)
  next
    case False
    show ?thesis
    proof (cases "parseLine tokens i")
      case NoLine
      then show ?thesis using assms t False by (simp add: parseQueryLine_def)
    next
      case (LineError er)
      then show ?thesis using assms t False by (auto simp: parseQueryLine_def)
    next
      case (LineOk parsed)
      then show ?thesis using assms t False
        by (auto simp: parseQueryLine_def split: token.splits list.splits if_splits sum.splits)
    qed
  qed
qed

lemma parseQueryLines_appends:
  "parseQueryLines cs errs i lines = Inr (cs', errs') \<Longrightarrow>
     (\<exists>more. cs' = cs @ more) \<and> (\<exists>more. errs' = errs @ more)"
proof (induction lines arbitrary: cs errs i)
  case Nil
  then show ?case by simp
next
  case (Cons l ls)
  obtain cs1 errs1 where l: "parseQueryLine cs errs i l = Inr (cs1, errs1)"
    using Cons.prems by (cases "parseQueryLine cs errs i l") auto
  then have "parseQueryLines cs1 errs1 (Suc i) ls = Inr (cs', errs')" using Cons.prems by simp
  from Cons.IH[OF this] parseQueryLine_appends[OF l] show ?case by (metis append.assoc)
qed

lemma Query_reify_reified:
  assumes "ast q = Some a" and "Query_reify e q n = Inr (q', n')" and "reified q' = Some ir"
  shows "\<exists>rid n1 n2.
           reifyLines e (raw q) (Query_prev q)
             (concat (map (\<lambda>line. if tokenIsCalculation line then chunks line else [line])
                        (chunks a)))
             \<lparr>ir_id = rid, sources = [], aliases = [], variables = [], actions = []\<rparr>
             (errors q) n1 = Inr (ir, [], n2)"
proof -
  define rid where
    "rid = (case Query_prev q of
              Some p \<Rightarrow> if ir_id p \<noteq> [] then (ir_id p, n) else (uuid e n, Suc n)
            | None \<Rightarrow> (uuid e n, Suc n))"
  define flat where
    "flat = concat (map (\<lambda>line. if tokenIsCalculation line then chunks line else [line])
                      (chunks a))"
  define ir0 where
    "ir0 = \<lparr>ir_id = fst rid, sources = [], aliases = [], variables = [], actions = []\<rparr>"
  have pass: "Query_pass e q a n = reifyLines e (raw q) (Query_prev q) flat ir0 (errors q) (snd rid)"
    unfolding Query_pass_def Let_def case_prod_beta rid_def flat_def ir0_def by (rule refl)
  have unf: "Query_reify e q n =
    (case reifyLines e (raw q) (Query_prev q) flat ir0 (errors q) (snd rid) of
       Inl f \<Rightarrow> Inl f
     | Inr (ir, errs, n2) \<Rightarrow>
         if errs \<noteq> [] then
           Inr (q\<lparr>prev := Query_prev q, reified := None, failed := Some ir, errors := errs\<rparr>, n2)
         else
           Inr (q\<lparr>prev := Query_prev q, reified := Some ir, errors := errs,
                  q_id := Some (ir_id ir)\<rparr>, n2))"
    unfolding Query_reify_def by (simp only: assms(1) option.case pass)
  obtain ir1 errs1 n2 where
    rl: "reifyLines e (raw q) (Query_prev q) flat ir0 (errors q) (snd rid) = Inr (ir1, errs1, n2)"
    using assms(2) unfolding unf
    by (cases "reifyLines e (raw q) (Query_prev q) flat ir0 (errors q) (snd rid)") auto
  have "errs1 = [] \<and> ir1 = ir" using assms(2,3) unfolding unf rl by (auto split: if_splits)
  then show ?thesis using rl unfolding flat_def ir0_def by blast
qed

text \<open>
  Claim C1: given a previous reified IR \<open>p\<close> whose source at position 0, \<open>S\<close>, is bound to
  view \<open>V\<close>, re-parsing a text whose line 0 parses to a source line \<open>l0\<close> that resolves
  to \<open>V\<close> yields a reified IR whose source at position 0 has the identifier of \<open>S\<close>.
  The previous IR is what \<open>parse\<close> takes for \<open>prev\<close>: \<open>this.reified\<close> if there is
  one, else \<open>this.prev\<close>. A reified IR exists when the whole text parses and reifies
  without error (\<open>reified q' = Some ir\<close>); line 0 need not even be unchanged.
\<close>

theorem source_id_stable:
  assumes parse: "Query_parse e q text n = Inr (q', n')"
    and new: "raw q \<noteq> Some text"
    and before: "(if reified q \<noteq> None then reified q else prev q) = Some p"
      "sources p = S # others" "sourceView S = V"
    and line0: "split_lines text = line0 # lines"
      "parseQueryLine [] [] 0 line0 = Inr ([l0], [])"
      "tokenIsSource l0" "fingerprintSource l0 = Inr fp" "view_fingerprint e fp = Some V"
    and ok: "reified q' = Some ir"
  shows "sources ir \<noteq> [] \<and> source (hd (sources ir)) = source S"
proof -
  obtain cs errs where pl: "parseQueryLines [] [] 0 (split_lines text) = Inr (cs, errs)"
    using parse new by (cases "parseQueryLines [] [] 0 (split_lines text)")
      (auto simp: Query_parse_def)
  define q1 where
    "q1 = q\<lparr>errors := errs, raw := Some text,
            ast := Some (Line KQuery None None cs None None [] None None),
            prev := (if reified q \<noteq> None then reified q else prev q), reified := None\<rparr>"
  have q': "(if errs = [] then Query_reify e q1 n else Inr (q1, n)) = Inr (q', n')"
    using parse unfolding Query_parse_def Let_def q1_def pl
    by (simp only: new if_False sum.case prod.case)
  have errs: "errs = []"
  proof (rule ccontr)
    assume "errs \<noteq> []"
    then have "q' = q1" using q' by simp
    then show False using ok by (simp add: q1_def)
  qed
  have "parseQueryLines [l0] [] (Suc 0) lines = Inr (cs, errs)"
    using pl line0(1,2) by simp
  from parseQueryLines_appends[OF this] obtain more where cs: "cs = l0 # more" by auto
  have nc: "\<not> tokenIsCalculation l0" using line0(3) by (cases l0) auto
  have r: "Query_reify e q1 n = Inr (q', n')" using q' errs by simp
  have a: "ast q1 = Some (Line KQuery None None cs None None [] None None)"
    by (simp add: q1_def)
  have pq: "Query_prev q1 = Some p"
    using before(1) by (simp add: q1_def Query_prev_def)
  have eq: "errors q1 = []" using errs by (simp add: q1_def)
  from Query_reify_reified[OF a r ok] obtain rid n1 n2 where
    "reifyLines e (raw q1) (Some p)
       (l0 # concat (map (\<lambda>line. if tokenIsCalculation line then chunks line else [line]) more))
       \<lparr>ir_id = rid, sources = [], aliases = [], variables = [], actions = []\<rparr> [] n1 =
     Inr (ir, [], n2)"
    unfolding pq eq using cs nc by auto
  from reifyLines_first[OF this _ line0(3,4,5) before(2,3)]
  obtain ms where "map source (sources ir) = source S # ms" by auto
  then show ?thesis by (cases "sources ir") auto
qed


theorem source_id_stable_witness:
  "\<exists>q' n' p S ir l0.
     Query_parse example_env example_query (''foo ?x'' @ [CHR 0x0A] @ ''# ?r by ?x ascending'') 4 =
       Inr (q', n') \<and>
     raw example_query = Some ''foo ?x'' \<and>
     reified example_query = Some p \<and> sources p = [S] \<and> sourceView S = ''V'' \<and>
     source S = ''u1'' \<and>
     split_lines (''foo ?x'' @ [CHR 0x0A] @ ''# ?r by ?x ascending'') =
       [''foo ?x'', ''# ?r by ?x ascending''] \<and>
     parseQueryLine [] [] 0 ''foo ?x'' = Inr ([l0], []) \<and> tokenIsSource l0 \<and>
     fingerprintSource l0 = Inr ''foo ?'' \<and> view_fingerprint example_env ''foo ?'' = Some ''V'' \<and>
     reified q' = Some ir \<and> sources ir \<noteq> [] \<and> source (hd (sources ir)) = source S"
proof -
  let ?t = "''foo ?x'' @ [CHR 0x0A] @ ''# ?r by ?x ascending''"
  let ?r = "projr (Query_parse example_env example_query ?t 4)"
  let ?p = "the (reified example_query)"
  let ?l0 = "Line KSource (Some 0) (Some 0)
               [Text (Some 1) None None ''foo '', Field (Some 3) False (Some ''x'') None]
               None None [] None None"
  have h1: "Query_parse example_env example_query ?t 4 = Inr (fst ?r, snd ?r)" by code_simp
  have h2: "raw example_query = Some ''foo ?x''" by code_simp
  have h3: "(if reified example_query \<noteq> None then reified example_query
             else prev example_query) = Some ?p" by code_simp
  have h4: "sources ?p = [hd (sources ?p)]" by code_simp
  have h5: "sourceView (hd (sources ?p)) = ''V''" by code_simp
  have h6: "split_lines ?t = [''foo ?x'', ''# ?r by ?x ascending'']" by code_simp
  have h7: "parseQueryLine [] [] 0 ''foo ?x'' = Inr ([?l0], [])" by code_simp
  have h8: "tokenIsSource ?l0" by simp
  have h9: "fingerprintSource ?l0 = Inr ''foo ?''" by code_simp
  have h10: "view_fingerprint example_env ''foo ?'' = Some ''V''" by code_simp
  have h11: "reified (fst ?r) = Some (the (reified (fst ?r)))" by code_simp
  have h12: "source (hd (sources ?p)) = ''u1''" by code_simp
  have h13: "reified example_query = Some ?p" by code_simp
  have n: "raw example_query \<noteq> Some ?t" using h2 by simp
  from source_id_stable[OF h1 n h3 h4 h5 h6 h7 h8 h9 h10 h11]
  show ?thesis using h1 h2 h13 h4 h5 h12 h6 h7 h8 h9 h10 h11 by blast
qed

section \<open>Reification after a parse without errors\<close>

text \<open>\<open>Query.parse\<close> of a new text whose lines parse without error: the outcome of the
  pass over the lines is that of the call.\<close>

lemma Query_parse_with_pass:
  assumes new: "raw q \<noteq> Some str"
    and lines: "parseQueryLines [] [] 0 (split_lines str) = Inr (cs, [])"
    and pass: "reifyLines e (Some str) (if reified q \<noteq> None then reified q else prev q)
                 (concat (map (\<lambda>line. if tokenIsCalculation line then chunks line else [line]) cs))
                 \<lparr>ir_id = rid, sources = [], aliases = [], variables = [], actions = []\<rparr>
                 [] n1 = Inr (ir, errs, n2)"
    and rid: "(rid, n1) = (case (if reified q \<noteq> None then reified q else prev q) of
                            Some p \<Rightarrow> if ir_id p \<noteq> [] then (ir_id p, n) else (uuid e n, Suc n)
                          | None \<Rightarrow> (uuid e n, Suc n))"
  shows "\<exists>q'. Query_parse e q str n = Inr (q', n2) \<and> errors q' = errs \<and> raw q' = Some str \<and>
           reified q' = (if errs = [] then Some ir else None) \<and>
           failed q' = (if errs = [] then failed q else Some ir)"
proof -
  define q1 where
    "q1 = q\<lparr>errors := [], raw := Some str,
            ast := Some (Line KQuery None None cs None None [] None None),
            prev := (if reified q \<noteq> None then reified q else prev q), reified := None\<rparr>"
  have qp: "Query_parse e q str n = Query_reify e q1 n"
    unfolding Query_parse_def Let_def q1_def lines
    by (simp only: new if_False sum.case prod.case) simp
  have pr: "Query_prev q1 = (if reified q \<noteq> None then reified q else prev q)"
    by (simp add: q1_def Query_prev_def)
  have ps: "Query_pass e q1 (Line KQuery None None cs None None [] None None) n =
              Inr (ir, errs, n2)"
    unfolding Query_pass_def pr rid[symmetric] using pass by (simp add: q1_def)
  show ?thesis
    unfolding qp Query_reify_def
    using ps pr by (simp add: q1_def)
qed

section \<open>Ordinals\<close>

subsection \<open>The ordinal line\<close>

lemma split_lines_append:
  "CHR 0x0A \<notin> set s \<Longrightarrow> split_lines (s @ CHR 0x0A # t) = s # split_lines t"
proof (induction s)
  case Nil
  then show ?case by simp
next
  case (Cons c s)
  then show ?case by (auto split: list.splits)
qed

lemma ordinal_tokens:
  "makeTokenizer Q_TOKENS ''# ?r by ?x ascending'' =
     Some [''#'', '' '', ''?'', ''r'', '' '', ''by'', '' '', ''?'', ''x'', '' '', ''ascending'']"
  by code_simp

lemma ordinal_chunks:
  "parseChunks 11 [''#'', '' '', ''?'', ''r'', '' '', ''by'', '' '', ''?'', ''x'', '' '', ''ascending''] [] =
     Inr [Keyword (Some 1) ''#'', Text (Some 2) None None '' '',
          Field (Some 3) False (Some ''r'') None, Text (Some 5) None None '' by '',
          Field (Some 8) False (Some ''x'') None, Text (Some 10) None None '' ascending'']"
  by code_simp

lemma ordinal_loop:
  "ordinalLoop [Text (Some 5) None None '' by '', Field (Some 8) False (Some ''x'') None,
                Text (Some 10) None None '' ascending''] 0 [] = Inr (1, [Some ''ascending''])"
  by code_simp

lemma ordinal_parseLine:
  "parseLine [''#'', '' '', ''?'', ''r'', '' '', ''by'', '' '', ''?'', ''x'', '' '', ''ascending''] i =
     LineOk (Line KUntyped (Some i) (Some 0)
       [Keyword (Some 1) ''#'', Text (Some 2) None None '' '',
        Field (Some 3) False (Some ''r'') None, Text (Some 5) None None '' by '',
        Field (Some 8) False (Some ''x'') None, Text (Some 10) None None '' ascending'']
       None None [] None None)"
proof -
  let ?ts = "[''#'', '' '', ''?'', ''r'', '' '', ''by'', '' '', ''?'', ''x'', '' '', ''ascending'']"
  have cw: "consumeWhile ['' '', [CHR 0x09]] ?ts = ([], ?ts)" by code_simp
  have len: "length ?ts = 11" by simp
  show ?thesis
    unfolding parseLine_def
    by (simp only: cw prod.case len ordinal_chunks sum.case) simp
qed

lemma ordinal_line_accepted:
  assumes "cs \<noteq> []" and "tokenIsSource (last cs)"
  shows "parseQueryLine cs errs i ''# ?r by ?x ascending'' =
     Inr (cs @ [Line KOrdinal (Some i) (Some 0)
             [Keyword (Some 1) ''#'', Text (Some 2) None None '' '',
              Field (Some 3) False (Some ''r'') None, Text (Some 5) None None '' by '',
              Field (Some 8) False (Some ''x'') None, Text (Some 10) None None '' ascending'']
             None (Some ''r'') [Some ''ascending''] None None], errs)"
  unfolding parseQueryLine_def ordinal_tokens
  using assms ordinal_loop
  by (simp add: ordinal_parseLine classifyLine_def processAction_def processCalculation_def
      processOrdinal_def Q_ACTION_TOKENS_def)

lemma ordinal_line_refused:
  assumes "cs = [] \<or> \<not> tokenIsSource (last cs)"
  shows "parseQueryLine cs errs i ''# ?r by ?x ascending'' =
     Inr (cs, errs @ [ParseError ''Ordinal must immediately follow a source.''])"
  unfolding parseQueryLine_def ordinal_tokens
  using assms
  by (auto simp add: ordinal_parseLine classifyLine_def processAction_def processCalculation_def
      processOrdinal_def Q_ACTION_TOKENS_def)


subsection \<open>A source line with one field\<close>

lemma update_values:
  "(k', v') \<in> set (AList.update k v al) \<Longrightarrow> (k', v') = (k, v) \<or> (k', v') \<in> set al"
  by (induction al) (auto split: if_splits)

lemma prevVariable_returns:
  assumes "js_key al \<notin> set Object_prototype"
    and "\<forall>p vid. P = Some p \<longrightarrow> map_of (aliases p) (js_key al) = Some vid \<longrightarrow> vid \<noteq> [] \<longrightarrow>
           vid \<notin> set Object_prototype \<and> map_of (variables p) vid \<noteq> None"
  shows "\<exists>varId fieldId. prevVariable P al = Inr (varId, fieldId) \<and>
           (truthy varId \<longrightarrow> the varId \<notin> set Object_prototype)"
proof (cases P)
  case None
  then show ?thesis by (simp add: prevVariable_def truthy_def)
next
  case (Some p)
  show ?thesis
  proof (cases "truthy (map_of (aliases p) (js_key al))")
    case False
    then show ?thesis using Some assms(1) by (simp add: prevVariable_def Let_def)
  next
    case True
    then obtain vid where v: "map_of (aliases p) (js_key al) = Some vid" "vid \<noteq> []"
      by (auto simp: truthy_def)
    then have "vid \<notin> set Object_prototype" "map_of (variables p) vid \<noteq> None"
      using assms(2) Some by blast+
    then show ?thesis using Some assms(1) v True
      by (auto simp: prevVariable_def Let_def)
  qed
qed

lemma getVariable_returns:
  assumes "js_key al \<notin> set Object_prototype"
    and "\<forall>k. uuid e k \<notin> set Object_prototype"
    and "\<forall>v \<in> snd ` set (aliases ir). v \<notin> set Object_prototype"
    and "truthy varId0 \<longrightarrow> the varId0 \<notin> set Object_prototype"
  shows "\<exists>vid ir1 n1. getVariable e al ir varId0 fieldId n = Inr (vid, ir1, n1) \<and>
           sources ir1 = sources ir \<and> ir_id ir1 = ir_id ir \<and>
           (\<forall>v \<in> snd ` set (aliases ir1). v \<notin> set Object_prototype)"
proof -
  define vn where
    "vn = (if truthy varId0 then (the varId0, n)
           else if truthy (map_of (aliases ir) (js_key al))
           then (the (map_of (aliases ir) (js_key al)), n) else (uuid e n, Suc n))"
  have ok: "fst vn \<notin> set Object_prototype"
  proof (cases "truthy varId0")
    case True
    then show ?thesis using assms(4) by (simp add: vn_def)
  next
    case nv: False
    show ?thesis
    proof (cases "truthy (map_of (aliases ir) (js_key al))")
      case True
      then obtain v where v: "map_of (aliases ir) (js_key al) = Some v"
        by (auto simp: truthy_def)
      then have "(js_key al, v) \<in> set (aliases ir)" by (rule map_of_SomeD)
      then have "v \<in> snd ` set (aliases ir)" by force
      then have "v \<notin> set Object_prototype" using assms(3) by blast
      then show ?thesis using True v nv by (simp add: vn_def)
    next
      case False
      then show ?thesis using assms(2) nv by (simp add: vn_def)
    qed
  qed
  have "\<exists>ir1 n1. getVariable e al ir varId0 fieldId n = Inr (fst vn, ir1, n1) \<and>
          sources ir1 = sources ir \<and> ir_id ir1 = ir_id ir \<and>
          (aliases ir1 = aliases ir \<or> (\<exists>k. aliases ir1 = AList.update k (fst vn) (aliases ir)))"
    using assms(1) ok unfolding getVariable_def vn_def
    by (auto simp: Let_def truthy_def case_prod_beta split: if_splits)
  then obtain ir1 n1 where g: "getVariable e al ir varId0 fieldId n = Inr (fst vn, ir1, n1)"
    "sources ir1 = sources ir" "ir_id ir1 = ir_id ir"
    "aliases ir1 = aliases ir \<or> (\<exists>k. aliases ir1 = AList.update k (fst vn) (aliases ir))"
    by blast
  have "\<forall>v \<in> snd ` set (aliases ir1). v \<notin> set Object_prototype"
  proof
    fix v assume "v \<in> snd ` set (aliases ir1)"
    then obtain k where kv: "(k, v) \<in> set (aliases ir1)" by auto
    from g(4) show "v \<notin> set Object_prototype"
    proof
      assume "aliases ir1 = aliases ir"
      then show ?thesis using kv assms(3) by force
    next
      assume "\<exists>k. aliases ir1 = AList.update k (fst vn) (aliases ir)"
      then obtain k0 where "aliases ir1 = AList.update k0 (fst vn) (aliases ir)" by blast
      then have "(k, v) = (k0, fst vn) \<or> (k, v) \<in> set (aliases ir)"
        using kv update_values by metis
      then show ?thesis using ok assms(3) by force
    qed
  qed
  then show ?thesis using g by blast
qed

lemma reifyFields_skip:
  "filter tokenIsField cs = [] \<Longrightarrow> reifyFields e rw p fp cs fs src ir n = Inr (None, src, ir, n)"
  by (induction cs) (auto split: if_splits)

lemma reifyFields_single:
  assumes "filter tokenIsField cs = [fld]" and "F \<noteq> []"
    and "prevVariable p (t_alias fld) = Inr (varId, fieldId)"
    and "getVariable e (t_alias fld) ir varId fieldId n = Inr (vid, ir1, n1)"
  shows "reifyFields e rw p fp cs (F # fs) src ir n =
           Inr (None,
                src\<lparr>s_fields := s_fields src @
                       [\<lparr>field = F, f_grouped = grouped fld,
                         f_alias = t_alias fld, f_value = fvalue fld\<rparr>],
                     chunked := (grouped fld \<or> chunked src)\<rparr>,
                ir1\<lparr>variables :=
                       AList.map_entry vid
                         (\<lambda>v. v\<lparr>v_value := (if fvalue fld \<noteq> None then fvalue fld
                                             else v_value v),
                                 bindings := bindings v @ [(source src, F)]\<rparr>)
                         (variables ir1)\<rparr>,
                n1)"
  using assms(1)
proof (induction cs)
  case Nil
  then show ?case by simp
next
  case (Cons c cs)
  show ?case
  proof (cases "tokenIsField c")
    case False
    then show ?thesis using Cons by simp
  next
    case True
    then have c: "c = fld" and rest: "filter tokenIsField cs = []" using Cons.prems by simp_all
    show ?thesis
      using True assms(2,3,4) reifyFields_skip[OF rest] unfolding c by simp
  qed
qed

text \<open>A source line with one field, against a store that has a view for its fingerprint
  and a field for its first place, reified when there is no previous IR.\<close>

lemma reifySource_single:
  assumes fp: "fingerprintSource l0 = Inr fp" "view_fingerprint e fp = Some V" "V \<noteq> []"
      "fingerprint_fields e fp = F # fs" "F \<noteq> []"
    and fld: "filter tokenIsField (chunks l0) = [fld]"
      "js_key (t_alias fld) \<notin> set Object_prototype"
    and ids: "\<forall>k. uuid e k \<notin> set Object_prototype"
      "\<forall>v \<in> snd ` set (aliases ir). v \<notin> set Object_prototype"
    and prev: "\<forall>p vid. P = Some p \<longrightarrow> map_of (aliases p) (js_key (t_alias fld)) = Some vid \<longrightarrow>
                 vid \<noteq> [] \<longrightarrow> vid \<notin> set Object_prototype \<and> map_of (variables p) vid \<noteq> None"
  shows "\<exists>ir' n' sid.
           reifySource e rw P l0 ir errs n = Inr (False, ir', errs, n') \<and>
           ir_id ir' = ir_id ir \<and>
           sources ir' = sources ir @
             [\<lparr>source = sid, sourceView = V,
               s_fields = [\<lparr>field = F, f_grouped = grouped fld, f_alias = t_alias fld,
                            f_value = fvalue fld\<rparr>],
               s_negated = negated l0, chunked = grouped fld, s_sort = None,
               ordinal = None, s_lineIx = lineIx_of l0\<rparr>] \<and>
           (\<forall>v \<in> snd ` set (aliases ir'). v \<notin> set Object_prototype)"
proof -
  from prevVariable_returns[OF fld(2) prev] obtain varId fieldId where
    pv: "prevVariable P (t_alias fld) = Inr (varId, fieldId)" and
    vo: "truthy varId \<longrightarrow> the varId \<notin> set Object_prototype" by blast
  from getVariable_returns[OF fld(2) ids vo, of fieldId "Suc n"] obtain vid ir1 n1 where
    gv: "getVariable e (t_alias fld) ir varId fieldId (Suc n) = Inr (vid, ir1, n1)" and
    k: "sources ir1 = sources ir" "ir_id ir1 = ir_id ir"
      "\<forall>v \<in> snd ` set (aliases ir1). v \<notin> set Object_prototype" by blast
  note rf = reifyFields_single[OF fld(1) fp(5) pv gv, of rw fp fs]
  show ?thesis
    unfolding reifySource_def
    using fp k by (simp add: Let_def truthy_def rf)
qed


lemma ordinal_y_tokens:
  "makeTokenizer Q_TOKENS ''# ?r by ?y ascending'' =
     Some [''#'', '' '', ''?'', ''r'', '' '', ''by'', '' '', ''?'', ''y'', '' '', ''ascending'']"
  by code_simp

lemma ordinal_y_chunks:
  "parseChunks 11 [''#'', '' '', ''?'', ''r'', '' '', ''by'', '' '', ''?'', ''y'', '' '', ''ascending''] [] =
     Inr [Keyword (Some 1) ''#'', Text (Some 2) None None '' '',
          Field (Some 3) False (Some ''r'') None, Text (Some 5) None None '' by '',
          Field (Some 8) False (Some ''y'') None, Text (Some 10) None None '' ascending'']"
  by code_simp

lemma ordinal_y_loop:
  "ordinalLoop [Text (Some 5) None None '' by '', Field (Some 8) False (Some ''y'') None,
                Text (Some 10) None None '' ascending''] 0 [] = Inr (1, [Some ''ascending''])"
  by code_simp

lemma ordinal_y_parseLine:
  "parseLine [''#'', '' '', ''?'', ''r'', '' '', ''by'', '' '', ''?'', ''y'', '' '', ''ascending''] i =
     LineOk (Line KUntyped (Some i) (Some 0)
       [Keyword (Some 1) ''#'', Text (Some 2) None None '' '',
        Field (Some 3) False (Some ''r'') None, Text (Some 5) None None '' by '',
        Field (Some 8) False (Some ''y'') None, Text (Some 10) None None '' ascending'']
       None None [] None None)"
proof -
  let ?ts = "[''#'', '' '', ''?'', ''r'', '' '', ''by'', '' '', ''?'', ''y'', '' '', ''ascending'']"
  have cw: "consumeWhile ['' '', [CHR 0x09]] ?ts = ([], ?ts)" by code_simp
  have len: "length ?ts = 11" by simp
  show ?thesis
    unfolding parseLine_def
    by (simp only: cw prod.case len ordinal_y_chunks sum.case) simp
qed

lemma ordinal_y_line_accepted:
  assumes "cs \<noteq> []" and "tokenIsSource (last cs)"
  shows "parseQueryLine cs errs i ''# ?r by ?y ascending'' =
     Inr (cs @ [Line KOrdinal (Some i) (Some 0)
             [Keyword (Some 1) ''#'', Text (Some 2) None None '' '',
              Field (Some 3) False (Some ''r'') None, Text (Some 5) None None '' by '',
              Field (Some 8) False (Some ''y'') None, Text (Some 10) None None '' ascending'']
             None (Some ''r'') [Some ''ascending''] None None], errs)"
  unfolding parseQueryLine_def ordinal_y_tokens
  using assms ordinal_y_loop
  by (simp add: ordinal_y_parseLine classifyLine_def processAction_def processCalculation_def
      processOrdinal_def Q_ACTION_TOKENS_def)

text \<open>The ordinal line \<open># ?r by ?a ..\<close> reified on an IR whose last source has one field.\<close>

lemma reifyOrdinal_single:
  assumes src: "sources ir = [src]" "s_fields src = [fi]"
    and ids: "\<forall>k. uuid e k \<notin> set Object_prototype"
      "\<forall>v \<in> snd ` set (aliases ir). v \<notin> set Object_prototype"
    and prev: "\<forall>p vid. P = Some p \<longrightarrow> map_of (aliases p) ''r'' = Some vid \<longrightarrow>
                 vid \<noteq> [] \<longrightarrow> vid \<notin> set Object_prototype \<and> map_of (variables p) vid \<noteq> None"
  shows "f_alias fi = Some al \<Longrightarrow>
           \<exists>ir' n'.
             reifyOrdinal e rw P
               (Line KOrdinal li ind
                  [Keyword (Some 1) ''#'', Text (Some 2) None None '' '',
                   Field (Some 3) False (Some ''r'') None, Text (Some 5) None None '' by '',
                   Field (Some 8) False (Some al) None, Text (Some 10) None None '' ascending'']
                  None (Some ''r'') [Some ''ascending''] None None) ir errs n =
               Inr (False, ir', errs, n') \<and>
             sources ir' =
               [src\<lparr>ordinal := Some (OrdinalAlias ''r''),
                    s_sort := Some [\<lparr>ix = 0, sort_field = field fi, direction = ''ascending''\<rparr>]\<rparr>]"
    and "f_alias fi \<noteq> Some al \<Longrightarrow>
           \<exists>ir' n'.
             reifyOrdinal e (Some t) P
               (Line KOrdinal li ind
                  [Keyword (Some 1) ''#'', Text (Some 2) None None '' '',
                   Field (Some 3) False (Some ''r'') None, Text (Some 5) None None '' by '',
                   Field (Some 8) False (Some al) None, Text (Some 10) None None '' ascending'']
                  None (Some ''r'') [Some ''ascending''] None None) ir errs n =
               Inr (False, ir',
                    errs @ [ParseError (''Ordinal alias '' @ quote @ al @ quote @
                       '' does not match any aliased fields of the ordinated source.'')], n')"
proof -
  have r: "js_key (Some ''r'') \<notin> set Object_prototype"
    by (simp add: js_key_def Object_prototype_def)
  have k: "js_key (Some ''r'') = ''r''" by (simp add: js_key_def)
  from prevVariable_returns[OF r, of P] prev obtain varId fieldId where
    pv: "prevVariable P (Some ''r'') = Inr (varId, fieldId)" and
    vo: "truthy varId \<longrightarrow> the varId \<notin> set Object_prototype" unfolding k by blast
  from getVariable_returns[OF r ids vo, of fieldId n] obtain vid ir1 n1 where
    gv: "getVariable e (Some ''r'') ir varId fieldId n = Inr (vid, ir1, n1)" and
    k: "sources ir1 = sources ir" by blast
  show "f_alias fi = Some al \<Longrightarrow>
           \<exists>ir' n'.
             reifyOrdinal e rw P
               (Line KOrdinal li ind
                  [Keyword (Some 1) ''#'', Text (Some 2) None None '' '',
                   Field (Some 3) False (Some ''r'') None, Text (Some 5) None None '' by '',
                   Field (Some 8) False (Some al) None, Text (Some 10) None None '' ascending'']
                  None (Some ''r'') [Some ''ascending''] None None) ir errs n =
               Inr (False, ir', errs, n') \<and>
             sources ir' =
               [src\<lparr>ordinal := Some (OrdinalAlias ''r''),
                    s_sort := Some [\<lparr>ix = 0, sort_field = field fi, direction = ''ascending''\<rparr>]\<rparr>]"
    unfolding reifyOrdinal_def
    using src k
    by (simp add: pv gv Let_def truthy_def direction_at_def nth_opt_def splice_indexOf_def)
  show "f_alias fi \<noteq> Some al \<Longrightarrow>
           \<exists>ir' n'.
             reifyOrdinal e (Some t) P
               (Line KOrdinal li ind
                  [Keyword (Some 1) ''#'', Text (Some 2) None None '' '',
                   Field (Some 3) False (Some ''r'') None, Text (Some 5) None None '' by '',
                   Field (Some 8) False (Some al) None, Text (Some 10) None None '' ascending'']
                  None (Some ''r'') [Some ''ascending''] None None) ir errs n =
               Inr (False, ir',
                    errs @ [ParseError (''Ordinal alias '' @ quote @ al @ quote @
                       '' does not match any aliased fields of the ordinated source.'')], n')"
    unfolding reifyOrdinal_def
    using src k
    by (simp add: pv gv Let_def truthy_def direction_at_def nth_opt_def splice_indexOf_def
        js_key_def)
qed


lemma split_ordinal: "split_lines ''# ?r by ?x ascending'' = [''# ?r by ?x ascending'']"
  by code_simp

lemma split_ordinal_y: "split_lines ''# ?r by ?y ascending'' = [''# ?r by ?y ascending'']"
  by code_simp

lemma source_not_calculation: "tokenIsSource l \<Longrightarrow> \<not> tokenIsCalculation l \<and> \<not> tokenIsOrdinal l"
  by (cases l) auto

text \<open>The ordinal line after a source line with the single field \<open>?x\<close>.\<close>

lemma source_then_ordinal:
  assumes nl: "CHR 0x0A \<notin> set s"
    and l0: "parseQueryLine [] [] 0 s = Inr ([l0], [])" "tokenIsSource l0"
    and fld: "filter tokenIsField (chunks l0) = [fld]" "t_alias fld = Some ''x''"
    and fp: "fingerprintSource l0 = Inr fp" "view_fingerprint e fp = Some V" "V \<noteq> []"
      "fingerprint_fields e fp = F # fs" "F \<noteq> []"
    and ids: "\<forall>k. uuid e k \<notin> set Object_prototype"
    and prev: "\<forall>p al vid. Query_prev q = Some p \<longrightarrow> map_of (aliases p) al = Some vid \<longrightarrow>
                 vid \<noteq> [] \<longrightarrow> vid \<notin> set Object_prototype \<and> map_of (variables p) vid \<noteq> None"
  shows "raw q \<noteq> Some (s @ [CHR 0x0A] @ ''# ?r by ?x ascending'') \<Longrightarrow>
         \<exists>q' n' ir src.
           Query_parse e q (s @ [CHR 0x0A] @ ''# ?r by ?x ascending'') n = Inr (q', n') \<and>
           errors q' = [] \<and> reified q' = Some ir \<and> sources ir = [src] \<and>
           sourceView src = V \<and> map field (s_fields src) = [F] \<and>
           map f_alias (s_fields src) = [Some ''x''] \<and>
           s_sort src = Some [\<lparr>ix = 0, sort_field = F, direction = ''ascending''\<rparr>]"
    and "raw q \<noteq> Some (s @ [CHR 0x0A] @ ''# ?r by ?y ascending'') \<Longrightarrow>
         \<exists>q' n'.
           Query_parse e q (s @ [CHR 0x0A] @ ''# ?r by ?y ascending'') n = Inr (q', n') \<and>
           errors q' =
             [ParseError (''Ordinal alias '' @ quote @ ''y'' @ quote @
                '' does not match any aliased fields of the ordinated source.'')] \<and>
           reified q' = None"
proof -
  let ?P = "if reified q \<noteq> None then reified q else prev q"
  define rn where
    "rn = (case ?P of Some p \<Rightarrow> if ir_id p \<noteq> [] then (ir_id p, n) else (uuid e n, Suc n)
           | None \<Rightarrow> (uuid e n, Suc n))"
  let ?ir0 = "\<lparr>ir_id = fst rn, sources = [], aliases = [], variables = [], actions = []\<rparr>"
  have rid: "(fst rn, snd rn) = (case ?P of
                 Some p \<Rightarrow> if ir_id p \<noteq> [] then (ir_id p, n) else (uuid e n, Suc n)
               | None \<Rightarrow> (uuid e n, Suc n))"
    by (simp add: rn_def)
  have P: "Query_prev q = ?P" by (simp add: Query_prev_def)
  have x: "js_key (t_alias fld) \<notin> set Object_prototype"
    using fld(2) by (simp add: js_key_def Object_prototype_def)
  have px: "\<forall>p vid. ?P = Some p \<longrightarrow> map_of (aliases p) (js_key (t_alias fld)) = Some vid \<longrightarrow>
                 vid \<noteq> [] \<longrightarrow> vid \<notin> set Object_prototype \<and> map_of (variables p) vid \<noteq> None"
    using prev unfolding P by blast
  have pr: "\<forall>p vid. ?P = Some p \<longrightarrow> map_of (aliases p) ''r'' = Some vid \<longrightarrow>
                 vid \<noteq> [] \<longrightarrow> vid \<notin> set Object_prototype \<and> map_of (variables p) vid \<noteq> None"
    using prev unfolding P by blast
  have nc: "\<not> tokenIsCalculation l0" "\<not> tokenIsOrdinal l0"
    using source_not_calculation[OF l0(2)] by simp_all
  have e0: "\<forall>v \<in> snd ` set (aliases ?ir0). v \<notin> set Object_prototype" by simp
  {
    fix rw
    from reifySource_single[OF fp fld(1) x ids e0 px, of rw "[]" "snd rn"]
    have "\<exists>irA nA src.
            reifySource e rw ?P l0 ?ir0 [] (snd rn) = Inr (False, irA, [], nA) \<and>
            sources irA = [src] \<and> s_fields src = [\<lparr>field = F, f_grouped = grouped fld,
                 f_alias = Some ''x'', f_value = fvalue fld\<rparr>] \<and>
            sourceView src = V \<and>
            (\<forall>v \<in> snd ` set (aliases irA). v \<notin> set Object_prototype)"
      using fld(2) by auto
  } note srcstep = this
  {
    assume new: "raw q \<noteq> Some (s @ [CHR 0x0A] @ ''# ?r by ?x ascending'')"
    let ?T = "s @ [CHR 0x0A] @ ''# ?r by ?x ascending''"
    let ?ord = "Line KOrdinal (Some (Suc 0)) (Some 0)
             [Keyword (Some 1) ''#'', Text (Some 2) None None '' '',
              Field (Some 3) False (Some ''r'') None, Text (Some 5) None None '' by '',
              Field (Some 8) False (Some ''x'') None, Text (Some 10) None None '' ascending'']
             None (Some ''r'') [Some ''ascending''] None None"
    have sp: "split_lines ?T = [s, ''# ?r by ?x ascending'']"
      using split_lines_append[OF nl, of "''# ?r by ?x ascending''"] split_ordinal by simp
    have lines: "parseQueryLines [] [] 0 (split_lines ?T) = Inr ([l0, ?ord], [])"
      unfolding sp using l0 ordinal_line_accepted[of "[l0]" "[]" "Suc 0"] by simp
    from srcstep[of "Some ?T"] obtain irA nA src where
      a: "reifySource e (Some ?T) ?P l0 ?ir0 [] (snd rn) = Inr (False, irA, [], nA)" and
      sa: "sources irA = [src]" "s_fields src = [\<lparr>field = F, f_grouped = grouped fld,
                 f_alias = Some ''x'', f_value = fvalue fld\<rparr>]" "sourceView src = V" and
      ia: "\<forall>v \<in> snd ` set (aliases irA). v \<notin> set Object_prototype" by blast
    from reifyOrdinal_single(1)[OF sa(1,2) ids ia pr, of "''x''" "Some ?T" "Some (Suc 0)"
        "Some 0" "[]" nA]
    obtain irB nB where
      b: "reifyOrdinal e (Some ?T) ?P ?ord irA [] nA = Inr (False, irB, [], nB)" and
      sb: "sources irB =
             [src\<lparr>ordinal := Some (OrdinalAlias ''r''),
                  s_sort := Some [\<lparr>ix = 0, sort_field = F, direction = ''ascending''\<rparr>]\<rparr>]"
      by auto
    have pass: "reifyLines e (Some ?T) ?P
                 (concat (map (\<lambda>line. if tokenIsCalculation line then chunks line else [line])
                            [l0, ?ord])) ?ir0 [] (snd rn) = Inr (irB, [], nB)"
      using nc l0(2) a b by (simp add: reifyLine_def)
    from Query_parse_with_pass[OF new lines pass rid] obtain q' where
      "Query_parse e q ?T n = Inr (q', nB)" "errors q' = []" "reified q' = Some irB" by auto
    then have "\<exists>q' n' ir src.
           Query_parse e q ?T n = Inr (q', n') \<and>
           errors q' = [] \<and> reified q' = Some ir \<and> sources ir = [src] \<and>
           sourceView src = V \<and> map field (s_fields src) = [F] \<and>
           map f_alias (s_fields src) = [Some ''x''] \<and>
           s_sort src = Some [\<lparr>ix = 0, sort_field = F, direction = ''ascending''\<rparr>]"
      using sb sa by (intro exI[of _ q'] exI[of _ nB] exI[of _ irB]) simp
  }
  then show "raw q \<noteq> Some (s @ [CHR 0x0A] @ ''# ?r by ?x ascending'') \<Longrightarrow>
         \<exists>q' n' ir src.
           Query_parse e q (s @ [CHR 0x0A] @ ''# ?r by ?x ascending'') n = Inr (q', n') \<and>
           errors q' = [] \<and> reified q' = Some ir \<and> sources ir = [src] \<and>
           sourceView src = V \<and> map field (s_fields src) = [F] \<and>
           map f_alias (s_fields src) = [Some ''x''] \<and>
           s_sort src = Some [\<lparr>ix = 0, sort_field = F, direction = ''ascending''\<rparr>]" .
  {
    assume new: "raw q \<noteq> Some (s @ [CHR 0x0A] @ ''# ?r by ?y ascending'')"
    let ?T = "s @ [CHR 0x0A] @ ''# ?r by ?y ascending''"
    let ?ord = "Line KOrdinal (Some (Suc 0)) (Some 0)
             [Keyword (Some 1) ''#'', Text (Some 2) None None '' '',
              Field (Some 3) False (Some ''r'') None, Text (Some 5) None None '' by '',
              Field (Some 8) False (Some ''y'') None, Text (Some 10) None None '' ascending'']
             None (Some ''r'') [Some ''ascending''] None None"
    let ?err = "ParseError (''Ordinal alias '' @ quote @ ''y'' @ quote @
                '' does not match any aliased fields of the ordinated source.'')"
    have sp: "split_lines ?T = [s, ''# ?r by ?y ascending'']"
      using split_lines_append[OF nl, of "''# ?r by ?y ascending''"] split_ordinal_y by simp
    have lines: "parseQueryLines [] [] 0 (split_lines ?T) = Inr ([l0, ?ord], [])"
      unfolding sp using l0 ordinal_y_line_accepted[of "[l0]" "[]" "Suc 0"] by simp
    from srcstep[of "Some ?T"] obtain irA nA src where
      a: "reifySource e (Some ?T) ?P l0 ?ir0 [] (snd rn) = Inr (False, irA, [], nA)" and
      sa: "sources irA = [src]" "s_fields src = [\<lparr>field = F, f_grouped = grouped fld,
                 f_alias = Some ''x'', f_value = fvalue fld\<rparr>]" "sourceView src = V" and
      ia: "\<forall>v \<in> snd ` set (aliases irA). v \<notin> set Object_prototype" by blast
    from reifyOrdinal_single(2)[OF sa(1,2) ids ia pr, of "''y''" ?T "Some (Suc 0)" "Some 0"
        "[]" nA]
    obtain irB nB where
      b: "reifyOrdinal e (Some ?T) ?P ?ord irA [] nA = Inr (False, irB, [?err], nB)"
      by auto
    have pass: "reifyLines e (Some ?T) ?P
                 (concat (map (\<lambda>line. if tokenIsCalculation line then chunks line else [line])
                            [l0, ?ord])) ?ir0 [] (snd rn) = Inr (irB, [?err], nB)"
      using nc l0(2) a b by (simp add: reifyLine_def)
    from Query_parse_with_pass[OF new lines pass rid] obtain q' where
      "Query_parse e q ?T n = Inr (q', nB)" "errors q' = [?err]" "reified q' = None" by auto
    then have "\<exists>q' n'.
           Query_parse e q ?T n = Inr (q', n') \<and> errors q' = [?err] \<and> reified q' = None"
      by blast
  }
  then show "raw q \<noteq> Some (s @ [CHR 0x0A] @ ''# ?r by ?y ascending'') \<Longrightarrow>
         \<exists>q' n'.
           Query_parse e q (s @ [CHR 0x0A] @ ''# ?r by ?y ascending'') n = Inr (q', n') \<and>
           errors q' =
             [ParseError (''Ordinal alias '' @ quote @ ''y'' @ quote @
                '' does not match any aliased fields of the ordinated source.'')] \<and>
           reified q' = None" .
qed


lemma ordinal_alone_lines:
  "parseQueryLines [] [] 0 (split_lines ''# ?r by ?x ascending'') =
     Inr ([], [ParseError ''Ordinal must immediately follow a source.''])"
  by code_simp

lemma ordinal_after_unknown_lines:
  "parseQueryLines [] [] 0 (split_lines (''bar'' @ [CHR 0x0A] @ ''# ?r by ?x ascending'')) =
     Inr ([Line KSource (Some 0) (Some 0) [Text (Some 1) None None ''bar'']
             None None [] None None,
           Line KOrdinal (Some 1) (Some 0)
             [Keyword (Some 1) ''#'', Text (Some 2) None None '' '',
              Field (Some 3) False (Some ''r'') None, Text (Some 5) None None '' by '',
              Field (Some 8) False (Some ''x'') None, Text (Some 10) None None '' ascending'']
             None (Some ''r'') [Some ''ascending''] None None], [])"
  by code_simp

lemma ordinal_alone:
  assumes "raw q \<noteq> Some ''# ?r by ?x ascending''"
  shows "\<exists>q'. Query_parse e q ''# ?r by ?x ascending'' n = Inr (q', n) \<and>
         errors q' = [ParseError ''Ordinal must immediately follow a source.''] \<and>
         reified q' = None \<and> failed q' = failed q"
  unfolding Query_parse_def ordinal_alone_lines
  by (simp only: assms if_False sum.case prod.case Let_def) simp

lemma reifyOrdinal_no_source:
  "sources ir = [] \<Longrightarrow>
   reifyOrdinal e (Some r) p line ir errs n =
     Inr (False, ir, errs @ [ParseError ''Ordinals must follow a valid source.''], n)"
  by (simp add: reifyOrdinal_def)

lemma ordinal_after_unknown:
  assumes nv: "\<not> truthy (view_fingerprint e ''bar'')"
    and new: "raw q \<noteq> Some (''bar'' @ [CHR 0x0A] @ ''# ?r by ?x ascending'')"
  shows "\<exists>q' n' ir. Query_parse e q (''bar'' @ [CHR 0x0A] @ ''# ?r by ?x ascending'') n =
             Inr (q', n') \<and>
           errors q' =
             [ParseError (''Fingerprint '' @ quote @ ''bar'' @ quote @ '' matches no known views.''),
              ParseError ''Ordinals must follow a valid source.''] \<and>
           reified q' = None \<and> failed q' = Some ir \<and> sources ir = []"
proof -
  let ?T = "''bar'' @ [CHR 0x0A] @ ''# ?r by ?x ascending''"
  let ?P = "if reified q \<noteq> None then reified q else prev q"
  define rn where
    "rn = (case ?P of Some p \<Rightarrow> if ir_id p \<noteq> [] then (ir_id p, n) else (uuid e n, Suc n)
           | None \<Rightarrow> (uuid e n, Suc n))"
  let ?ir0 = "\<lparr>ir_id = fst rn, sources = [], aliases = [], variables = [], actions = []\<rparr>"
  let ?errs = "[ParseError (''Fingerprint '' @ quote @ ''bar'' @ quote @ '' matches no known views.''),
              ParseError ''Ordinals must follow a valid source.'']"
  have pass: "reifyLines e (Some ?T) ?P
                 (concat (map (\<lambda>line. if tokenIsCalculation line then chunks line else [line])
                   [Line KSource (Some 0) (Some 0) [Text (Some 1) None None ''bar'']
                      None None [] None None,
                    Line KOrdinal (Some 1) (Some 0)
                      [Keyword (Some 1) ''#'', Text (Some 2) None None '' '',
                       Field (Some 3) False (Some ''r'') None, Text (Some 5) None None '' by '',
                       Field (Some 8) False (Some ''x'') None,
                       Text (Some 10) None None '' ascending'']
                      None (Some ''r'') [Some ''ascending''] None None]))
                 ?ir0 [] (snd rn) = Inr (?ir0, ?errs, snd rn)"
    using nv
    by (simp add: reifyLine_def reifySource_def fingerprintSource_def padding_of_def
        reifyOrdinal_def)
  have rid: "(fst rn, snd rn) = (case ?P of
                 Some p \<Rightarrow> if ir_id p \<noteq> [] then (ir_id p, n) else (uuid e n, Suc n)
               | None \<Rightarrow> (uuid e n, Suc n))"
    by (simp add: rn_def)
  from Query_parse_with_pass[OF new ordinal_after_unknown_lines pass rid]
  show ?thesis by auto
qed

lemma example_ids: "uuid example_env k \<notin> set Object_prototype"
  by (simp add: example_env_def Object_prototype_def)

text \<open>
  Claim C6, amended in its second part only. For every Query whose previous IR, if it
  has one, keeps a variable for each of its aliases, a store in which the fingerprint of
  the source line has a view \<open>V\<close> and a first field \<open>F\<close>, and identifiers that are no
  property of \<open>Object.prototype\<close>: the line \<open># ?r by ?x ascending\<close> after any source
  line whose only field is aliased \<open>x\<close> parses and reifies without error, and the sort list of that source is the single entry
  of rank 0, field \<open>F\<close> and direction \<open>ascending\<close>; the line \<open># ?r by ?y ascending\<close>
  after the same source line fails with the error that \<open>y\<close> does not match any aliased
  fields. The line \<open># ?r by ?x ascending\<close> with no source line right before it is
  refused by \<open>parse\<close> itself, with "Ordinal must immediately follow a source.", and
  nothing is reified; alone in the text, that is the one error of the Query. "Ordinals
  must follow a valid source." is the reifier's error for an ordinal line that it meets
  while the IR has no source yet, as in the text of the two lines \<open>bar\<close> and
  \<open># ?r by ?x ascending\<close> when no view has the fingerprint \<open>bar\<close>.
\<close>

theorem ordinal_validation:
  "(CHR 0x0A \<notin> set s \<and> parseQueryLine [] [] 0 s = Inr ([l0], []) \<and> tokenIsSource l0 \<and>
    filter tokenIsField (chunks l0) = [fld] \<and> t_alias fld = Some ''x'' \<and>
    fingerprintSource l0 = Inr fp \<and> view_fingerprint e fp = Some V \<and> V \<noteq> [] \<and>
    fingerprint_fields e fp = F # fs \<and> F \<noteq> [] \<and>
    (\<forall>k. uuid e k \<notin> set Object_prototype) \<and>
    (\<forall>p al vid. Query_prev q = Some p \<longrightarrow> map_of (aliases p) al = Some vid \<longrightarrow> vid \<noteq> [] \<longrightarrow>
       vid \<notin> set Object_prototype \<and> map_of (variables p) vid \<noteq> None) \<longrightarrow>
      (raw q \<noteq> Some (s @ [CHR 0x0A] @ ''# ?r by ?x ascending'') \<longrightarrow>
       (\<exists>q' n' ir src.
          Query_parse e q (s @ [CHR 0x0A] @ ''# ?r by ?x ascending'') n = Inr (q', n') \<and>
          errors q' = [] \<and> reified q' = Some ir \<and> sources ir = [src] \<and>
          sourceView src = V \<and> map field (s_fields src) = [F] \<and>
          map f_alias (s_fields src) = [Some ''x''] \<and>
          s_sort src = Some [\<lparr>ix = 0, sort_field = F, direction = ''ascending''\<rparr>])) \<and>
      (raw q \<noteq> Some (s @ [CHR 0x0A] @ ''# ?r by ?y ascending'') \<longrightarrow>
       (\<exists>q' n'.
          Query_parse e q (s @ [CHR 0x0A] @ ''# ?r by ?y ascending'') n = Inr (q', n') \<and>
          errors q' =
            [ParseError (''Ordinal alias '' @ quote @ ''y'' @ quote @
               '' does not match any aliased fields of the ordinated source.'')] \<and>
          reified q' = None))) \<and>
   (cs = [] \<or> \<not> tokenIsSource (last cs) \<longrightarrow>
      parseQueryLine cs errs i ''# ?r by ?x ascending'' =
        Inr (cs, errs @ [ParseError ''Ordinal must immediately follow a source.''])) \<and>
   (raw q0 \<noteq> Some ''# ?r by ?x ascending'' \<longrightarrow>
      (\<exists>q'. Query_parse e0 q0 ''# ?r by ?x ascending'' n0 = Inr (q', n0) \<and>
         errors q' = [ParseError ''Ordinal must immediately follow a source.''] \<and>
         reified q' = None \<and> failed q' = failed q0)) \<and>
   (sources ir1 = [] \<longrightarrow>
      reifyOrdinal e1 (Some r1) p1 line1 ir1 errs1 n1 =
        Inr (False, ir1, errs1 @ [ParseError ''Ordinals must follow a valid source.''], n1)) \<and>
   (\<not> truthy (view_fingerprint e2 ''bar'') \<and>
    raw q2 \<noteq> Some (''bar'' @ [CHR 0x0A] @ ''# ?r by ?x ascending'') \<longrightarrow>
      (\<exists>q' n' ir.
         Query_parse e2 q2 (''bar'' @ [CHR 0x0A] @ ''# ?r by ?x ascending'') n2 = Inr (q', n') \<and>
         errors q' =
           [ParseError (''Fingerprint '' @ quote @ ''bar'' @ quote @ '' matches no known views.''),
            ParseError ''Ordinals must follow a valid source.''] \<and>
         reified q' = None \<and> failed q' = Some ir \<and> sources ir = []))"
  using source_then_ordinal[of s l0 fld fp e V F fs q n] ordinal_line_refused[of cs errs i]
    ordinal_alone[of q0 e0 n0] reifyOrdinal_no_source[of ir1 e1 r1 p1 line1 errs1 n1]
    ordinal_after_unknown[of e2 q2 n2]
  by blast

lemma example_env_facts:
  "view_fingerprint example_env ''foo ?'' = Some ''V''"
  "fingerprint_fields example_env ''foo ?'' = [''F'']"
  "\<not> truthy (view_fingerprint example_env ''bar'')"
  by (simp_all add: example_env_def truthy_def)

lemma example_source_line:
  "parseQueryLine [] [] 0 ''foo ?x'' =
     Inr ([Line KSource (Some 0) (Some 0)
             [Text (Some 1) None None ''foo '', Field (Some 3) False (Some ''x'') None]
             None None [] None None], [])"
  "fingerprintSource (Line KSource (Some 0) (Some 0)
             [Text (Some 1) None None ''foo '', Field (Some 3) False (Some ''x'') None]
             None None [] None None) = Inr ''foo ?''"
  by code_simp+

lemma example_query_prev:
  "Query_prev example_query =
     Some \<lparr>ir_id = ''u0'',
            sources =
              [\<lparr>source = ''u1'', sourceView = ''V'',
                s_fields = [\<lparr>field = ''F'', f_grouped = False, f_alias = Some ''x'',
                             f_value = None\<rparr>],
                s_negated = None, chunked = False, s_sort = None, ordinal = None,
                s_lineIx = Some 0\<rparr>],
            aliases = [(''x'', ''u2'')],
            variables =
              [(''u2'', \<lparr>selected = Some ''u3'', v_alias = Some ''x'', v_value = None,
                         ordinals = None, bindings = [(''u1'', ''F'')]\<rparr>)],
            actions = []\<rparr>"
  "raw example_query = Some ''foo ?x''"
  by code_simp+

theorem ordinal_validation_witness:
  "CHR 0x0A \<notin> set ''foo ?x'' \<and>
   parseQueryLine [] [] 0 ''foo ?x'' =
     Inr ([Line KSource (Some 0) (Some 0)
             [Text (Some 1) None None ''foo '', Field (Some 3) False (Some ''x'') None]
             None None [] None None], []) \<and>
   fingerprintSource (Line KSource (Some 0) (Some 0)
             [Text (Some 1) None None ''foo '', Field (Some 3) False (Some ''x'') None]
             None None [] None None) = Inr ''foo ?'' \<and>
   view_fingerprint example_env ''foo ?'' = Some ''V'' \<and>
   fingerprint_fields example_env ''foo ?'' = [''F''] \<and>
   \<not> truthy (view_fingerprint example_env ''bar'') \<and>
   Query_prev (new_Query None) = None \<and>
   (\<exists>q' n' ir src.
      Query_parse example_env (new_Query None)
        (''foo ?x'' @ [CHR 0x0A] @ ''# ?r by ?x ascending'') 0 = Inr (q', n') \<and>
      errors q' = [] \<and> reified q' = Some ir \<and> sources ir = [src] \<and>
      sourceView src = ''V'' \<and> map field (s_fields src) = [''F''] \<and>
      map f_alias (s_fields src) = [Some ''x''] \<and>
      s_sort src = Some [\<lparr>ix = 0, sort_field = ''F'', direction = ''ascending''\<rparr>]) \<and>
   (\<exists>q' n'.
      Query_parse example_env (new_Query None)
        (''foo ?x'' @ [CHR 0x0A] @ ''# ?r by ?y ascending'') 0 = Inr (q', n') \<and>
      errors q' =
        [ParseError (''Ordinal alias '' @ quote @ ''y'' @ quote @
           '' does not match any aliased fields of the ordinated source.'')] \<and>
      reified q' = None) \<and>
   (\<exists>p. Query_prev example_query = Some p \<and> aliases p = [(''x'', ''u2'')] \<and>
      map fst (variables p) = [''u2'']) \<and>
   raw example_query = Some ''foo ?x'' \<and>
   (\<exists>q' n' ir src.
      Query_parse example_env example_query
        (''foo ?x'' @ [CHR 0x0A] @ ''# ?r by ?x ascending'') 4 = Inr (q', n') \<and>
      errors q' = [] \<and> reified q' = Some ir \<and> sources ir = [src] \<and>
      sourceView src = ''V'' \<and> map field (s_fields src) = [''F''] \<and>
      map f_alias (s_fields src) = [Some ''x''] \<and>
      s_sort src = Some [\<lparr>ix = 0, sort_field = ''F'', direction = ''ascending''\<rparr>]) \<and>
   (\<exists>q' n'.
      Query_parse example_env example_query
        (''foo ?x'' @ [CHR 0x0A] @ ''# ?r by ?y ascending'') 4 = Inr (q', n') \<and>
      errors q' =
        [ParseError (''Ordinal alias '' @ quote @ ''y'' @ quote @
           '' does not match any aliased fields of the ordinated source.'')] \<and>
      reified q' = None) \<and>
   parseQueryLine [] [] 0 ''# ?r by ?x ascending'' =
     Inr ([], [ParseError ''Ordinal must immediately follow a source.'']) \<and>
   (\<exists>q'. Query_parse example_env (new_Query None) ''# ?r by ?x ascending'' 0 = Inr (q', 0) \<and>
      errors q' = [ParseError ''Ordinal must immediately follow a source.''] \<and>
      reified q' = None \<and> failed q' = None) \<and>
   reifyOrdinal example_env (Some ''# ?r'') None (Line KOrdinal None None [] None None [] None None)
       \<lparr>ir_id = ''u0'', sources = [], aliases = [], variables = [], actions = []\<rparr> [] 1 =
     Inr (False, \<lparr>ir_id = ''u0'', sources = [], aliases = [], variables = [], actions = []\<rparr>,
          [ParseError ''Ordinals must follow a valid source.''], 1) \<and>
   (\<exists>q' n' ir.
      Query_parse example_env (new_Query None)
        (''bar'' @ [CHR 0x0A] @ ''# ?r by ?x ascending'') 0 = Inr (q', n') \<and>
      errors q' =
        [ParseError (''Fingerprint '' @ quote @ ''bar'' @ quote @ '' matches no known views.''),
         ParseError ''Ordinals must follow a valid source.''] \<and>
      reified q' = None \<and> failed q' = Some ir \<and> sources ir = [])"
proof -
  have hp: "\<forall>p al vid. Query_prev example_query = Some p \<longrightarrow> map_of (aliases p) al = Some vid \<longrightarrow>
              vid \<noteq> [] \<longrightarrow> vid \<notin> set Object_prototype \<and> map_of (variables p) vid \<noteq> None"
    unfolding example_query_prev(1)
    by (auto simp: Object_prototype_def split: if_splits)
  have hn: "Query_prev (new_Query None) = None" by (simp add: Query_prev_def new_Query_def)
  note a = ordinal_validation[of "''foo ?x''"
      "Line KSource (Some 0) (Some 0)
             [Text (Some 1) None None ''foo '', Field (Some 3) False (Some ''x'') None]
             None None [] None None"
      "Field (Some 3) False (Some ''x'') None" "''foo ?''" example_env "''V''" "''F''" "[]"
      "new_Query None" 0 "[]" "[]" 0 "new_Query None" example_env 0
      "\<lparr>ir_id = ''u0'', sources = [], aliases = [], variables = [], actions = []\<rparr>"
      example_env "''# ?r''" None "Line KOrdinal None None [] None None [] None None" "[]" 1
      example_env "new_Query None" 0]
  note b = ordinal_validation[of "''foo ?x''"
      "Line KSource (Some 0) (Some 0)
             [Text (Some 1) None None ''foo '', Field (Some 3) False (Some ''x'') None]
             None None [] None None"
      "Field (Some 3) False (Some ''x'') None" "''foo ?''" example_env "''V''" "''F''" "[]"
      example_query 4 "[]" "[]" 0 "new_Query None" example_env 0
      "\<lparr>ir_id = ''u0'', sources = [], aliases = [], variables = [], actions = []\<rparr>"
      example_env "''# ?r''" None "Line KOrdinal None None [] None None [] None None" "[]" 1
      example_env "new_Query None" 0]
  have 1: "(\<exists>q' n' ir src.
      Query_parse example_env example_query
        (''foo ?x'' @ [CHR 0x0A] @ ''# ?r by ?x ascending'') 4 = Inr (q', n') \<and>
      errors q' = [] \<and> reified q' = Some ir \<and> sources ir = [src] \<and>
      sourceView src = ''V'' \<and> map field (s_fields src) = [''F''] \<and>
      map f_alias (s_fields src) = [Some ''x''] \<and>
      s_sort src = Some [\<lparr>ix = 0, sort_field = ''F'', direction = ''ascending''\<rparr>]) \<and>
   (\<exists>q' n'.
      Query_parse example_env example_query
        (''foo ?x'' @ [CHR 0x0A] @ ''# ?r by ?y ascending'') 4 = Inr (q', n') \<and>
      errors q' =
        [ParseError (''Ordinal alias '' @ quote @ ''y'' @ quote @
           '' does not match any aliased fields of the ordinated source.'')] \<and>
      reified q' = None)"
    using b hp example_env_facts example_source_line example_ids example_query_prev(2)
    by simp
  have 2: "\<exists>p. Query_prev example_query = Some p \<and> aliases p = [(''x'', ''u2'')] \<and>
      map fst (variables p) = [''u2'']"
    unfolding example_query_prev(1) by simp
  show ?thesis
    using a hn 1 2 example_env_facts example_source_line example_ids example_query_prev(2)
    by (simp add: new_Query_def)
qed

text \<open>
  Claim C6, as stated, has the line \<open># ?r by ?x ascending\<close> with no source line before
  it fail with the "must follow a valid source" error. \<open>parse\<close> reports another one and
  does not reify.
\<close>

theorem ordinal_alone_message:
  "case Query_parse example_env (new_Query None) ''# ?r by ?x ascending'' 0 of
     Inl f \<Rightarrow> False
   | Inr (q', n') \<Rightarrow>
       errors q' = [ParseError ''Ordinal must immediately follow a source.''] \<and>
       errors q' \<noteq> [ParseError ''Ordinals must follow a valid source.'']"
  by code_simp

section \<open>Errors and the reified IR\<close>

lemma Query_parse_outcome:
  assumes new: "raw q \<noteq> Some str"
    and lines: "parseQueryLines [] [] 0 (split_lines str) = Inr (cs, errs)"
    and ret: "Query_parse e q str n = Inr (q', n')"
    and bad: "errors q' \<noteq> []"
  shows "reified q' = None \<and> raw q' = Some str \<and>
         (errs \<noteq> [] \<longrightarrow> errors q' = errs \<and> failed q' = failed q \<and> n' = n) \<and>
         (errs = [] \<longrightarrow>
            (\<exists>ir. Query_pass e
                     (q\<lparr>errors := [], raw := Some str,
                        ast := Some (Line KQuery None None cs None None [] None None),
                        prev := Query_prev q, reified := None\<rparr>)
                     (Line KQuery None None cs None None [] None None) n =
                       Inr (ir, errors q', n') \<and>
                   failed q' = Some ir))"
proof (cases "errs = []")
  case False
  have "Query_parse e q str n =
          Inr (q\<lparr>errors := errs, raw := Some str,
                 ast := Some (Line KQuery None None cs None None [] None None),
                 prev := (if reified q \<noteq> None then reified q else prev q),
                 reified := None\<rparr>, n)"
    unfolding Query_parse_def Let_def lines
    by (simp only: new False if_False sum.case prod.case)
  then show ?thesis using ret False by auto
next
  case True
  define q1 where
    "q1 = q\<lparr>errors := [], raw := Some str,
            ast := Some (Line KQuery None None cs None None [] None None),
            prev := Query_prev q, reified := None\<rparr>"
  have qp: "Query_parse e q str n = Query_reify e q1 n"
    unfolding Query_parse_def Let_def lines q1_def Query_prev_def True
    by (simp only: new if_False sum.case prod.case) simp
  have a: "ast q1 = Some (Line KQuery None None cs None None [] None None)"
    by (simp add: q1_def)
  have r: "Query_reify e q1 n = Inr (q', n')" using ret qp by simp
  obtain ir errs2 n2 where
    ps: "Query_pass e q1 (Line KQuery None None cs None None [] None None) n =
           Inr (ir, errs2, n2)"
    using r unfolding Query_reify_def a
    by (cases "Query_pass e q1 (Line KQuery None None cs None None [] None None) n") auto
  have "errs2 \<noteq> []"
    using r bad unfolding Query_reify_def a by (auto simp: ps split: if_splits)
  then have "q' = q1\<lparr>prev := Query_prev q1, reified := None, failed := Some ir, errors := errs2\<rparr>"
    "n' = n2"
    using r unfolding Query_reify_def a by (auto simp: ps)
  then show ?thesis using True ps unfolding q1_def[symmetric] by (simp add: q1_def)
qed

lemma dangling_lines:
  "parseQueryLines [] [] 0 (split_lines ''foo $= (bar + )'') =
     Inr ([Line KSource (Some 0) (Some 0)
             [Text (Some 1) None None ''foo '', Keyword (Some 3) ''$='',
              Text (Some 4) None None '' '', Keyword (Some 5) ''('',
              Text (Some 6) None None ''bar '', Keyword (Some 8) ''+'',
              Text (Some 9) None None '' '', Keyword (Some 10) '')'']
             None None [] None None], [])"
  by code_simp

lemma dangling_unknown:
  assumes nv: "\<not> truthy (view_fingerprint e ''foo $= (bar + )'')"
    and new: "raw q \<noteq> Some ''foo $= (bar + )''"
  shows "\<exists>q' n' ir. Query_parse e q ''foo $= (bar + )'' n = Inr (q', n') \<and>
           errors q' = [ParseError (''Fingerprint '' @ quote @ ''foo $= (bar + )'' @ quote @
                          '' matches no known views.'')] \<and>
           reified q' = None \<and> failed q' = Some ir \<and>
           sources ir = [] \<and> aliases ir = [] \<and> variables ir = [] \<and> actions ir = []"
proof -
  let ?T = "''foo $= (bar + )''"
  let ?P = "if reified q \<noteq> None then reified q else prev q"
  define rn where
    "rn = (case ?P of Some p \<Rightarrow> if ir_id p \<noteq> [] then (ir_id p, n) else (uuid e n, Suc n)
           | None \<Rightarrow> (uuid e n, Suc n))"
  let ?ir0 = "\<lparr>ir_id = fst rn, sources = [], aliases = [], variables = [], actions = []\<rparr>"
  let ?errs = "[ParseError (''Fingerprint '' @ quote @ ''foo $= (bar + )'' @ quote @
                          '' matches no known views.'')]"
  have pass: "reifyLines e (Some ?T) ?P
                 (concat (map (\<lambda>line. if tokenIsCalculation line then chunks line else [line])
                   [Line KSource (Some 0) (Some 0)
                      [Text (Some 1) None None ''foo '', Keyword (Some 3) ''$='',
                       Text (Some 4) None None '' '', Keyword (Some 5) ''('',
                       Text (Some 6) None None ''bar '', Keyword (Some 8) ''+'',
                       Text (Some 9) None None '' '', Keyword (Some 10) '')'']
                      None None [] None None]))
                 ?ir0 [] (snd rn) = Inr (?ir0, ?errs, snd rn)"
    using nv
    by (simp add: reifyLine_def reifySource_def fingerprintSource_def padding_of_def)
  have rid: "(fst rn, snd rn) = (case ?P of
                 Some p \<Rightarrow> if ir_id p \<noteq> [] then (ir_id p, n) else (uuid e n, Suc n)
               | None \<Rightarrow> (uuid e n, Suc n))"
    by (simp add: rn_def)
  from Query_parse_with_pass[OF new dangling_lines pass rid]
  show ?thesis by auto
qed

text \<open>
  Claim C2, amended. Whenever \<open>parse\<close> of a new text returns with a non-empty error
  list, \<open>reified\<close> is unset. When the errors are those of the lines themselves, \<open>parse\<close>
  does not reify, and \<open>failed\<close> is what it was before. When the lines parse without
  error, the errors are those of the reification pass, and \<open>failed\<close> is the IR that this
  pass has built: every source, alias and variable that it reified before and after the
  errors. The input \<open>foo $= (bar + )\<close> is not a calculation (its \<open>$=\<close> is the second
  chunk of the line, not the third) but a source line, and parses without error; when no
  view has its fingerprint, the reification records that, \<open>reified\<close> is unset and
  \<open>failed\<close> holds the IR built so far, which has no sources, aliases, variables or
  actions.
\<close>

theorem reified_unset_on_errors:
  "(raw q \<noteq> Some str \<and> parseQueryLines [] [] 0 (split_lines str) = Inr (cs, errs) \<and>
    Query_parse e q str n = Inr (q', n') \<and> errors q' \<noteq> [] \<longrightarrow>
      reified q' = None \<and> raw q' = Some str \<and>
      (errs \<noteq> [] \<longrightarrow> errors q' = errs \<and> failed q' = failed q \<and> n' = n) \<and>
      (errs = [] \<longrightarrow>
         (\<exists>ir. Query_pass e
                  (q\<lparr>errors := [], raw := Some str,
                     ast := Some (Line KQuery None None cs None None [] None None),
                     prev := Query_prev q, reified := None\<rparr>)
                  (Line KQuery None None cs None None [] None None) n =
                    Inr (ir, errors q', n') \<and>
                failed q' = Some ir))) \<and>
   (\<not> truthy (view_fingerprint e0 ''foo $= (bar + )'') \<and> raw q0 \<noteq> Some ''foo $= (bar + )'' \<longrightarrow>
      (\<exists>q'' n'' ir.
         Query_parse e0 q0 ''foo $= (bar + )'' n0 = Inr (q'', n'') \<and>
         errors q'' = [ParseError (''Fingerprint '' @ quote @ ''foo $= (bar + )'' @ quote @
                         '' matches no known views.'')] \<and>
         reified q'' = None \<and> failed q'' = Some ir \<and>
         sources ir = [] \<and> aliases ir = [] \<and> variables ir = [] \<and> actions ir = []))"
  using Query_parse_outcome[of q str cs errs e n q' n'] dangling_unknown[of e0 q0 n0]
  by blast

lemma partial_parse:
  "Query_parse example_env (new_Query None) (''foo ?x'' @ [CHR 0x0A] @ ''bar'') 0 =
     Inr (partial_query, 4)"
  by code_simp

lemma partial_lines:
  "parseQueryLines [] [] 0 (split_lines (''foo ?x'' @ [CHR 0x0A] @ ''bar'')) =
     Inr ([Line KSource (Some 0) (Some 0)
             [Text (Some 1) None None ''foo '', Field (Some 3) False (Some ''x'') None]
             None None [] None None,
           Line KSource (Some 1) (Some 0)
             [Text (Some 1) None None ''bar''] None None [] None None], [])"
  by code_simp

lemma unterminated_lines:
  "parseQueryLines [] [] 0 (split_lines ''`abc'') =
     Inr ([], [ParseError ''Unterminated quoted literal.''])"
  by code_simp

lemma unterminated_parse:
  "Query_parse example_env (new_Query None) ''`abc'' 0 =
     Inr ((new_Query None)\<lparr>errors := [ParseError ''Unterminated quoted literal.''],
            raw := Some ''`abc'',
            ast := Some (Line KQuery None None [] None None [] None None)\<rparr>, 0)"
  by code_simp


lemma partial_query_fields:
  "errors partial_query =
     [ParseError (''Fingerprint '' @ quote @ ''bar'' @ quote @ '' matches no known views.'')]"
  "reified partial_query = None"
  "raw partial_query = Some (''foo ?x'' @ [CHR 0x0A] @ ''bar'')"
  "failed partial_query = Some
            \<lparr>ir_id = ''u0'',
               sources =
                 [\<lparr>source = ''u1'', sourceView = ''V'',
                     s_fields =
                       [\<lparr>field = ''F'', f_grouped = False,
                           f_alias = Some ''x'', f_value = None\<rparr>],
                     s_negated = None, chunked = False, s_sort = None,
                     ordinal = None, s_lineIx = Some 0\<rparr>],
               aliases = [(''x'', ''u2'')],
               variables =
                 [(''u2'',
                   \<lparr>selected = Some ''u3'', v_alias = Some ''x'',
                      v_value = None, ordinals = None,
                      bindings = [(''u1'', ''F'')]\<rparr>)],
               actions = []\<rparr>"
  by (simp_all add: partial_query_def)

theorem reified_unset_on_errors_witness:
  "raw (new_Query None) \<noteq> Some (''foo ?x'' @ [CHR 0x0A] @ ''bar'') \<and>
   parseQueryLines [] [] 0 (split_lines (''foo ?x'' @ [CHR 0x0A] @ ''bar'')) =
     Inr ([Line KSource (Some 0) (Some 0)
             [Text (Some 1) None None ''foo '', Field (Some 3) False (Some ''x'') None]
             None None [] None None,
           Line KSource (Some 1) (Some 0)
             [Text (Some 1) None None ''bar''] None None [] None None], []) \<and>
   Query_parse example_env (new_Query None) (''foo ?x'' @ [CHR 0x0A] @ ''bar'') 0 =
     Inr (partial_query, 4) \<and>
   errors partial_query \<noteq> [] \<and> reified partial_query = None \<and>
   (\<exists>ir. Query_pass example_env
           ((new_Query None)\<lparr>errors := [], raw := Some (''foo ?x'' @ [CHR 0x0A] @ ''bar''),
              ast := Some (Line KQuery None None
                [Line KSource (Some 0) (Some 0)
                   [Text (Some 1) None None ''foo '', Field (Some 3) False (Some ''x'') None]
                   None None [] None None,
                 Line KSource (Some 1) (Some 0)
                   [Text (Some 1) None None ''bar''] None None [] None None]
                None None [] None None),
              prev := Query_prev (new_Query None), reified := None\<rparr>)
           (Line KQuery None None
                [Line KSource (Some 0) (Some 0)
                   [Text (Some 1) None None ''foo '', Field (Some 3) False (Some ''x'') None]
                   None None [] None None,
                 Line KSource (Some 1) (Some 0)
                   [Text (Some 1) None None ''bar''] None None [] None None]
                None None [] None None) 0 =
             Inr (ir, errors partial_query, 4) \<and>
         failed partial_query = Some ir \<and>
         map source (sources ir) = [''u1''] \<and> aliases ir = [(''x'', ''u2'')]) \<and>
   raw (new_Query None) \<noteq> Some ''`abc'' \<and>
   parseQueryLines [] [] 0 (split_lines ''`abc'') =
     Inr ([], [ParseError ''Unterminated quoted literal.'']) \<and>
   (\<exists>q'. Query_parse example_env (new_Query None) ''`abc'' 0 = Inr (q', 0) \<and>
      errors q' = [ParseError ''Unterminated quoted literal.''] \<and>
      reified q' = None \<and> failed q' = failed (new_Query None)) \<and>
   \<not> truthy (view_fingerprint example_env ''foo $= (bar + )'') \<and>
   (\<exists>q'' n'' ir.
      Query_parse example_env (new_Query None) ''foo $= (bar + )'' 0 = Inr (q'', n'') \<and>
      errors q'' = [ParseError (''Fingerprint '' @ quote @ ''foo $= (bar + )'' @ quote @
                      '' matches no known views.'')] \<and>
      reified q'' = None \<and> failed q'' = Some ir \<and>
      sources ir = [] \<and> aliases ir = [] \<and> variables ir = [] \<and> actions ir = [])"
proof -
  have r: "raw (new_Query None) \<noteq> Some (''foo ?x'' @ [CHR 0x0A] @ ''bar'')"
    "raw (new_Query None) \<noteq> Some ''`abc''" "raw (new_Query None) \<noteq> Some ''foo $= (bar + )''"
    by (simp_all add: new_Query_def)
  have t: "\<not> truthy (view_fingerprint example_env ''foo $= (bar + )'')"
    by (simp add: example_env_def truthy_def)
  note a = reified_unset_on_errors[of "new_Query None" "''foo ?x'' @ [CHR 0x0A] @ ''bar''"
      "[Line KSource (Some 0) (Some 0)
             [Text (Some 1) None None ''foo '', Field (Some 3) False (Some ''x'') None]
             None None [] None None,
           Line KSource (Some 1) (Some 0)
             [Text (Some 1) None None ''bar''] None None [] None None]" "[]"
      example_env 0 partial_query 4 example_env "new_Query None" 0]
  note b = reified_unset_on_errors[of "new_Query None" "''`abc''" "[]"
      "[ParseError ''Unterminated quoted literal.'']" example_env 0
      "(new_Query None)\<lparr>errors := [ParseError ''Unterminated quoted literal.''],
            raw := Some ''`abc'',
            ast := Some (Line KQuery None None [] None None [] None None)\<rparr>" 0
      example_env "new_Query None" 0]
  have e: "errors partial_query \<noteq> []" by (simp add: partial_query_fields)
  from a r t partial_parse partial_lines e
  have 1: "\<exists>ir. Query_pass example_env
           ((new_Query None)\<lparr>errors := [], raw := Some (''foo ?x'' @ [CHR 0x0A] @ ''bar''),
              ast := Some (Line KQuery None None
                [Line KSource (Some 0) (Some 0)
                   [Text (Some 1) None None ''foo '', Field (Some 3) False (Some ''x'') None]
                   None None [] None None,
                 Line KSource (Some 1) (Some 0)
                   [Text (Some 1) None None ''bar''] None None [] None None]
                None None [] None None),
              prev := Query_prev (new_Query None), reified := None\<rparr>)
           (Line KQuery None None
                [Line KSource (Some 0) (Some 0)
                   [Text (Some 1) None None ''foo '', Field (Some 3) False (Some ''x'') None]
                   None None [] None None,
                 Line KSource (Some 1) (Some 0)
                   [Text (Some 1) None None ''bar''] None None [] None None]
                None None [] None None) 0 =
             Inr (ir, errors partial_query, 4) \<and>
         failed partial_query = Some ir"
    by blast
  then have 2: "\<exists>ir. Query_pass example_env
           ((new_Query None)\<lparr>errors := [], raw := Some (''foo ?x'' @ [CHR 0x0A] @ ''bar''),
              ast := Some (Line KQuery None None
                [Line KSource (Some 0) (Some 0)
                   [Text (Some 1) None None ''foo '', Field (Some 3) False (Some ''x'') None]
                   None None [] None None,
                 Line KSource (Some 1) (Some 0)
                   [Text (Some 1) None None ''bar''] None None [] None None]
                None None [] None None),
              prev := Query_prev (new_Query None), reified := None\<rparr>)
           (Line KQuery None None
                [Line KSource (Some 0) (Some 0)
                   [Text (Some 1) None None ''foo '', Field (Some 3) False (Some ''x'') None]
                   None None [] None None,
                 Line KSource (Some 1) (Some 0)
                   [Text (Some 1) None None ''bar''] None None [] None None]
                None None [] None None) 0 =
             Inr (ir, errors partial_query, 4) \<and>
         failed partial_query = Some ir \<and>
         map source (sources ir) = [''u1''] \<and> aliases ir = [(''x'', ''u2'')]"
    by (auto simp: partial_query_fields(4))
  have 3: "\<exists>q'. Query_parse example_env (new_Query None) ''`abc'' 0 = Inr (q', 0) \<and>
      errors q' = [ParseError ''Unterminated quoted literal.''] \<and>
      reified q' = None \<and> failed q' = failed (new_Query None)"
    using b r(2) unterminated_lines unterminated_parse by simp
  have 4: "\<exists>q'' n'' ir.
      Query_parse example_env (new_Query None) ''foo $= (bar + )'' 0 = Inr (q'', n'') \<and>
      errors q'' = [ParseError (''Fingerprint '' @ quote @ ''foo $= (bar + )'' @ quote @
                      '' matches no known views.'')] \<and>
      reified q'' = None \<and> failed q'' = Some ir \<and>
      sources ir = [] \<and> aliases ir = [] \<and> variables ir = [] \<and> actions ir = []"
    using a r(3) t by blast
  show ?thesis
    using r t partial_parse partial_lines e partial_query_fields(2) 2 3 4 unterminated_lines
    by blast
qed

text \<open>
  Claim C2, as stated, has \<open>failed\<close> hold the partly built structure whenever parse or
  reification ends with errors. The unterminated literal \<open>`abc\<close> is an error of the
  parse, which then never reifies and never assigns \<open>failed\<close>.
\<close>

theorem parse_error_leaves_failed_unset:
  "case Query_parse example_env (new_Query None) ''`abc'' 0 of
     Inl f \<Rightarrow> False
   | Inr (q', n') \<Rightarrow>
       errors q' = [ParseError ''Unterminated quoted literal.''] \<and> reified q' = None \<and>
       failed q' = None"
  by code_simp

section \<open>Errors that are thrown\<close>

text \<open>
  Claim C3 says that parse, with the reification it triggers, records every error as a
  value in the list of errors and returns, and that no input makes it raise an exception
  in place of that. \<open>Ui.reify\<close> throws the error of a static \<open>id\<close> attribute on an
  element that already has a child (the third line of the first text below is indented
  less than \<open>span\<close>, so it belongs to \<open>div\<close>), and \<open>getScopedBinding\<close> throws the error
  of an attribute bound to an alias that the query of an ancestor has but does not
  select (an alias that starts with \<open>_\<close>). Neither \<open>Ui.reify\<close> nor \<open>Ui.parse\<close> has a
  handler: the error leaves \<open>Ui.parse\<close>, which records nothing and does not reach the
  lines that follow.
\<close>

theorem Ui_parse_throws_error_values:
  "Ui_parse example_env (new_Ui None)
     (''div'' @ [CHR 0x0A] @ ''  span'' @ [CHR 0x0A] @ '' - id: `foo`'') 0 =
   Inl (Thrown (ParseError ''ID must be set prior to including child elements.'')) \<and>
   Ui_parse example_env (new_Ui None)
     (''div'' @ [CHR 0x0A] @ ''  ~ foo ?_x'' @ [CHR 0x0A] @ ''  span'' @ [CHR 0x0A] @
      ''    - text: ?_x'') 0 =
   Inl (Thrown (ParseError ''UI Properties can only be bound to selected aliases.''))"
  by code_simp

section \<open>What \<open>Ui.parse\<close> returns\<close>

lemma Ui_reify_fields:
  assumes "Ui_reify e u n = Inr (u', n')"
  shows "u_raw u' = u_raw u \<and> u_ast u' = u_ast u \<and>
         (u_ast u \<noteq> None \<longrightarrow>
            u_prev u' = (if u_reified u \<noteq> None then u_reified u else u_prev u) \<and>
            (u_errors u' = [] \<longleftrightarrow> u_reified u' \<noteq> None))"
proof (cases "u_ast u")
  case None
  then show ?thesis using assms by (simp add: Ui_reify_def)
next
  case (Some ls)
  then show ?thesis using assms
    by (auto simp: Ui_reify_def Ui_prev_def split: sum.splits if_splits)
qed

text \<open>
  Claim C10: \<open>Ui.parse\<close> returns the Ui only on the memoized path, where the text given
  is the cached text, and then leaves the Ui as it is; for a text that differs, whenever
  the call returns it returns \<open>undefined\<close>, after it has set \<open>raw\<close>, \<open>ast\<close>, \<open>prev\<close>,
  \<open>errors\<close> and \<open>reified\<close> of the Ui. (\<open>Query.parse\<close> ends in \<open>return this\<close> on both paths:
  the Query that \<open>Query_parse\<close> gives is the object returned, which is how
  \<open>reifyBinding\<close> uses it. A call that throws returns nothing.)
\<close>

theorem Ui_parse_returned:
  "(u_raw u = Some str \<longrightarrow> Ui_parse e u str n = Inr (u, This, n)) \<and>
   (u_raw u \<noteq> Some str \<longrightarrow>
      (\<forall>u' r n'. Ui_parse e u str n = Inr (u', r, n') \<longrightarrow>
         r = Undefined \<and> u_raw u' = Some str \<and> u_ast u' \<noteq> None \<and>
         u_prev u' = (if u_reified u \<noteq> None then u_reified u else u_prev u) \<and>
         (u_errors u' = [] \<longleftrightarrow> u_reified u' \<noteq> None)))"
proof (intro conjI impI allI)
  assume "u_raw u = Some str"
  then show "Ui_parse e u str n = Inr (u, This, n)" by (simp add: Ui_parse_def)
next
  fix u' r n'
  assume new: "u_raw u \<noteq> Some str" and res: "Ui_parse e u str n = Inr (u', r, n')"
  obtain cs errs where pl: "parseUiLines [] [] 0 (split_lines str) = Inr (cs, errs)"
    using res new by (cases "parseUiLines [] [] 0 (split_lines str)") (auto simp: Ui_parse_def)
  define u1 where
    "u1 = u\<lparr>u_errors := errs, u_raw := Some str, u_ast := Some cs,
            u_prev := (if u_reified u \<noteq> None then u_reified u else u_prev u),
            u_reified := None\<rparr>"
  have unf: "Ui_parse e u str n =
    (if errs = [] then
       (case Ui_reify e u1 n of Inl f \<Rightarrow> Inl f | Inr (u2, n2) \<Rightarrow> Inr (u2, Undefined, n2))
     else Inr (u1, Undefined, n))"
    unfolding Ui_parse_def Let_def u1_def pl
    by (simp only: new if_False sum.case prod.case)
  have "r = Undefined \<and> u_raw u' = Some str \<and> u_ast u' \<noteq> None \<and>
         u_prev u' = (if u_reified u \<noteq> None then u_reified u else u_prev u) \<and>
         (u_errors u' = [] \<longleftrightarrow> u_reified u' \<noteq> None)"
  proof (cases "errs = []")
    case False
    then have "u' = u1 \<and> r = Undefined" using res unfolding unf by simp
    then show ?thesis using False by (simp add: u1_def)
  next
    case True
    then obtain u2 n2 where r2: "Ui_reify e u1 n = Inr (u2, n2)"
      using res unfolding unf by (cases "Ui_reify e u1 n") auto
    then have "u' = u2 \<and> r = Undefined" using res True unfolding unf by simp
    then show ?thesis using Ui_reify_fields[OF r2] by (simp add: u1_def)
  qed
  then show "r = Undefined" "u_raw u' = Some str" "u_ast u' \<noteq> None"
    "u_prev u' = (if u_reified u \<noteq> None then u_reified u else u_prev u)"
    "(u_errors u' = []) = (u_reified u' \<noteq> None)" by simp_all
qed

lemma example_ui_parse:
  "\<exists>u' n'. Ui_parse example_env (new_Ui None) example_ui_text 0 = Inr (u', Undefined, n') \<and>
     u_errors u' = [] \<and> u_raw u' = Some example_ui_text"
proof -
  have "case Ui_parse example_env (new_Ui None) example_ui_text 0 of
          Inl f \<Rightarrow> False
        | Inr (u', r, n') \<Rightarrow> r = Undefined \<and> u_errors u' = [] \<and> u_raw u' = Some example_ui_text"
    by code_simp
  then show ?thesis by (auto split: sum.splits)
qed

theorem Ui_parse_returned_witness:
  "u_raw ((new_Ui None)\<lparr>u_raw := Some ''div''\<rparr>) = Some ''div'' \<and>
   Ui_parse example_env ((new_Ui None)\<lparr>u_raw := Some ''div''\<rparr>) ''div'' 0 =
     Inr ((new_Ui None)\<lparr>u_raw := Some ''div''\<rparr>, This, 0) \<and>
   u_raw (new_Ui None) \<noteq> Some example_ui_text \<and>
   (\<exists>u' n'. Ui_parse example_env (new_Ui None) example_ui_text 0 = Inr (u', Undefined, n') \<and>
      u_errors u' = [] \<and> u_raw u' = Some example_ui_text \<and> u_ast u' \<noteq> None \<and>
      u_reified u' \<noteq> None)"
proof -
  have a: "u_raw ((new_Ui None)\<lparr>u_raw := Some ''div''\<rparr>) = Some ''div''" by simp
  have b: "u_raw (new_Ui None) \<noteq> Some example_ui_text" by (simp add: new_Ui_def)
  from example_ui_parse obtain u' n' where
    p: "Ui_parse example_env (new_Ui None) example_ui_text 0 = Inr (u', Undefined, n')"
    "u_errors u' = []" "u_raw u' = Some example_ui_text" by blast
  from Ui_parse_returned[of "(new_Ui None)\<lparr>u_raw := Some ''div''\<rparr>" "''div''" example_env 0] a
  have m: "Ui_parse example_env ((new_Ui None)\<lparr>u_raw := Some ''div''\<rparr>) ''div'' 0 =
             Inr ((new_Ui None)\<lparr>u_raw := Some ''div''\<rparr>, This, 0)" by blast
  from Ui_parse_returned[of "new_Ui None" example_ui_text example_env 0] b p(1)
  have "u_ast u' \<noteq> None \<and> (u_errors u' = [] \<longleftrightarrow> u_reified u' \<noteq> None)" by blast
  then show ?thesis using a b m p by blast
qed

section \<open>The tree of elements\<close>

subsection \<open>The structure that a line leaves\<close>


lemma skeleton_fields [simp]:
  "skeleton (s\<lparr>p_errors := x\<rparr>) = skeleton s"
  "skeleton (s\<lparr>p_next := y\<rparr>) = skeleton s"
  "skeleton (s\<lparr>p_boundQueries := z\<rparr>) = skeleton s"
  "skeleton (s\<lparr>p_ancestors := w\<rparr>) = skeleton s"
  "skeleton (s\<lparr>p_childCount := v\<rparr>) = skeleton s"
  by (simp_all add: skeleton_def)




subsection \<open>The nearest open element\<close>





subsection \<open>The stack of ancestors\<close>





subsection \<open>One line of the pass\<close>










subsection \<open>The identifiers during the pass\<close>




subsection \<open>The invariant along the pass\<close>



subsection \<open>Acyclic links\<close>



subsection \<open>The tree after a pass without errors\<close>

text \<open>In a document whose lines are elements, comments and blank lines only, the
  nearest open element is the nearest preceding element of lower indent.\<close>

lemma nearest_open_elements_only:
  "list_all (\<lambda>l. uiSignificant l \<longrightarrow> uiIsElement l) before \<Longrightarrow>
   nearest_open m before = nearest_lower m before"
proof (induction before arbitrary: m)
  case Nil
  then show ?case by simp
next
  case (Cons l before)
  have ne: "\<not> uiSignificant l \<Longrightarrow> \<not> uiIsElement l" by (cases l) auto
  have "min m (ui_indent l) = m" if "\<not> ui_indent l < m" using that by simp
  then show ?case using Cons ne by auto
qed





text \<open>
  A line that is not an element closes the elements that are not indented less than it is,
  as an element does. Below, the attribute belongs to \<open>div\<close> and closes \<open>span\<close>: the parent
  of \<open>p\<close> is \<open>div\<close>, the nearest element that is still open, and not \<open>span\<close>, the nearest
  preceding element of lower indent.
\<close>

lemma closing_ui_parse:
  "case Ui_parse example_env (new_Ui None) closing_ui_text 0 of
     Inl f \<Rightarrow> False
   | Inr (u', r, n') \<Rightarrow>
       u_errors u' = [] \<and>
       (case u_reified u' of
          None \<Rightarrow> False
        | Some ir \<Rightarrow>
            (case u_ast u' of
               None \<Rightarrow> False
             | Some lines \<Rightarrow>
                 element (root ir) = ''u0'' \<and>
                 map (\<lambda>el. (element el, parent el)) (elements ir) =
                   [(''u1'', Some ''u0''), (''u2'', Some ''u1''), (''u3'', Some ''u1'')] \<and>
                 nearest_lower 4 (rev (take 3 lines)) = Some 1 \<and>
                 nearest_open 4 (rev (take 3 lines)) = Some 0))"
  by code_simp




end
